theory Spec2Isabelle
  imports Main "HOL-Library.Word"
begin

section \<open>JavaScript strings\<close>

text \<open>
  The client is the browser script of the PayTech assistant (build 2026-02-10_025, the
  first of the two copies in the source file; the second copy is an older build).
  A JavaScript string is a sequence of 16-bit code units. \<open>js\<close> writes an ASCII or
  Latin-1 literal as such a sequence.
\<close>

type_synonym jstring = "16 word list"

definition js :: "string \<Rightarrow> jstring" where
  "js s = map (\<lambda>c. of_nat (of_char c)) s"

text \<open>
  The white space of \<open>String.prototype.trim\<close>, \<open>trimStart\<close> and of the regular
  expression class \<open>\s\<close>: the WhiteSpace and LineTerminator code points of ECMAScript.
\<close>

definition is_ws :: "16 word \<Rightarrow> bool" where
  "is_ws c \<longleftrightarrow>
     c \<in> set [0x09, 0x0A, 0x0B, 0x0C, 0x0D, 0x20, 0xA0, 0x1680, 0x2028, 0x2029,
              0x202F, 0x205F, 0x3000, 0xFEFF]
     \<or> (0x2000 \<le> c \<and> c \<le> 0x200A)"

definition trimStart :: "jstring \<Rightarrow> jstring" where
  "trimStart s = dropWhile is_ws s"

definition trimEnd :: "jstring \<Rightarrow> jstring" where
  "trimEnd s = rev (dropWhile is_ws (rev s))"

definition trim :: "jstring \<Rightarrow> jstring" where
  "trim s = trimEnd (trimStart s)"

definition startsWith :: "jstring \<Rightarrow> jstring \<Rightarrow> bool" where
  "startsWith s p \<longleftrightarrow> take (length p) s = p"

definition endsWith :: "jstring \<Rightarrow> jstring \<Rightarrow> bool" where
  "endsWith s p \<longleftrightarrow> length p \<le> length s \<and> drop (length s - length p) s = p"

text \<open>\<open>s.indexOf(c)\<close> for a single code unit; \<open>None\<close> stands for the result -1.\<close>

definition indexOf :: "jstring \<Rightarrow> 16 word \<Rightarrow> nat option" where
  "indexOf s c = (if c \<in> set s then Some (length (takeWhile (\<lambda>x. x \<noteq> c) s)) else None)"

text \<open>\<open>lines.join(sep)\<close>.\<close>

fun join :: "jstring \<Rightarrow> jstring list \<Rightarrow> jstring" where
  "join sep [] = []"
| "join sep [x] = x"
| "join sep (x # y # ys) = x @ sep @ join sep (y # ys)"

section \<open>JSON values and the host functions\<close>

text \<open>
  \<open>JSON.parse\<close>, the conversion of a number to a string, the truth value of a number
  and \<open>toLowerCase\<close> belong to the JavaScript engine, not to the program: they are
  parameters of the model, collected in a record. Numbers stay abstract.
\<close>

typedecl jsnum

datatype json =
    JNull
  | JBool bool
  | JNum jsnum
  | JStr jstring
  | JArr "json list"
  | JObj "(jstring \<times> json) list"

record host =
  json_parse :: "jstring \<Rightarrow> json option"
  num_to_string :: "jsnum \<Rightarrow> jstring"
  num_truthy :: "jsnum \<Rightarrow> bool"
  toLowerCase :: "jstring \<Rightarrow> jstring"

text \<open>A property read \<open>v?.k\<close>; \<open>None\<close> is \<open>undefined\<close>.\<close>

fun field :: "json \<Rightarrow> jstring \<Rightarrow> json option" where
  "field (JObj fs) k = map_of fs k"
| "field _ k = None"

text \<open>Truthiness, as \<open>||\<close>, \<open>&&\<close> and \<open>if\<close> test it.\<close>

fun truthy :: "host \<Rightarrow> json \<Rightarrow> bool" where
  "truthy h JNull = False"
| "truthy h (JBool b) = b"
| "truthy h (JNum n) = num_truthy h n"
| "truthy h (JStr s) = (s \<noteq> [])"
| "truthy h (JArr xs) = True"
| "truthy h (JObj fs) = True"

fun truthy_opt :: "host \<Rightarrow> json option \<Rightarrow> bool" where
  "truthy_opt h None = False"
| "truthy_opt h (Some v) = truthy h v"

text \<open>
  \<open>String(v)\<close> on a JSON value. An object gets the text of \<open>Object.prototype.toString\<close>.
  A parsed object with an own \<open>toString\<close> key makes \<open>String\<close> throw a \<open>TypeError\<close> instead;
  the model has no such exception, so it speaks about payloads without that key.
\<close>

fun String_of :: "host \<Rightarrow> json \<Rightarrow> jstring" where
  "String_of h JNull = js ''null''"
| "String_of h (JBool b) = (if b then js ''true'' else js ''false'')"
| "String_of h (JNum n) = num_to_string h n"
| "String_of h (JStr s) = s"
| "String_of h (JArr xs) =
     join (js '','') (map (\<lambda>x. case x of JNull \<Rightarrow> [] | _ \<Rightarrow> String_of h x) xs)"
| "String_of h (JObj fs) = js ''[object Object]''"

text \<open>\<open>a || b\<close> on possibly undefined values.\<close>

definition or_else :: "host \<Rightarrow> json option \<Rightarrow> json option \<Rightarrow> json option" where
  "or_else h a b = (if truthy_opt h a then a else b)"

text \<open>\<open>String(v || "")\<close>.\<close>

definition String_or_empty :: "host \<Rightarrow> json option \<Rightarrow> jstring" where
  "String_or_empty h v = (case or_else h v (Some (JStr [])) of Some x \<Rightarrow> String_of h x | None \<Rightarrow> [])"

definition safeJsonParse :: "host \<Rightarrow> jstring \<Rightarrow> json" where
  "safeJsonParse h s = (case json_parse h s of Some v \<Rightarrow> v | None \<Rightarrow> JNull)"

definition is_object :: "json \<Rightarrow> bool" where
  "is_object v = (case v of JObj fs \<Rightarrow> True | _ \<Rightarrow> False)"

definition is_array :: "json \<Rightarrow> bool" where
  "is_array v = (case v of JArr xs \<Rightarrow> True | _ \<Rightarrow> False)"

section \<open>The frame parser: \<open>readSseStream\<close>\<close>

text \<open>
  The calls that \<open>readSseStream\<close> makes on its \<open>handlers\<close> argument, in the order it
  makes them. \<open>OnDone None\<close> is the call without an argument, made for the sentinel.
\<close>

datatype sse_call =
    OnDelta jstring
  | OnStatus json
  | OnMeta json
  | OnSources json
  | OnArtifact json
  | OnCitations json
  | OnError json
  | OnDone "json option"

text \<open>The local variables \<open>event\<close>, \<open>dataLines\<close> and \<open>sawTerminal\<close> of the reader.\<close>

record frame_state =
  event :: jstring
  dataLines :: "jstring list"
  sawTerminal :: bool

definition frame_init :: frame_state where
  "frame_init = \<lparr>event = js ''message'', dataLines = [], sawTerminal = False\<rparr>"

text \<open>
  The scanning loop of \<open>splitLeadingJson\<close>, from index \<open>i\<close> on. The result is the number
  of code units up to and including the one that brings \<open>depth\<close> back to 0.
\<close>

fun scanJson :: "int \<Rightarrow> bool \<Rightarrow> bool \<Rightarrow> jstring \<Rightarrow> nat option" where
  "scanJson depth inString esc [] = None"
| "scanJson depth inString esc (ch # s) =
     (if inString then
        (if esc then map_option Suc (scanJson depth True False s)
         else if ch = 0x5C then map_option Suc (scanJson depth True True s)
         else if ch = 0x22 then map_option Suc (scanJson depth False esc s)
         else map_option Suc (scanJson depth True esc s))
      else if ch = 0x22 then map_option Suc (scanJson depth True esc s)
      else
        (let d1 = (if ch = 0x7B \<or> ch = 0x5B then depth + 1 else depth);
             d2 = (if ch = 0x7D \<or> ch = 0x5D then d1 - 1 else d1)
         in if d2 = 0 then Some 1 else map_option Suc (scanJson d2 False esc s)))"

definition splitLeadingJson :: "jstring \<Rightarrow> (jstring \<times> jstring) option" where
  "splitLeadingJson s =
     (let t = dropWhile is_ws s in
      case t of
        [] \<Rightarrow> None
      | first # _ \<Rightarrow>
          if first \<noteq> 0x7B \<and> first \<noteq> 0x5B then None
          else (case scanJson 0 False False t of
                  None \<Rightarrow> None
                | Some n \<Rightarrow> Some (take n t, drop n t)))"

definition string_field :: "json \<Rightarrow> jstring \<Rightarrow> jstring option" where
  "string_field v k = (case field v k of Some (JStr s) \<Rightarrow> Some s | _ \<Rightarrow> None)"

text \<open>\<open>v.k != null\<close>: the property when it is neither \<open>undefined\<close> nor \<open>null\<close>.\<close>

definition non_null_field :: "json \<Rightarrow> jstring \<Rightarrow> json option" where
  "non_null_field v k = (case field v k of Some JNull \<Rightarrow> None | r \<Rightarrow> r)"

definition deltaText :: "host \<Rightarrow> jstring \<Rightarrow> jstring \<Rightarrow> json \<Rightarrow> jstring" where
  "deltaText h dataRaw restAfterJson payload =
     (let rest = trimStart restAfterJson in
      if rest \<noteq> [] then rest
      else case payload of
        JNull \<Rightarrow> dataRaw
      | JStr s \<Rightarrow> s
      | _ \<Rightarrow>
       (case string_field payload (js ''text'') of Some s \<Rightarrow> s | None \<Rightarrow>
       (case string_field payload (js ''t'') of Some s \<Rightarrow> s | None \<Rightarrow>
       (case non_null_field payload (js ''t'') of Some v \<Rightarrow> String_of h v | None \<Rightarrow>
       (case non_null_field payload (js ''delta'') of Some v \<Rightarrow> String_of h v | None \<Rightarrow>
       (case non_null_field payload (js ''content'') of Some v \<Rightarrow> String_of h v | None \<Rightarrow>
       (case non_null_field payload (js ''text'') of Some v \<Rightarrow> String_of h v | None \<Rightarrow>
        dataRaw)))))))"

definition eventName :: "host \<Rightarrow> jstring \<Rightarrow> json \<Rightarrow> jstring" where
  "eventName h ev payload =
     (let e0 = trim (if ev = [] then js ''message'' else ev);
          e1 = (if e0 = [] then js ''message'' else e0)
      in if (e1 = js ''message'' \<or> e1 = js ''event'') \<and> is_object payload then
           (let t = trim (String_or_empty h
                      (or_else h (field payload (js ''type'')) (field payload (js ''event''))))
            in if t \<noteq> [] then t else e1)
         else e1)"

text \<open>\<open>String(payload.phase || "").toLowerCase() === p\<close>, guarded by \<open>typeof payload === "object"\<close>.\<close>

definition phase_is :: "host \<Rightarrow> json \<Rightarrow> jstring \<Rightarrow> bool" where
  "phase_is h payload p \<longleftrightarrow>
     (is_object payload \<or> is_array payload) \<and>
     toLowerCase h (String_or_empty h (field payload (js ''phase''))) = p"

definition emit :: "host \<Rightarrow> frame_state \<Rightarrow> sse_call list \<times> frame_state" where
  "emit h st =
     (if dataLines st = [] then ([], st)
      else
        let dataRaw = join [0x0A] (dataLines st);
            st1 = st\<lparr>dataLines := []\<rparr>
        in if trim dataRaw = js ''[DONE]'' then
             ([OnDone None], st1\<lparr>sawTerminal := True, event := js ''message''\<rparr>)
           else
             let split = splitLeadingJson dataRaw;
                 jsonPrefix = (case split of Some (j, r) \<Rightarrow> if j = [] then None else Some j
                               | None \<Rightarrow> None);
                 restAfterJson = (case split of Some (j, r) \<Rightarrow> r | None \<Rightarrow> []);
                 payload = safeJsonParse h (case jsonPrefix of Some j \<Rightarrow> j | None \<Rightarrow> dataRaw);
                 name = eventName h (event st) payload;
                 dt = deltaText h dataRaw restAfterJson payload;
                 (calls, terminal) =
                   (if name = js ''delta'' then ([OnDelta dt], sawTerminal st1)
                    else if name = js ''status'' then
                      ([OnStatus payload],
                       sawTerminal st1 \<or> phase_is h payload (js ''done'')
                         \<or> phase_is h payload (js ''error''))
                    else if name = js ''meta'' then ([OnMeta payload], sawTerminal st1)
                    else if name = js ''sources'' then ([OnSources payload], sawTerminal st1)
                    else if name = js ''artifact'' then ([OnArtifact payload], sawTerminal st1)
                    else if name = js ''citations'' then ([OnCitations payload], sawTerminal st1)
                    else if name = js ''error'' then
                      ([OnError (if truthy h payload then payload
                                 else JObj [(js ''message'', JStr (js ''Erro.''))])], True)
                    else if name = js ''done'' then ([OnDone (Some payload)], True)
                    else if dt \<noteq> [] \<and> \<not> (is_object payload \<and> jsonPrefix \<noteq> None)
                      then ([OnDelta dt], sawTerminal st1)
                    else ([], sawTerminal st1))
             in (calls, st1\<lparr>sawTerminal := terminal, event := js ''message''\<rparr>))"

text \<open>The body of the inner loop for one line, after the trailing carriage return is cut.\<close>

definition on_line :: "host \<Rightarrow> jstring \<Rightarrow> frame_state \<Rightarrow> sse_call list \<times> frame_state" where
  "on_line h line st =
     (if line = [] then emit h st
      else if startsWith line (js ''event:'') then
        ([], st\<lparr>event := (let e = trim (drop 6 line) in if e = [] then js ''message'' else e)\<rparr>)
      else if startsWith line (js ''data:'') then
        ([], st\<lparr>dataLines := dataLines st @ [trimStart (drop 5 line)]\<rparr>)
      else ([], st))"

lemma takeWhile_shorter: "c \<in> set s \<Longrightarrow> length (takeWhile (\<lambda>x. x \<noteq> c) s) < length s"
  by (induction s) auto

lemma indexOf_less: "indexOf s c = Some i \<Longrightarrow> i < length s"
  by (auto simp: indexOf_def takeWhile_shorter split: if_splits)

text \<open>The inner \<open>while ((idx = buf.indexOf("\n")) >= 0)\<close> loop on the rolling buffer.\<close>

function drain :: "host \<Rightarrow> jstring \<Rightarrow> frame_state \<Rightarrow> sse_call list \<times> jstring \<times> frame_state" where
  "drain h b st =
     (case indexOf b 0x0A of
        None \<Rightarrow> ([], b, st)
      | Some idx \<Rightarrow>
          (let line0 = take idx b;
               b1 = drop (idx + 1) b;
               line = (if endsWith line0 [0x0D] then butlast line0 else line0);
               (calls1, st1) = on_line h line st;
               (calls2, b2, st2) = drain h b1 st1
           in (calls1 @ calls2, b2, st2)))"
  by pat_completeness auto
termination
  by (relation "measure (\<lambda>(h, b, st). length b)") (auto dest: indexOf_less)

declare drain.simps [simp del]

text \<open>
  \<open>TextDecoder.decode(value, {stream: true})\<close> is the browser's: it consumes the bytes of
  a chunk one by one and keeps the bytes of an unfinished sequence in its own state
  between calls. The model takes its step function as a parameter.
\<close>

fun decode :: "('d \<Rightarrow> 8 word \<Rightarrow> 'd \<times> jstring) \<Rightarrow> 'd \<Rightarrow> 8 word list \<Rightarrow> 'd \<times> jstring" where
  "decode step d [] = (d, [])"
| "decode step d (x # xs) =
     (let (d1, out1) = step d x; (d2, out2) = decode step d1 xs in (d2, out1 @ out2))"

text \<open>The reader between two reads: decoder state, \<open>buf\<close> and the frame variables.\<close>

record 'd reader =
  dec :: 'd
  buf :: jstring
  frame :: frame_state

text \<open>One turn of the outer loop, for a chunk that \<open>reader.read()\<close> delivered.\<close>

definition on_chunk ::
  "host \<Rightarrow> ('d \<Rightarrow> 8 word \<Rightarrow> 'd \<times> jstring) \<Rightarrow> 'd reader \<Rightarrow> 8 word list \<Rightarrow> sse_call list \<times> 'd reader" where
  "on_chunk h step r chunk =
     (let (d1, text) = decode step (dec r) chunk;
          (calls, b1, st1) = drain h (buf r @ text) (frame r)
      in (calls, \<lparr>dec = d1, buf = b1, frame = st1\<rparr>))"

fun read_loop ::
  "host \<Rightarrow> ('d \<Rightarrow> 8 word \<Rightarrow> 'd \<times> jstring) \<Rightarrow> 'd reader \<Rightarrow> 8 word list list \<Rightarrow> sse_call list \<times> 'd reader" where
  "read_loop h step r [] = ([], r)"
| "read_loop h step r (c # cs) =
     (let (calls1, r1) = on_chunk h step r c;
          (calls2, r2) = read_loop h step r1 cs
      in (calls1 @ calls2, r2))"

text \<open>
  \<open>readSseStream\<close> on a stream that delivers the chunks and then ends: the handler calls
  in order, and the returned \<open>sawTerminal\<close>. The last \<open>emit()\<close> follows the loop.
\<close>

definition readSseStream ::
  "host \<Rightarrow> ('d \<Rightarrow> 8 word \<Rightarrow> 'd \<times> jstring) \<Rightarrow> 'd \<Rightarrow> 8 word list list \<Rightarrow> sse_call list \<times> bool" where
  "readSseStream h step d0 chunks =
     (let (calls1, r) = read_loop h step \<lparr>dec = d0, buf = [], frame = frame_init\<rparr> chunks;
          (calls2, st) = emit h (frame r)
      in (calls1 @ calls2, sawTerminal st))"

section \<open>Messages, conversations and the streaming handle\<close>

text \<open>
  A message as \<open>normalizeMessage\<close> shapes it, without its timestamp and attachments.
  \<open>conversations\<close> is an array that the program only searches by \<open>id\<close>; the ids come
  from \<open>uuid()\<close>, so the model keeps a map from id to conversation and leaves out the
  order of the side bar. The messages of a conversation stay a list, searched for the
  first message with a given id, as \<open>find\<close> does.
\<close>

datatype role = User | Assistant | System

record message =
  msg_id :: jstring
  role :: role
  content :: jstring
  interrupted :: bool
  sources :: "json list"
  artifacts :: "json list"
  sourcesRequested :: bool

record conversation =
  messages :: "message list"

text \<open>
  The global \<open>streamingMsg\<close>. Its DOM references are summarised by \<open>view\<close> below;
  \<open>thinkingEl\<close> tells whether the "thinking" placeholder is shown. The field
  \<open>thinkingTimer\<close> is always 0 in this build and is left out.
\<close>

record streaming =
  convId :: jstring
  msgId :: jstring
  hasFirstChunk :: bool
  thinkingEl :: bool
  thinkingText :: jstring
  sm_sources :: "json list option"
  sm_artifacts :: "json list option"
  sm_sourcesRequested :: bool

text \<open>
  What \<open>ensureStreamingBind\<close> finds in the document: no content element for the message,
  an element other than the bound one (the thread was rendered again), or the bound one.
\<close>

datatype view = Missing | Stale | Bound

text \<open>What leaves the program: the persisted state, the title hook, the abort, the fallback request.\<close>

datatype effect = Persist | AutoTitle jstring | Abort | FallbackPost

text \<open>
  The globals of the streaming code, the locals \<open>watchdogTimer\<close>, \<open>watchdogFallback\<close>
  and \<open>emptyStreamDone\<close> of the running \<open>sendMessage\<close>, and the log of effects.
\<close>

record state =
  conversations :: "jstring \<rightharpoonup> conversation"
  streamingMsg :: "streaming option"
  streamBuffer :: jstring
  streamFlushRaf :: bool
  view :: view
  watchdogTimer :: bool
  watchdogFallback :: bool
  emptyStreamDone :: bool
  effects :: "effect list"

definition find_message :: "state \<Rightarrow> jstring \<Rightarrow> jstring \<Rightarrow> message option" where
  "find_message s cid mid =
     (case conversations s cid of
        None \<Rightarrow> None
      | Some c \<Rightarrow> find (\<lambda>m. msg_id m = mid) (messages c))"

fun update_first :: "jstring \<Rightarrow> (message \<Rightarrow> message) \<Rightarrow> message list \<Rightarrow> message list" where
  "update_first mid f [] = []"
| "update_first mid f (m # ms) =
     (if msg_id m = mid then f m # ms else m # update_first mid f ms)"

text \<open>An assignment to fields of the message object that \<open>find\<close> returned.\<close>

definition update_message :: "jstring \<Rightarrow> jstring \<Rightarrow> (message \<Rightarrow> message) \<Rightarrow> state \<Rightarrow> state" where
  "update_message cid mid f s =
     (case conversations s cid of
        None \<Rightarrow> s
      | Some c \<Rightarrow>
          s\<lparr>conversations := (conversations s)(cid \<mapsto> c\<lparr>messages := update_first mid f (messages c)\<rparr>)\<rparr>)"

text \<open>\<open>String(msg?.content || "")\<close> for the bound message.\<close>

definition content_of :: "state \<Rightarrow> jstring \<Rightarrow> jstring \<Rightarrow> jstring" where
  "content_of s cid mid = (case find_message s cid mid of None \<Rightarrow> [] | Some m \<Rightarrow> content m)"

section \<open>The delta buffer and the stream session\<close>

text \<open>
  \<open>ensureStreamingBind\<close> never changes whether there is a live handle. The functions
  that start with \<open>if (!streamingMsg) return; ensureStreamingBind();\<close> therefore read the
  handle after the rebinding and return the state untouched when there is none.
  Exceptions of the DOM are not modelled.
\<close>

definition ensureStreamingBind :: "state \<Rightarrow> state" where
  "ensureStreamingBind s =
     (case streamingMsg s of
        None \<Rightarrow> s
      | Some sm \<Rightarrow>
          if view s = Missing then s
          else if view s = Bound then s
          else
            let existingText = content_of s (convId sm) (msgId sm);
                sm1 = sm\<lparr>thinkingEl := False,
                         hasFirstChunk := (hasFirstChunk sm \<or> trim existingText \<noteq> [])\<rparr>;
                sm2 = (if \<not> hasFirstChunk sm1 then sm1\<lparr>thinkingEl := True\<rparr> else sm1)
            in s\<lparr>streamingMsg := Some sm2, view := Bound\<rparr>)"

definition flushStreamNow :: "state \<Rightarrow> state" where
  "flushStreamNow s =
     (case streamingMsg (ensureStreamingBind s) of
        None \<Rightarrow> s
      | Some sm \<Rightarrow>
          let s1 = (ensureStreamingBind s)\<lparr>streamFlushRaf := False\<rparr> in
          if streamBuffer s1 = [] then s1
          else (update_message (convId sm) (msgId sm)
                  (\<lambda>m. m\<lparr>content := content m @ streamBuffer s1\<rparr>) s1)\<lparr>streamBuffer := []\<rparr>)"

text \<open>The callback that \<open>streamAppend\<close> hands to \<open>requestAnimationFrame\<close>.\<close>

definition rafCallback :: "state \<Rightarrow> state" where
  "rafCallback s =
     (let s1 = s\<lparr>streamFlushRaf := False\<rparr> in
      case streamingMsg s1 of
        None \<Rightarrow> s1
      | Some sm \<Rightarrow>
          if streamBuffer s1 = [] then s1
          else (update_message (convId sm) (msgId sm)
                  (\<lambda>m. m\<lparr>content := content m @ streamBuffer s1\<rparr>) s1)\<lparr>streamBuffer := []\<rparr>)"

definition streamAppend :: "jstring \<Rightarrow> state \<Rightarrow> state" where
  "streamAppend t s =
     (case streamingMsg (ensureStreamingBind s) of
        None \<Rightarrow> s
      | Some sm \<Rightarrow>
          let s1 = ensureStreamingBind s;
              sm1 = (if \<not> hasFirstChunk sm then sm\<lparr>hasFirstChunk := True, thinkingEl := False\<rparr>
                     else sm)
          in s1\<lparr>streamingMsg := Some sm1, streamBuffer := streamBuffer s1 @ t,
                streamFlushRaf := True\<rparr>)"

definition setThinkingStatus :: "jstring \<Rightarrow> state \<Rightarrow> state" where
  "setThinkingStatus nextText s =
     (case streamingMsg (ensureStreamingBind s) of
        None \<Rightarrow> s
      | Some sm \<Rightarrow>
          let s1 = ensureStreamingBind s; t = trim nextText in
          if t = [] then s1 else s1\<lparr>streamingMsg := Some (sm\<lparr>thinkingText := t\<rparr>)\<rparr>)"

definition ensureThinkingVisible :: "state \<Rightarrow> state" where
  "ensureThinkingVisible s =
     (case streamingMsg (ensureStreamingBind s) of
        None \<Rightarrow> s
      | Some sm \<Rightarrow>
          let s1 = ensureStreamingBind s in
          if hasFirstChunk sm then s1
          else if thinkingEl sm then s1
          else s1\<lparr>streamingMsg := Some (sm\<lparr>thinkingEl := True\<rparr>)\<rparr>)"

text \<open>\<open>items\<close> is \<open>p?.items\<close>: an array, or anything else.\<close>

definition setStreamingSources :: "json option \<Rightarrow> state \<Rightarrow> state" where
  "setStreamingSources items s =
     (case streamingMsg s of
        None \<Rightarrow> s
      | Some sm \<Rightarrow>
          s\<lparr>streamingMsg :=
               Some (sm\<lparr>sm_sources := Some (case items of Some (JArr xs) \<Rightarrow> xs | _ \<Rightarrow> [])\<rparr>)\<rparr>)"

definition pushStreamingArtifact :: "json \<Rightarrow> state \<Rightarrow> state" where
  "pushStreamingArtifact a s =
     (case streamingMsg s of
        None \<Rightarrow> s
      | Some sm \<Rightarrow>
          s\<lparr>streamingMsg :=
               Some (sm\<lparr>sm_artifacts :=
                            Some ((case sm_artifacts sm of Some xs \<Rightarrow> xs | None \<Rightarrow> []) @ [a])\<rparr>)\<rparr>)"

text \<open>
  \<open>finalizeStreaming({ok, errorMessage, sources, artifacts})\<close>. The argument \<open>sources\<close>
  is never read. \<open>errorMessage\<close> may be any value or missing; \<open>artifacts\<close> is an array or
  missing.
\<close>

definition finalizeStreaming ::
  "host \<Rightarrow> bool \<Rightarrow> json option \<Rightarrow> json list option \<Rightarrow> state \<Rightarrow> state" where
  "finalizeStreaming h ok errorMessage arts s =
     (case streamingMsg s of
        None \<Rightarrow> s
      | Some sm0 \<Rightarrow>
          let s1 = flushStreamNow s in
          case streamingMsg s1 of
            None \<Rightarrow> s1
          | Some sm \<Rightarrow>
              let finalArtifacts =
                    (case arts of
                       Some xs \<Rightarrow> xs
                     | None \<Rightarrow> (case sm_artifacts sm of Some ys \<Rightarrow> ys | None \<Rightarrow> []))
              in case find_message s1 (convId sm) (msgId sm) of
                   None \<Rightarrow> s1\<lparr>streamingMsg := None\<rparr>
                 | Some m0 \<Rightarrow>
                     let s2 = update_message (convId sm) (msgId sm)
                                (\<lambda>m. m\<lparr>content :=
                                           (if \<not> ok then
                                              (case or_else h errorMessage
                                                      (Some (JStr (js ''Falha ao gerar resposta.''))) of
                                                 Some v \<Rightarrow> String_of h v
                                               | None \<Rightarrow> [])
                                            else content m),
                                         sources := [],
                                         sourcesRequested := False,
                                         artifacts :=
                                           (if finalArtifacts \<noteq> [] then finalArtifacts
                                            else artifacts m)\<rparr>) s1
                     in s2\<lparr>streamingMsg := None,
                           effects := effects s2 @ [Persist] @ (if ok then [AutoTitle (convId sm)] else [])\<rparr>)"

definition interrupted_placeholder :: jstring where
  "interrupted_placeholder = js ''Gera'' @ [0xE7, 0xE3] @ js ''o interrompida.''"

definition finalizeStreamingInterrupted :: "state \<Rightarrow> state" where
  "finalizeStreamingInterrupted s =
     (case streamingMsg s of
        None \<Rightarrow> s
      | Some sm0 \<Rightarrow>
          let s1 = flushStreamNow s in
          case streamingMsg s1 of
            None \<Rightarrow> s1
          | Some sm \<Rightarrow>
              (case find_message s1 (convId sm) (msgId sm) of
                 None \<Rightarrow> s1\<lparr>streamingMsg := None\<rparr>
               | Some m0 \<Rightarrow>
                   let s2 = update_message (convId sm) (msgId sm)
                              (\<lambda>m. m\<lparr>interrupted := True,
                                       content := (if trim (content m) = [] then interrupted_placeholder
                                                   else content m)\<rparr>) s1
                   in s2\<lparr>streamingMsg := None, effects := effects s2 @ [Persist]\<rparr>))"

definition stopGenerating :: "state \<Rightarrow> state" where
  "stopGenerating s = finalizeStreamingInterrupted (s\<lparr>effects := effects s @ [Abort]\<rparr>)"

text \<open>\<open>clearThread\<close>, the first step of every \<open>renderThread\<close>.\<close>

definition clearThread :: "state \<Rightarrow> state" where
  "clearThread s =
     s\<lparr>streamingMsg := map_option (\<lambda>sm. sm\<lparr>thinkingEl := False\<rparr>) (streamingMsg s),
       view := Missing, streamBuffer := [], streamFlushRaf := False\<rparr>"

text \<open>
  \<open>startStreamingIntoMessage\<close>; \<open>found\<close> tells whether there is a content element to
  bind to.
\<close>

definition startStreamingIntoMessage :: "jstring \<Rightarrow> jstring \<Rightarrow> bool \<Rightarrow> bool \<Rightarrow> state \<Rightarrow> bool \<times> state" where
  "startStreamingIntoMessage cid mid found requested s =
     (if \<not> found then (False, s)
      else
        let s1 = s\<lparr>streamingMsg :=
                      Some \<lparr>convId = cid, msgId = mid, hasFirstChunk = False, thinkingEl = False,
                            thinkingText = js ''Analisando'' @ [0x2026], sm_sources = None,
                            sm_artifacts = None, sm_sourcesRequested = requested\<rparr>,
                    view := Bound\<rparr>
        in (True, (ensureThinkingVisible s1)\<lparr>streamBuffer := [], streamFlushRaf := False\<rparr>))"

section \<open>The handlers that \<open>sendMessage\<close> passes to the parser\<close>

definition ellipsis :: jstring where
  "ellipsis = [0x2026]"

text \<open>\<open>x || "Erro no streaming."\<close>.\<close>

definition or_stream_error :: "host \<Rightarrow> json option \<Rightarrow> json option" where
  "or_stream_error h x = or_else h x (Some (JStr (js ''Erro no streaming.'')))"

definition onStatus :: "host \<Rightarrow> json \<Rightarrow> state \<Rightarrow> state" where
  "onStatus h st s =
     (let phase = toLowerCase h (trim (String_or_empty h (field st (js ''phase'')))) in
      if phase = js ''thinking'' then
        ensureThinkingVisible (setThinkingStatus (js ''Analisando'' @ ellipsis) s)
      else if phase = js ''tool'' then
        ensureThinkingVisible (setThinkingStatus (js ''Consultando documentos'' @ ellipsis) s)
      else if phase = js ''answer'' then s
      else if phase = js ''done'' then
        (if \<not> (case streamingMsg s of Some sm \<Rightarrow> hasFirstChunk sm | None \<Rightarrow> False)
         then s\<lparr>emptyStreamDone := True\<rparr>
         else finalizeStreaming h True None None s)
      else if phase = js ''error'' then
        finalizeStreaming h False (or_stream_error h (field st (js ''message''))) None s
      else s)"

definition onDelta :: "jstring \<Rightarrow> state \<Rightarrow> state" where
  "onDelta t s = streamAppend t s"

definition onSources :: "json \<Rightarrow> state \<Rightarrow> state" where
  "onSources p s = setStreamingSources (field p (js ''items'')) s"

definition onArtifact :: "json \<Rightarrow> state \<Rightarrow> state" where
  "onArtifact a s = pushStreamingArtifact a s"

definition onError :: "host \<Rightarrow> json \<Rightarrow> state \<Rightarrow> state" where
  "onError h e s = finalizeStreaming h False (or_stream_error h (field e (js ''message''))) None s"

definition onDone :: "host \<Rightarrow> state \<Rightarrow> state" where
  "onDone h s = finalizeStreaming h True None None s"

text \<open>A handler call of the parser, run. \<open>onMeta\<close> and \<open>onCitations\<close> are not passed.\<close>

fun handle :: "host \<Rightarrow> sse_call \<Rightarrow> state \<Rightarrow> state" where
  "handle h (OnDelta t) s = onDelta t s"
| "handle h (OnStatus st) s = onStatus h st s"
| "handle h (OnMeta p) s = s"
| "handle h (OnSources p) s = onSources p s"
| "handle h (OnArtifact a) s = onArtifact a s"
| "handle h (OnCitations p) s = s"
| "handle h (OnError e) s = onError h e s"
| "handle h (OnDone p) s = onDone h s"

fun handle_all :: "host \<Rightarrow> sse_call list \<Rightarrow> state \<Rightarrow> state" where
  "handle_all h [] s = s"
| "handle_all h (c # cs) s = handle_all h cs (handle h c s)"

section \<open>The recovery controller: \<open>runChatFallback\<close>\<close>

text \<open>
  What the network does to the fallback: the outcome of the first \<open>doPost()\<close>, the result
  of \<open>ensureBackendBaseOnline()\<close> after a first post that threw, the outcome of the second
  post, and for the \<open>catch\<close> the result of \<open>pingBackendHealth\<close> and the value of
  \<open>BACKEND_BASE\<close>. A response is \<open>ok\<close>, \<open>status\<close>, its body as \<open>text()\<close> gives it (empty
  when that fails) and as \<open>json()\<close> gives it (\<open>null\<close> when that fails).
\<close>

datatype post_result = PostThrows jstring | PostResponse bool nat jstring json

record fallback_env =
  post1 :: post_result
  health2 :: bool
  post2 :: post_result
  ping :: bool
  base :: jstring

function decimal :: "nat \<Rightarrow> jstring" where
  "decimal n = (if n < 10 then [of_nat (48 + n)] else decimal (n div 10) @ [of_nat (48 + n mod 10)])"
  by pat_completeness auto
termination
  by (relation "measure id") auto

declare decimal.simps [simp del]

text \<open>The part of \<open>runChatFallback\<close> before its first \<open>await\<close>: the guard and the abort.\<close>

definition runChatFallback_enter :: "jstring \<Rightarrow> state \<Rightarrow> bool \<times> state" where
  "runChatFallback_enter reason s =
     (case streamingMsg s of
        None \<Rightarrow> (False, s)
      | Some sm \<Rightarrow>
          if hasFirstChunk sm then (False, s)
          else
            let s1 = s\<lparr>watchdogFallback := True\<rparr>;
                s2 = ensureThinkingVisible
                       (setThinkingStatus (if reason = [] then js ''Reconectando'' @ ellipsis else reason) s1)
            in (True, s2\<lparr>effects := effects s2 @ [Abort]\<rparr>))"

definition fallback_failed :: "host \<Rightarrow> fallback_env \<Rightarrow> jstring \<Rightarrow> state \<Rightarrow> state" where
  "fallback_failed h env msg s =
     (let hints =
            (if ping env then
               js ''O backend respondeu ao /health. Isso costuma ser bloqueio do navegador (CORS/mixed-content) ou um erro de rede moment''
                 @ [0xE2] @ js ''neo.''
             else js ''Backend parece offline. Inicie com backend/run_dev.ps1 (porta 8000) e confirme /health.'')
      in finalizeStreaming h False
           (Some (JStr (trim (js ''Falha no fallback /chat ('' @ base env @ js ''). '' @ msg)
                        @ [0x0A] @ hints))) None s)"

definition fallback_response ::
  "host \<Rightarrow> jstring \<Rightarrow> jstring \<Rightarrow> bool \<Rightarrow> nat \<Rightarrow> jstring \<Rightarrow> json \<Rightarrow> state \<Rightarrow> state" where
  "fallback_response h cid mid ok status body data s =
     (if \<not> ok then
        finalizeStreaming h False
          (Some (JStr (trim (js ''Fallback /chat retornou '' @ decimal status @ js ''. ''
                             @ (if body \<noteq> [] then take 240 body else [])))))
          None s
      else
        let reply = trim (String_or_empty h (field data (js ''reply''))) in
        if reply = [] then
          finalizeStreaming h False (Some (JStr (js ''Fallback /chat retornou vazio.''))) None s
        else
          let s1 = update_message cid mid (\<lambda>m. m\<lparr>content := reply\<rparr>) s;
              arts = (case field data (js ''artifacts'') of Some (JArr xs) \<Rightarrow> xs | _ \<Rightarrow> [])
          in finalizeStreaming h True None (Some arts) s1)"

text \<open>The rest of \<open>runChatFallback\<close>, once the guard has let it pass.\<close>

definition runChatFallback_rest :: "host \<Rightarrow> fallback_env \<Rightarrow> jstring \<Rightarrow> jstring \<Rightarrow> state \<Rightarrow> state" where
  "runChatFallback_rest h env cid mid s =
     (let s1 = s\<lparr>effects := effects s @ [FallbackPost]\<rparr> in
      case post1 env of
        PostResponse ok status body data \<Rightarrow> fallback_response h cid mid ok status body data s1
      | PostThrows e \<Rightarrow>
          if health2 env then
            (let s2 = s1\<lparr>effects := effects s1 @ [FallbackPost]\<rparr> in
             case post2 env of
               PostResponse ok status body data \<Rightarrow> fallback_response h cid mid ok status body data s2
             | PostThrows e2 \<Rightarrow> fallback_failed h env e2 s2)
          else fallback_failed h env e s1)"

definition runChatFallback ::
  "host \<Rightarrow> fallback_env \<Rightarrow> jstring \<Rightarrow> jstring \<Rightarrow> jstring \<Rightarrow> state \<Rightarrow> bool \<times> state" where
  "runChatFallback h env cid mid reason s =
     (case runChatFallback_enter reason s of
        (False, s1) \<Rightarrow> (False, s1)
      | (True, s1) \<Rightarrow> (True, runChatFallback_rest h env cid mid s1))"

section \<open>The streaming branch of \<open>sendMessage\<close>\<close>

text \<open>
  The start of a send. Without a conversation under the identifier a new one is created
  and persisted first. Then the user message and the empty assistant message are pushed
  and persisted, and the session is armed on the assistant message. \<open>found\<close> is whether
  the new bubble has a content element.
\<close>

definition bind_failure_text :: jstring where
  "bind_failure_text =
     js ''Falha ao iniciar thread (UI). Verifique se existe `#thread` e `.content` no HTML e se o DOM n''
       @ [0xE3] @ js ''o foi recriado.''"

definition begin_send ::
  "jstring \<Rightarrow> jstring \<Rightarrow> jstring \<Rightarrow> jstring \<Rightarrow> bool \<Rightarrow> bool \<Rightarrow> state \<Rightarrow> bool \<times> state" where
  "begin_send cid uid mid txt found requested s =
     (let creating = (conversations s cid = None);
          conv = (case conversations s cid of Some c \<Rightarrow> c | None \<Rightarrow> \<lparr>messages = []\<rparr>);
          userMsg = \<lparr>msg_id = uid, role = User, content = txt, interrupted = False,
                     sources = [], artifacts = [], sourcesRequested = False\<rparr>;
          assistantMsg = \<lparr>msg_id = mid, role = Assistant, content = [], interrupted = False,
                          sources = [], artifacts = [], sourcesRequested = requested\<rparr>;
          s1 = s\<lparr>conversations :=
                     (conversations s)(cid \<mapsto> conv\<lparr>messages := messages conv @ [userMsg, assistantMsg]\<rparr>),
                  effects := effects s @ (if creating then [Persist, Persist] else [Persist])\<rparr>
      in case startStreamingIntoMessage cid mid found requested s1 of
           (False, s2) \<Rightarrow>
             (let s3 = update_message cid mid (\<lambda>m. m\<lparr>content := bind_failure_text\<rparr>) s2
              in (False, clearThread (s3\<lparr>effects := effects s3 @ [Persist]\<rparr>)))
         | (True, s2) \<Rightarrow>
             (True, s2\<lparr>watchdogTimer := False, watchdogFallback := False, emptyStreamDone := False\<rparr>))"

text \<open>
  What happens while the response is read, in order: a chunk arrives, the animation frame
  runs, the watchdog timer fires, the user presses stop. The stream then ends, or the read
  fails with an error that is not an abort.
\<close>

datatype stream_item = Chunk "8 word list" | RafFires | WatchdogFires | UserStops

datatype stream_end = EndOfStream | ReadFails jstring

record response =
  resp_ok :: bool
  resp_status :: nat
  resp_text :: jstring
  resp_reader :: bool
  resp_event_stream :: bool
  resp_items :: "stream_item list"
  resp_end :: stream_end

text \<open>
  \<open>fetchWithRetry\<close> on the stream endpoint throws an error that is not an abort, is
  aborted by the stop button while it waits, or returns a response.
\<close>

datatype fetch_result = FetchFails jstring | FetchAborted | Response response

record 'd decoder =
  dec_init :: 'd
  dec_step :: "'d \<Rightarrow> 8 word \<Rightarrow> 'd \<times> jstring"
  dec_flush :: "'d \<Rightarrow> jstring"

record send_env =
  fallback :: fallback_env
  online :: bool
  backend_base :: jstring

text \<open>The duration handed to \<open>setTimeout\<close> for the watchdog, in milliseconds.\<close>

definition watchdog_ms :: nat where
  "watchdog_ms = 12000"

text \<open>The timer callback, up to its first \<open>await\<close>.\<close>

definition watchdog_fires :: "state \<Rightarrow> bool \<times> state" where
  "watchdog_fires s =
     runChatFallback_enter (js ''Sem resposta no streaming. Usando fallback'' @ ellipsis)
       (s\<lparr>watchdogTimer := False\<rparr>)"

text \<open>The \<open>catch\<close> of \<open>sendMessage\<close> for an \<open>AbortError\<close>, and its \<open>finally\<close>.\<close>

definition catch_abort :: "state \<Rightarrow> state" where
  "catch_abort s =
     (if \<not> watchdogFallback s then finalizeStreamingInterrupted s else s)\<lparr>watchdogTimer := False\<rparr>"

text \<open>The \<open>catch\<close> for any other error, with its message.\<close>

definition catch_error :: "host \<Rightarrow> send_env \<Rightarrow> jstring \<Rightarrow> jstring \<Rightarrow> jstring \<Rightarrow> state \<Rightarrow> state" where
  "catch_error h env cid mid msg s =
     (case runChatFallback h (fallback env) cid mid
             (js ''Falha no streaming. Tentando fallback'' @ ellipsis) s of
        (True, s1) \<Rightarrow> s1\<lparr>watchdogTimer := False\<rparr>
      | (False, s1) \<Rightarrow>
          (let extra =
                 (if online env then
                    js ''O backend respondeu ao /health. Isso costuma ser rein'' @ [0xED]
                      @ js ''cio do servidor (reload) ou bloqueio do navegador (CORS).''
                  else js ''Backend parece offline. Inicie com backend/run_dev.ps1 (porta 8000).'')
           in (finalizeStreaming h False
                 (Some (JStr (trim (js ''Falha ao conectar ao backend ('' @ backend_base env
                                    @ js ''). '' @ msg) @ [0x0A] @ extra))) None s1)
              \<lparr>watchdogTimer := False\<rparr>))"

text \<open>
  The same \<open>catch\<close> when the user presses stop while \<open>runChatFallback\<close> awaits the reply.
  \<open>sendMessage\<close> has not reached its \<open>finally\<close> then, \<open>isGenerating\<close> is still true and the
  send button is the stop button: \<open>stopGenerating\<close> runs between the guard of the fallback
  and the code after its \<open>await\<close>.
\<close>

definition catch_error_stopped ::
  "host \<Rightarrow> send_env \<Rightarrow> jstring \<Rightarrow> jstring \<Rightarrow> jstring \<Rightarrow> state \<Rightarrow> state" where
  "catch_error_stopped h env cid mid msg s =
     (case runChatFallback_enter (js ''Falha no streaming. Tentando fallback'' @ ellipsis) s of
        (True, s1) \<Rightarrow>
          (runChatFallback_rest h (fallback env) cid mid (stopGenerating s1))\<lparr>watchdogTimer := False\<rparr>
      | (False, s1) \<Rightarrow> catch_error h env cid mid msg s)"

text \<open>
  The read loop inside \<open>readSseStream\<close> with what happens between the reads. \<open>Inr\<close> is the
  reader and the state when all items are consumed. \<open>Inl\<close> is the end after an abort:
  the pending read rejects with an \<open>AbortError\<close>, \<open>sendMessage\<close> leaves through its
  \<open>catch\<close> and \<open>finally\<close>, and no further chunk is delivered. After the stop button
  that is all. After the watchdog the fallback it has entered runs to its end; the send
  button is no stop button any more by then (\<open>isGenerating\<close> is false).
\<close>

fun sse_loop ::
  "host \<Rightarrow> ('d \<Rightarrow> 8 word \<Rightarrow> 'd \<times> jstring) \<Rightarrow> fallback_env \<Rightarrow> jstring \<Rightarrow> jstring \<Rightarrow>
   stream_item list \<Rightarrow> 'd reader \<Rightarrow> state \<Rightarrow> state + ('d reader \<times> state)" where
  "sse_loop h step env cid mid [] r s = Inr (r, s)"
| "sse_loop h step env cid mid (Chunk c # xs) r s =
     (let (calls, r1) = on_chunk h step r c
      in sse_loop h step env cid mid xs r1 (handle_all h calls s))"
| "sse_loop h step env cid mid (RafFires # xs) r s =
     sse_loop h step env cid mid xs r (rafCallback s)"
| "sse_loop h step env cid mid (WatchdogFires # xs) r s =
     (if \<not> watchdogTimer s then sse_loop h step env cid mid xs r s
      else case watchdog_fires s of
             (False, s1) \<Rightarrow> sse_loop h step env cid mid xs r s1
           | (True, s1) \<Rightarrow>
               Inl (runChatFallback_rest h env cid mid (catch_abort s1)))"
| "sse_loop h step env cid mid (UserStops # xs) r s = Inl (catch_abort (stopGenerating s))"

text \<open>The same for a response that is not an event stream: every decoded chunk is appended.\<close>

fun plain_loop ::
  "host \<Rightarrow> ('d \<Rightarrow> 8 word \<Rightarrow> 'd \<times> jstring) \<Rightarrow> fallback_env \<Rightarrow> jstring \<Rightarrow> jstring \<Rightarrow>
   stream_item list \<Rightarrow> 'd \<Rightarrow> state \<Rightarrow> state + ('d \<times> state)" where
  "plain_loop h step env cid mid [] d s = Inr (d, s)"
| "plain_loop h step env cid mid (Chunk c # xs) d s =
     (let (d1, chunk) = decode step d c
      in plain_loop h step env cid mid xs d1 (if chunk \<noteq> [] then streamAppend chunk s else s))"
| "plain_loop h step env cid mid (RafFires # xs) d s =
     plain_loop h step env cid mid xs d (rafCallback s)"
| "plain_loop h step env cid mid (WatchdogFires # xs) d s =
     (if \<not> watchdogTimer s then plain_loop h step env cid mid xs d s
      else case watchdog_fires s of
             (False, s1) \<Rightarrow> plain_loop h step env cid mid xs d s1
           | (True, s1) \<Rightarrow>
               Inl (runChatFallback_rest h env cid mid (catch_abort s1)))"
| "plain_loop h step env cid mid (UserStops # xs) d s = Inl (catch_abort (stopGenerating s))"

text \<open>The code that follows the reading, when the stream has ended.\<close>

definition post_stream :: "host \<Rightarrow> fallback_env \<Rightarrow> jstring \<Rightarrow> jstring \<Rightarrow> state \<Rightarrow> state" where
  "post_stream h env cid mid s =
     (if watchdogFallback s then s
      else if emptyStreamDone s then
        snd (runChatFallback h env cid mid
               (js ''Stream finalizou sem tokens. Usando fallback'' @ ellipsis) s)
      else case streamingMsg s of
             None \<Rightarrow> s
           | Some sm \<Rightarrow>
               if convId sm = cid then
                 (if trim (content_of s cid mid) \<noteq> [] then finalizeStreamingInterrupted s
                  else finalizeStreaming h False
                         (Some (JStr (js ''Stream finalizou sem resposta (poss'' @ [0xED]
                                      @ js ''vel reload do backend).''))) None s)
               else s)"

text \<open>The status shown before the request: "Conectando" and the ellipsis.\<close>

definition connecting :: "state \<Rightarrow> state" where
  "connecting s = ensureThinkingVisible (setThinkingStatus (js ''Conectando'' @ ellipsis) s)"

text \<open>
  \<open>sendMessage\<close> with streaming enabled and no attachments, from the armed session on:
  the status, the request to the stream endpoint and everything after it. What only
  changes the top bar, the toast or the log is left out.
\<close>

definition sendMessage_stream ::
  "host \<Rightarrow> 'd decoder \<Rightarrow> send_env \<Rightarrow> jstring \<Rightarrow> jstring \<Rightarrow> fetch_result \<Rightarrow> state \<Rightarrow> state" where
  "sendMessage_stream h D env cid mid res s0 =
     (let s = connecting s0 in
      case res of
        FetchFails msg \<Rightarrow> catch_error h env cid mid msg s
      | FetchAborted \<Rightarrow> catch_abort (stopGenerating s)
      | Response r \<Rightarrow>
          if \<not> resp_ok r then
            finalizeStreaming h False
              (Some (JStr (trim (js ''Servidor retornou '' @ decimal (resp_status r) @ js ''. ''
                                 @ (if resp_text r \<noteq> [] then take 240 (resp_text r) else [])))))
              None s
          else if \<not> resp_reader r then
            (if trim (resp_text r) = [] then
               finalizeStreaming h False
                 (Some (JStr (js ''Resposta inv'' @ [0xE1] @ js ''lida do servidor (sem stream).''))) None s
             else finalizeStreaming h True None None (streamAppend (resp_text r) s))
          else
            let s1 = s\<lparr>watchdogTimer := True\<rparr> in
            if resp_event_stream r then
              (case sse_loop h (dec_step D) (fallback env) cid mid (resp_items r)
                      \<lparr>dec = dec_init D, buf = [], frame = frame_init\<rparr> s1 of
                 Inl s2 \<Rightarrow> s2
               | Inr (rd, s2) \<Rightarrow>
                   (case resp_end r of
                      EndOfStream \<Rightarrow>
                        (post_stream h (fallback env) cid mid
                           (handle_all h (fst (emit h (frame rd))) s2))\<lparr>watchdogTimer := False\<rparr>
                    | ReadFails msg \<Rightarrow> catch_error h env cid mid msg s2))
            else
              (case plain_loop h (dec_step D) (fallback env) cid mid (resp_items r) (dec_init D) s1 of
                 Inl s2 \<Rightarrow> s2
               | Inr (d, s2) \<Rightarrow>
                   (case resp_end r of
                      EndOfStream \<Rightarrow>
                        (let tail = dec_flush D d;
                             s3 = (if tail \<noteq> [] then streamAppend tail s2 else s2)
                         in (post_stream h (fallback env) cid mid
                               (finalizeStreaming h True None None s3))\<lparr>watchdogTimer := False\<rparr>)
                    | ReadFails msg \<Rightarrow> catch_error h env cid mid msg s2)))"

section \<open>The UTF-8 decoder of the browser\<close>

text \<open>
  \<open>new TextDecoder()\<close> decodes UTF-8 as the WHATWG Encoding standard describes: a state
  machine over single bytes that survives from one \<open>decode(value, {stream: true})\<close> to
  the next, replaces malformed input by U+FFFD and drops a leading byte order mark. The
  general results below hold for any decoder; this one is used where a concrete stream of
  bytes is run.
\<close>

record utf8_state =
  code_point :: nat
  bytes_seen :: nat
  bytes_needed :: nat
  lower_boundary :: nat
  upper_boundary :: nat
  bom_seen :: bool

definition utf8_init :: utf8_state where
  "utf8_init = \<lparr>code_point = 0, bytes_seen = 0, bytes_needed = 0,
                 lower_boundary = 0x80, upper_boundary = 0xBF, bom_seen = False\<rparr>"

definition utf16 :: "nat \<Rightarrow> jstring" where
  "utf16 cp =
     (if cp < 0x10000 then [of_nat cp]
      else [of_nat (0xD800 + (cp - 0x10000) div 0x400), of_nat (0xDC00 + (cp - 0x10000) mod 0x400)])"

definition utf8_out :: "utf8_state \<Rightarrow> nat \<Rightarrow> utf8_state \<times> jstring" where
  "utf8_out s cp =
     (if \<not> bom_seen s then (s\<lparr>bom_seen := True\<rparr>, if cp = 0xFEFF then [] else utf16 cp)
      else (s, utf16 cp))"

definition utf8_reset :: "utf8_state \<Rightarrow> utf8_state" where
  "utf8_reset s = s\<lparr>code_point := 0, bytes_seen := 0, bytes_needed := 0,
                    lower_boundary := 0x80, upper_boundary := 0xBF\<rparr>"

definition utf8_lead :: "utf8_state \<Rightarrow> nat \<Rightarrow> utf8_state \<times> jstring" where
  "utf8_lead s n =
     (if n \<le> 0x7F then utf8_out s n
      else if 0xC2 \<le> n \<and> n \<le> 0xDF then (s\<lparr>bytes_needed := 1, code_point := n mod 0x20\<rparr>, [])
      else if 0xE0 \<le> n \<and> n \<le> 0xEF then
        (s\<lparr>lower_boundary := (if n = 0xE0 then 0xA0 else lower_boundary s),
           upper_boundary := (if n = 0xED then 0x9F else upper_boundary s),
           bytes_needed := 2, code_point := n mod 0x10\<rparr>, [])
      else if 0xF0 \<le> n \<and> n \<le> 0xF4 then
        (s\<lparr>lower_boundary := (if n = 0xF0 then 0x90 else lower_boundary s),
           upper_boundary := (if n = 0xF4 then 0x8F else upper_boundary s),
           bytes_needed := 3, code_point := n mod 0x08\<rparr>, [])
      else utf8_out s 0xFFFD)"

definition utf8_step :: "utf8_state \<Rightarrow> 8 word \<Rightarrow> utf8_state \<times> jstring" where
  "utf8_step s b =
     (let n = unat b in
      if bytes_needed s = 0 then utf8_lead s n
      else if n < lower_boundary s \<or> upper_boundary s < n then
        (let (s1, out1) = utf8_out (utf8_reset s) 0xFFFD;
             (s2, out2) = utf8_lead s1 n
         in (s2, out1 @ out2))
      else
        let s1 = s\<lparr>lower_boundary := 0x80, upper_boundary := 0xBF,
                   code_point := code_point s * 0x40 + n mod 0x40,
                   bytes_seen := bytes_seen s + 1\<rparr>
        in if bytes_seen s1 \<noteq> bytes_needed s1 then (s1, [])
           else utf8_out (utf8_reset s1) (code_point s1))"

text \<open>The end-of-stream flush: an unfinished sequence becomes one U+FFFD.\<close>

definition utf8_flush :: "utf8_state \<Rightarrow> jstring" where
  "utf8_flush s = (if bytes_needed s \<noteq> 0 then snd (utf8_out (utf8_reset s) 0xFFFD) else [])"

definition utf8 :: "utf8_state decoder" where
  "utf8 = \<lparr>dec_init = utf8_init, dec_step = utf8_step, dec_flush = utf8_flush\<rparr>"

text \<open>The bytes of an ASCII text.\<close>

definition bytes :: "string \<Rightarrow> 8 word list" where
  "bytes s = map (\<lambda>c. of_nat (of_char c)) s"

section \<open>Predicates used in the statements\<close>

text \<open>A payload line that does not start with white space.\<close>

definition no_leading_ws :: "jstring \<Rightarrow> bool" where
  "no_leading_ws s = (case s of [] \<Rightarrow> True | c # cs \<Rightarrow> \<not> is_ws c)"





text \<open>
  A host for running concrete inputs: its \<open>JSON.parse\<close> knows the three JSON texts of the
  examples and rejects everything else, and its \<open>toLowerCase\<close> leaves a text as it is
  (the examples are in lower case).
\<close>

definition example_host :: host where
  \<open>example_host =
     \<lparr>json_parse =
        (\<lambda>s. if s = js ''{"type":"delta"}'' then Some (JObj [(js ''type'', JStr (js ''delta''))])
             else if s = js ''{"phase":"done"}'' then Some (JObj [(js ''phase'', JStr (js ''done''))])
             else if s = js ''{"type":"delta","text":"A"}''
               then Some (JObj [(js ''type'', JStr (js ''delta'')), (js ''text'', JStr (js ''A''))])
             else None),
      num_to_string = (\<lambda>n. []),
      num_truthy = (\<lambda>n. True),
      toLowerCase = (\<lambda>s. s)\<rparr>\<close>

text \<open>A network on which the fallback request succeeds with the reply "Hi".\<close>

definition example_env :: send_env where
  "example_env =
     \<lparr>fallback = \<lparr>post1 = PostResponse True 200 [] (JObj [(js ''reply'', JStr (js ''Hi''))]),
                  health2 = False, post2 = PostThrows [], ping = True,
                  base = js ''http://127.0.0.1:8000''\<rparr>,
      online = True, backend_base = js ''http://127.0.0.1:8000''\<rparr>"

text \<open>An accepted event-stream response that delivers the items and then ends.\<close>

definition sse_response :: "stream_item list \<Rightarrow> fetch_result" where
  "sse_response items =
     Response \<lparr>resp_ok = True, resp_status = 200, resp_text = [], resp_reader = True,
               resp_event_stream = True, resp_items = items, resp_end = EndOfStream\<rparr>"

text \<open>
  What reaches the delta buffer between two flushes: a delta is appended, or the scheduled
  animation frame runs.
\<close>

datatype buffer_op = Append jstring | Frame

fun run_ops :: "buffer_op list \<Rightarrow> state \<Rightarrow> state" where
  "run_ops [] s = s"
| "run_ops (Append t # ops) s = run_ops ops (streamAppend t s)"
| "run_ops (Frame # ops) s = run_ops ops (rafCallback s)"

fun appended :: "buffer_op list \<Rightarrow> jstring" where
  "appended [] = []"
| "appended (Append t # ops) = t @ appended ops"
| "appended (Frame # ops) = appended ops"

text \<open>
  A session as a send arms it: live on message \<open>mid\<close> of conversation \<open>cid\<close>, before the
  first chunk, nothing buffered and the message still blank.
\<close>

definition fresh :: "jstring \<Rightarrow> jstring \<Rightarrow> state \<Rightarrow> bool" where
  "fresh cid mid s =
     (case streamingMsg s of
        None \<Rightarrow> False
      | Some sm \<Rightarrow>
          convId sm = cid \<and> msgId sm = mid \<and> \<not> hasFirstChunk sm \<and> streamBuffer s = [] \<and>
          (case find_message s cid mid of None \<Rightarrow> False | Some m \<Rightarrow> trim (content m) = []))"

text \<open>A session that is live on that message and has had its first chunk.\<close>

definition started :: "jstring \<Rightarrow> jstring \<Rightarrow> state \<Rightarrow> bool" where
  "started cid mid s =
     (case streamingMsg s of
        None \<Rightarrow> False
      | Some sm \<Rightarrow>
          convId sm = cid \<and> msgId sm = mid \<and> hasFirstChunk sm \<and>
          (case find_message s cid mid of None \<Rightarrow> False | Some m \<Rightarrow> True))"

text \<open>The chunks among the items of a response.\<close>

fun chunks_of :: "stream_item list \<Rightarrow> 8 word list list" where
  "chunks_of [] = []"
| "chunks_of (Chunk c # xs) = c # chunks_of xs"
| "chunks_of (RafFires # xs) = chunks_of xs"
| "chunks_of (WatchdogFires # xs) = chunks_of xs"
| "chunks_of (UserStops # xs) = chunks_of xs"

text \<open>Items among which the watchdog does not fire and the user does not stop.\<close>

fun undisturbed :: "stream_item list \<Rightarrow> bool" where
  "undisturbed [] = True"
| "undisturbed (Chunk c # xs) = undisturbed xs"
| "undisturbed (RafFires # xs) = undisturbed xs"
| "undisturbed (WatchdogFires # xs) = False"
| "undisturbed (UserStops # xs) = False"

text \<open>
  The handler calls by kind: a delta, and a call that can end the session (an error, a
  done, or a status whose phase is \<open>done\<close> or \<open>error\<close>).
\<close>

fun is_delta :: "sse_call \<Rightarrow> bool" where
  "is_delta (OnDelta t) = True"
| "is_delta (OnStatus st) = False"
| "is_delta (OnMeta p) = False"
| "is_delta (OnSources p) = False"
| "is_delta (OnArtifact a) = False"
| "is_delta (OnCitations p) = False"
| "is_delta (OnError e) = False"
| "is_delta (OnDone p) = False"

fun ending :: "host \<Rightarrow> sse_call \<Rightarrow> bool" where
  "ending h (OnDelta t) = False"
| "ending h (OnStatus st) =
     (let phase = toLowerCase h (trim (String_or_empty h (field st (js ''phase''))))
      in phase = js ''done'' \<or> phase = js ''error'')"
| "ending h (OnMeta p) = False"
| "ending h (OnSources p) = False"
| "ending h (OnArtifact a) = False"
| "ending h (OnCitations p) = False"
| "ending h (OnError e) = True"
| "ending h (OnDone p) = True"

text \<open>The handler calls that the parser makes while it reads the chunks of the items.\<close>

definition calls_of :: "host \<Rightarrow> 'd decoder \<Rightarrow> stream_item list \<Rightarrow> sse_call list" where
  "calls_of h D items =
     fst (read_loop h (dec_step D) \<lparr>dec = dec_init D, buf = [], frame = frame_init\<rparr> (chunks_of items))"

text \<open>
  An accepted event-stream response that delivers the items and whose reader then fails
  with an error that is not an abort.
\<close>

definition failing_response :: "stream_item list \<Rightarrow> jstring \<Rightarrow> fetch_result" where
  "failing_response items msg =
     Response \<lparr>resp_ok = True, resp_status = 200, resp_text = [], resp_reader = True,
               resp_event_stream = True, resp_items = items, resp_end = ReadFails msg\<rparr>"

text \<open>
  The same for a response that is not an event stream, and the text that the decoder
  makes of the chunks among its items.
\<close>

definition failing_plain_response :: "stream_item list \<Rightarrow> jstring \<Rightarrow> fetch_result" where
  "failing_plain_response items msg =
     Response \<lparr>resp_ok = True, resp_status = 200, resp_text = [], resp_reader = True,
               resp_event_stream = False, resp_items = items, resp_end = ReadFails msg\<rparr>"

fun plain_text :: "('d \<Rightarrow> 8 word \<Rightarrow> 'd \<times> jstring) \<Rightarrow> 'd \<Rightarrow> stream_item list \<Rightarrow> jstring" where
  "plain_text step d [] = []"
| "plain_text step d (Chunk c # xs) = (let (d1, t) = decode step d c in t @ plain_text step d1 xs)"
| "plain_text step d (RafFires # xs) = plain_text step d xs"
| "plain_text step d (WatchdogFires # xs) = plain_text step d xs"
| "plain_text step d (UserStops # xs) = plain_text step d xs"

text \<open>The program before the first send: no conversation, no session.\<close>

definition idle :: state where
  "idle = \<lparr>conversations = Map.empty, streamingMsg = None, streamBuffer = [],
           streamFlushRaf = False, view = Missing, watchdogTimer = False,
           watchdogFallback = False, emptyStreamDone = False, effects = []\<rparr>"

text \<open>A session armed on the first exchange of conversation \<open>c1\<close>.\<close>

definition armed :: state where
  "armed = snd (begin_send (js ''c1'') (js ''u1'') (js ''a1'') (js ''hi'') True False idle)"

section \<open>Properties of the frame parser\<close>

lemma decode_append:
  "decode step d (xs @ ys) =
     (let (d1, o1) = decode step d xs; (d2, o2) = decode step d1 ys in (d2, o1 @ o2))"
  by (induction xs arbitrary: d) (auto split: prod.splits)

lemma indexOf_append_Some: "indexOf b c = Some i \<Longrightarrow> indexOf (b @ t) c = Some i"
  by (auto simp: indexOf_def takeWhile_append1 split: if_splits)

lemma drain_append:
  "drain h (b @ t) st =
     (let (c1, b1, st1) = drain h b st; (c2, b2, st2) = drain h (b1 @ t) st1
      in (c1 @ c2, b2, st2))"
proof (induction h b st rule: drain.induct)
  case (1 h b st)
  show ?case
  proof (cases "indexOf b 0x0A")
    case None
    then show ?thesis by (simp add: drain.simps[of h b] split: prod.splits)
  next
    case (Some idx)
    then have lt: "idx < length b" by (rule indexOf_less)
    have app: "indexOf (b @ t) 0x0A = Some idx" using Some by (rule indexOf_append_Some)
    obtain calls1 st1 where ol: "on_line h (if endsWith (take idx b) [0x0D] then butlast (take idx b) else take idx b) st = (calls1, st1)"
      by fastforce
    have IH: "drain h (drop (idx + 1) b @ t) st1 =
     (let (c1, b1, st1') = drain h (drop (idx + 1) b) st1; (c2, b2, st2) = drain h (b1 @ t) st1'
      in (c1 @ c2, b2, st2))"
      using 1[OF Some refl refl refl ol[symmetric]] by simp
    have L: "drain h (b @ t) st = (let (calls2, b2, st2) = drain h (drop (idx + 1) b @ t) st1 in (calls1 @ calls2, b2, st2))"
      using lt ol app by (subst drain.simps) (simp add: Let_def)
    have R: "drain h b st = (let (calls2, b2, st2) = drain h (drop (idx + 1) b) st1 in (calls1 @ calls2, b2, st2))"
      using ol Some by (subst drain.simps) (simp add: Let_def)
    show ?thesis
      unfolding L R IH by (simp add: Let_def split: prod.splits)
  qed
qed

lemma drain_no_newline: "drain h b st = (c, b', st') \<Longrightarrow> indexOf b' 0x0A = None"
proof (induction h b st arbitrary: c b' st' rule: drain.induct)
  case (1 h b st)
  show ?case
  proof (cases "indexOf b 0x0A")
    case None
    with 1(2) show ?thesis by (simp add: drain.simps[of h b])
  next
    case (Some idx)
    obtain calls1 st1 where ol: "on_line h (if endsWith (take idx b) [0x0D] then butlast (take idx b) else take idx b) st = (calls1, st1)"
      by fastforce
    obtain c2 b2 st2 where dr: "drain h (drop (idx + 1) b) st1 = (c2, b2, st2)"
      by (metis prod_cases3)
    have "drain h b st = (calls1 @ c2, b2, st2)"
      using Some ol dr by (subst drain.simps) (simp add: Let_def)
    with 1(2) have "b' = b2" by simp
    with 1(1)[OF Some refl refl refl refl ol[symmetric] dr] show ?thesis by simp
  qed
qed

lemma drain_idle: "indexOf b 0x0A = None \<Longrightarrow> drain h b st = ([], b, st)"
  by (simp add: drain.simps[of h b])

lemma on_chunk_append:
  "read_loop h step r [x @ y] = read_loop h step r [x, y]"
proof -
  obtain d1 t1 where dx: "decode step (dec r) x = (d1, t1)" by fastforce
  obtain d2 t2 where dy: "decode step d1 y = (d2, t2)" by fastforce
  obtain c1 b1 st1 where d1: "drain h (buf r @ t1) (frame r) = (c1, b1, st1)"
    by (metis prod_cases3)
  obtain c2 b2 st2 where d2: "drain h (b1 @ t2) st1 = (c2, b2, st2)"
    by (metis prod_cases3)
  have dxy: "decode step (dec r) (x @ y) = (d2, t1 @ t2)"
    using dx dy by (simp add: decode_append)
  have "drain h ((buf r @ t1) @ t2) (frame r) = (c1 @ c2, b2, st2)"
    using d1 d2 by (simp only: drain_append[of h "buf r @ t1" t2] Let_def prod.case)
  then have "on_chunk h step r (x @ y) = (c1 @ c2, \<lparr>dec = d2, buf = b2, frame = st2\<rparr>)"
    using dxy by (simp add: on_chunk_def)
  moreover have "on_chunk h step r x = (c1, \<lparr>dec = d1, buf = b1, frame = st1\<rparr>)"
    using dx d1 by (simp add: on_chunk_def)
  moreover have "on_chunk h step \<lparr>dec = d1, buf = b1, frame = st1\<rparr> y = (c2, \<lparr>dec = d2, buf = b2, frame = st2\<rparr>)"
    using dy d2 by (simp add: on_chunk_def)
  ultimately show ?thesis by simp
qed

lemma on_chunk_no_newline: "on_chunk h step r c = (calls, r') \<Longrightarrow> indexOf (buf r') 0x0A = None"
  by (auto simp: on_chunk_def Let_def split: prod.splits dest: drain_no_newline)

lemma read_loop_concat:
  "indexOf (buf r) 0x0A = None \<Longrightarrow> read_loop h step r cs = read_loop h step r [concat cs]"
proof (induction cs arbitrary: r)
  case Nil
  then show ?case by (simp add: on_chunk_def drain_idle)
next
  case (Cons c cs)
  obtain calls1 r1 where oc: "on_chunk h step r c = (calls1, r1)" by fastforce
  then have nn: "indexOf (buf r1) 0x0A = None" by (rule on_chunk_no_newline)
  have "read_loop h step r (c # cs) = (let (c2, r2) = read_loop h step r1 cs in (calls1 @ c2, r2))"
    using oc by simp
  also have "\<dots> = (let (c2, r2) = read_loop h step r1 [concat cs] in (calls1 @ c2, r2))"
    using Cons.IH[OF nn] by simp
  also have "\<dots> = read_loop h step r [c, concat cs]"
    using oc by (simp split: prod.splits)
  also have "\<dots> = read_loop h step r [c @ concat cs]"
    by (rule on_chunk_append[symmetric])
  finally show ?case by simp
qed

lemma split_inv0: "readSseStream h step d0 chunks = readSseStream h step d0 [concat chunks]"
  unfolding readSseStream_def
  by (subst read_loop_concat) (simp_all add: indexOf_def)

lemma trimEnd_decomp: "trimEnd t = x \<Longrightarrow> \<exists>w. t = x @ w \<and> (\<forall>c\<in>set w. is_ws c)"
proof -
  assume a: "trimEnd t = x"
  have "rev t = takeWhile is_ws (rev t) @ dropWhile is_ws (rev t)" by simp
  then have "t = rev (dropWhile is_ws (rev t)) @ rev (takeWhile is_ws (rev t))"
    by (metis rev_append rev_rev_ident)
  then have "t = x @ rev (takeWhile is_ws (rev t))" using a by (simp add: trimEnd_def)
  moreover have "\<forall>c\<in>set (rev (takeWhile is_ws (rev t))). is_ws c"
    by (auto dest: set_takeWhileD)
  ultimately show ?thesis by blast
qed


lemma split_not_sentinel:
  assumes "splitLeadingJson raw = Some (j, rest)" and "trimStart rest \<noteq> []"
  shows "trim raw \<noteq> js ''[DONE]''"
proof
  assume d: "trim raw = js ''[DONE]''"
  then obtain w where t: "dropWhile is_ws raw = js ''[DONE]'' @ w" and w: "\<forall>c\<in>set w. is_ws c"
    using trimEnd_decomp[of "trimStart raw" "js ''[DONE]''"] by (auto simp: trim_def trimStart_def)
  have "scanJson 0 False False (js ''[DONE]'' @ w) = Some 6"
    by (simp add: js_def)
  with assms(1) t have "rest = w"
    by (simp add: splitLeadingJson_def js_def)
  with w assms(2) show False by (simp add: trimStart_def)
qed






text \<open>
  Claim C9. A frame whose joined data lines trim to \<open>[DONE]\<close> calls \<open>onDone\<close> and sets
  \<open>sawTerminal\<close>, whatever the \<open>event:\<close> name of the frame and whatever \<open>JSON.parse\<close>
  would say: the test comes first.
\<close>

theorem sentinel_before_dispatch:
  assumes "dataLines st \<noteq> []"
    and "trim (join [0x0A] (dataLines st)) = js ''[DONE]''"
  shows "emit h st = ([OnDone None], \<lparr>event = js ''message'', dataLines = [], sawTerminal = True\<rparr>)"
  using assms by (simp add: emit_def Let_def)

theorem sentinel_before_dispatch_witness:
  "\<forall>h. emit h \<lparr>event = js ''error'', dataLines = [js ''[DONE] ''], sawTerminal = False\<rparr>
        = ([OnDone None], \<lparr>event = js ''message'', dataLines = [], sawTerminal = True\<rparr>)"
proof
  fix h
  have 1: "dataLines \<lparr>event = js ''error'', dataLines = [js ''[DONE] ''], sawTerminal = False\<rparr> \<noteq> []"
    by simp
  have 2: "trim (join [0x0A] (dataLines \<lparr>event = js ''error'', dataLines = [js ''[DONE] ''], sawTerminal = False\<rparr>)) = js ''[DONE]''"
    by (simp add: trim_def trimStart_def trimEnd_def js_def is_ws_def)
  show "emit h \<lparr>event = js ''error'', dataLines = [js ''[DONE] ''], sawTerminal = False\<rparr>
        = ([OnDone None], \<lparr>event = js ''message'', dataLines = [], sawTerminal = True\<rparr>)"
    by (rule sentinel_before_dispatch[OF 1 2])
qed

lemma no_leading_ws_trimStart: "no_leading_ws (trimStart s)"
  by (induction s) (auto simp: no_leading_ws_def trimStart_def split: list.splits)

lemma startsWith_data_not_event: "startsWith line (js ''data:'') \<Longrightarrow> \<not> startsWith line (js ''event:'') \<and> line \<noteq> []"
  by (cases line) (auto simp: startsWith_def js_def)

lemma on_line_data:
  "startsWith line (js ''data:'') \<Longrightarrow>
   on_line h line st = ([], st\<lparr>dataLines := dataLines st @ [trimStart (drop 5 line)]\<rparr>)"
  using startsWith_data_not_event[of line] by (simp add: on_line_def)

lemma emit_lines: "dataLines (snd (emit h st)) = [] \<or> snd (emit h st) = st"
  by (simp add: emit_def Let_def split: prod.splits)

lemma on_line_clean:
  assumes "list_all no_leading_ws (dataLines st)"
  shows "list_all no_leading_ws (dataLines (snd (on_line h line st)))"
proof (cases "line = []")
  case True
  then show ?thesis using emit_lines[of h st] assms by (auto simp: on_line_def)
next
  case False
  then show ?thesis using assms by (simp add: on_line_def no_leading_ws_trimStart)
qed

lemma drain_clean:
  "list_all no_leading_ws (dataLines st) \<Longrightarrow>
   list_all no_leading_ws (dataLines (snd (snd (drain h b st))))"
proof (induction h b st rule: drain.induct)
  case (1 h b st)
  show ?case
  proof (cases "indexOf b 0x0A")
    case None
    then show ?thesis using 1(2) by (simp add: drain.simps[of h b])
  next
    case (Some idx)
    let ?line = "if endsWith (take idx b) [0x0D] then butlast (take idx b) else take idx b"
    obtain calls1 st1 where ol: "on_line h ?line st = (calls1, st1)" by fastforce
    have c1: "list_all no_leading_ws (dataLines st1)"
      using on_line_clean[OF 1(2), of h ?line] ol by simp
    have "snd (snd (drain h b st)) = snd (snd (drain h (drop (idx + 1) b) st1))"
      using Some ol by (subst drain.simps) (simp add: Let_def split: prod.splits)
    with 1(1)[OF Some refl refl refl refl ol[symmetric] c1] show ?thesis by simp
  qed
qed

lemma read_loop_clean:
  "list_all no_leading_ws (dataLines (frame r)) \<Longrightarrow>
   list_all no_leading_ws (dataLines (frame (snd (read_loop h step r chunks))))"
proof (induction chunks arbitrary: r)
  case Nil
  then show ?case by simp
next
  case (Cons c cs)
  obtain calls1 r1 where oc: "on_chunk h step r c = (calls1, r1)" by fastforce
  obtain d1 t1 where dx: "decode step (dec r) c = (d1, t1)" by fastforce
  have "frame r1 = snd (snd (drain h (buf r @ t1) (frame r)))"
    using oc dx by (auto simp: on_chunk_def split: prod.splits)
  then have "list_all no_leading_ws (dataLines (frame r1))"
    using drain_clean[OF Cons.prems] by simp
  from Cons.IH[OF this] show ?case using oc by (auto split: prod.splits)
qed

text \<open>
  Claim C10. A \<open>data:\<close> line contributes the text after the colon with all its leading
  white space removed, so no collected payload line starts with white space: not in the
  line just read, and not in any state the reader reaches from its start.
\<close>

theorem data_lines_are_trimmed:
  "(startsWith line (js ''data:'') \<longrightarrow>
      on_line h line st = ([], st\<lparr>dataLines := dataLines st @ [trimStart (drop 5 line)]\<rparr>)
      \<and> no_leading_ws (trimStart (drop 5 line)))
   \<and> (\<forall>l \<in> set (dataLines (frame (snd (read_loop h step \<lparr>dec = d0, buf = [], frame = frame_init\<rparr> chunks)))).
        no_leading_ws l)"
proof -
  have "list_all no_leading_ws (dataLines (frame \<lparr>dec = d0, buf = [], frame = frame_init\<rparr>))"
    by (simp add: frame_init_def)
  from read_loop_clean[OF this, of h step chunks] show ?thesis
    by (auto simp: on_line_data no_leading_ws_trimStart list_all_iff)
qed

theorem data_lines_are_trimmed_witness:
  "\<forall>h. startsWith (js ''data:    indented'') (js ''data:'')
     \<and> on_line h (js ''data:    indented'') frame_init = ([], frame_init\<lparr>dataLines := [js ''indented'']\<rparr>)
     \<and> dataLines (frame (snd (read_loop h utf8_step \<lparr>dec = utf8_init, buf = [], frame = frame_init\<rparr>
          [bytes ''data:  x'' @ [0x0A], bytes ''data:'' @ [0x09] @ bytes ''y'' @ [0x0A]])))
         = [js ''x'', js ''y'']"
proof
  fix h
  have sw: "startsWith (js ''data:    indented'') (js ''data:'')"
    by (simp add: startsWith_def js_def)
  have ts: "trimStart (drop 5 (js ''data:    indented'')) = js ''indented''"
    by (simp add: trimStart_def js_def is_ws_def)
  have rl: "dataLines (frame (snd (read_loop h utf8_step \<lparr>dec = utf8_init, buf = [], frame = frame_init\<rparr>
          [bytes ''data:  x'' @ [0x0A], bytes ''data:'' @ [0x09] @ bytes ''y'' @ [0x0A]])))
         = [js ''x'', js ''y'']"
    by (simp add: on_chunk_def bytes_def js_def utf8_step_def utf8_init_def utf8_lead_def utf8_out_def
        utf16_def drain.simps indexOf_def on_line_def startsWith_def endsWith_def frame_init_def
        trimStart_def is_ws_def)
  show "startsWith (js ''data:    indented'') (js ''data:'')
     \<and> on_line h (js ''data:    indented'') frame_init = ([], frame_init\<lparr>dataLines := [js ''indented'']\<rparr>)
     \<and> dataLines (frame (snd (read_loop h utf8_step \<lparr>dec = utf8_init, buf = [], frame = frame_init\<rparr>
          [bytes ''data:  x'' @ [0x0A], bytes ''data:'' @ [0x09] @ bytes ''y'' @ [0x0A]])))
         = [js ''x'', js ''y'']"
    using data_lines_are_trimmed[of "js ''data:    indented''" h frame_init utf8_step utf8_init
        "[bytes ''data:  x'' @ [0x0A], bytes ''data:'' @ [0x09] @ bytes ''y'' @ [0x0A]]"] sw ts rl
    by (simp add: frame_init_def)
qed


lemmas run_simps = readSseStream_def on_chunk_def bytes_def js_def utf8_step_def utf8_init_def
  utf8_lead_def utf8_out_def utf16_def utf8_reset_def drain.simps indexOf_def on_line_def
  startsWith_def endsWith_def frame_init_def trimStart_def trimEnd_def trim_def is_ws_def
  emit_def Let_def

lemma cafe_read:
  "read_loop h utf8_step \<lparr>dec = utf8_init, buf = [], frame = frame_init\<rparr>
     [bytes ''data: caf'' @ [0xC3], [0xA9, 0x0A]]
   = ([], \<lparr>dec = utf8_init\<lparr>bom_seen := True\<rparr>, buf = [],
           frame = frame_init\<lparr>dataLines := [js ''caf'' @ [0xE9]]\<rparr>\<rparr>)"
  by (simp add: run_simps)

lemma cafe_emit:
  "emit example_host (frame_init\<lparr>dataLines := [js ''caf'' @ [0xE9]]\<rparr>)
   = ([OnDelta (js ''caf'' @ [0xE9])], frame_init)"
  apply (simp add: emit_def frame_init_def js_def trim_def trimStart_def trimEnd_def is_ws_def)
  apply (simp add: splitLeadingJson_def is_ws_def safeJsonParse_def example_host_def js_def)
  apply (simp add: eventName_def deltaText_def trim_def trimStart_def trimEnd_def is_ws_def js_def
      is_object_def)
  done

text \<open>
  Claim C3. The handler calls of \<open>readSseStream\<close>, and the flag it returns, are the same
  for a stream delivered in any number of chunks as for the same bytes delivered in one
  chunk, whatever the decoder and wherever the boundaries fall: inside a line, inside a
  frame, inside a UTF-8 sequence. Three runs with the UTF-8 decoder show the buffering: a
  frame cut twice inside its line and not closed by a blank line is still emitted by the
  last \<open>emit()\<close> at the end of the stream; a chunk boundary inside the two bytes of
  U+00E9 leaves the delta intact; and the last \<open>emit()\<close> only covers the data lines read so
  far, so a last line without its newline stays in \<open>buf\<close> and is never parsed.
\<close>

theorem chunk_boundaries_do_not_matter:
  "readSseStream h step d0 chunks = readSseStream h step d0 [concat chunks]
   \<and> readSseStream h utf8_step utf8_init [bytes ''da'', bytes ''ta: [DO'', bytes ''NE]'' @ [0x0A]]
       = ([OnDone None], True)
   \<and> readSseStream example_host utf8_step utf8_init [bytes ''data: caf'' @ [0xC3], [0xA9, 0x0A]]
       = ([OnDelta (js ''caf'' @ [0xE9])], False)
   \<and> readSseStream h utf8_step utf8_init [bytes ''data: [DONE]''] = ([], False)"
proof -
  have 1: "readSseStream h step d0 chunks = readSseStream h step d0 [concat chunks]"
    unfolding readSseStream_def
    by (subst read_loop_concat) (simp_all add: indexOf_def)
  have 2: "readSseStream h utf8_step utf8_init [bytes ''da'', bytes ''ta: [DO'', bytes ''NE]'' @ [0x0A]]
       = ([OnDone None], True)"
    by (simp add: run_simps)
  have 3: "readSseStream example_host utf8_step utf8_init [bytes ''data: caf'' @ [0xC3], [0xA9, 0x0A]]
       = ([OnDelta (js ''caf'' @ [0xE9])], False)"
    unfolding readSseStream_def cafe_read
    by (simp add: cafe_emit) (simp add: frame_init_def)
  have 4: "readSseStream h utf8_step utf8_init [bytes ''data: [DONE]''] = ([], False)"
    by (simp add: run_simps)
  from 1 2 3 4 show ?thesis by simp
qed

section \<open>The leading JSON text of a payload\<close>














section \<open>Properties of the delta buffer and of finalization\<close>

lemma ensure_None [simp]: "streamingMsg s = None \<Longrightarrow> ensureStreamingBind s = s"
  by (simp add: ensureStreamingBind_def)

lemma ensure_keeps:
  "conversations (ensureStreamingBind s) = conversations s"
  "streamBuffer (ensureStreamingBind s) = streamBuffer s"
  "streamFlushRaf (ensureStreamingBind s) = streamFlushRaf s"
  "effects (ensureStreamingBind s) = effects s"
  "watchdogFallback (ensureStreamingBind s) = watchdogFallback s"
  "emptyStreamDone (ensureStreamingBind s) = emptyStreamDone s"
  "watchdogTimer (ensureStreamingBind s) = watchdogTimer s"
  by (simp_all add: ensureStreamingBind_def Let_def split: option.splits)

lemma ensure_live:
  "streamingMsg s = Some sm \<Longrightarrow>
   \<exists>sm'. streamingMsg (ensureStreamingBind s) = Some sm' \<and> convId sm' = convId sm \<and> msgId sm' = msgId sm
      \<and> (hasFirstChunk sm \<longrightarrow> hasFirstChunk sm')"
  by (simp add: ensureStreamingBind_def Let_def)

lemma find_update_first:
  "(\<And>m. msg_id (f m) = msg_id m) \<Longrightarrow>
   find (\<lambda>m. msg_id m = mid) (update_first mid f ms) = map_option f (find (\<lambda>m. msg_id m = mid) ms)"
  by (induction ms) auto

lemma find_update_first_other:
  "(\<And>m. msg_id (f m) = msg_id m) \<Longrightarrow> mid' \<noteq> mid \<Longrightarrow>
   find (\<lambda>m. msg_id m = mid') (update_first mid f ms) = find (\<lambda>m. msg_id m = mid') ms"
  by (induction ms) auto

lemma find_message_update:
  "(\<And>m. msg_id (f m) = msg_id m) \<Longrightarrow>
   find_message (update_message cid mid f s) cid mid = map_option f (find_message s cid mid)"
  by (simp add: find_message_def update_message_def find_update_first split: option.splits)

lemma find_message_ensure [simp]: "find_message (ensureStreamingBind s) cid mid = find_message s cid mid"
  by (simp add: find_message_def ensure_keeps)

lemma find_message_upd [simp]:
  "find_message (s\<lparr>streamingMsg := a\<rparr>) cid mid = find_message s cid mid"
  "find_message (s\<lparr>streamBuffer := b\<rparr>) cid mid = find_message s cid mid"
  "find_message (s\<lparr>streamFlushRaf := c\<rparr>) cid mid = find_message s cid mid"
  "find_message (s\<lparr>view := d\<rparr>) cid mid = find_message s cid mid"
  "find_message (s\<lparr>watchdogTimer := e\<rparr>) cid mid = find_message s cid mid"
  "find_message (s\<lparr>watchdogFallback := f\<rparr>) cid mid = find_message s cid mid"
  "find_message (s\<lparr>emptyStreamDone := g\<rparr>) cid mid = find_message s cid mid"
  "find_message (s\<lparr>effects := i\<rparr>) cid mid = find_message s cid mid"
  by (simp_all add: find_message_def)

lemma content_of_upd [simp]:
  "content_of (s\<lparr>streamingMsg := a\<rparr>) cid mid = content_of s cid mid"
  "content_of (s\<lparr>streamBuffer := b\<rparr>) cid mid = content_of s cid mid"
  "content_of (s\<lparr>streamFlushRaf := c\<rparr>) cid mid = content_of s cid mid"
  "content_of (s\<lparr>view := d\<rparr>) cid mid = content_of s cid mid"
  "content_of (s\<lparr>watchdogTimer := e\<rparr>) cid mid = content_of s cid mid"
  "content_of (s\<lparr>watchdogFallback := f\<rparr>) cid mid = content_of s cid mid"
  "content_of (s\<lparr>emptyStreamDone := g\<rparr>) cid mid = content_of s cid mid"
  "content_of (s\<lparr>effects := i\<rparr>) cid mid = content_of s cid mid"
  by (simp_all add: content_of_def)

lemma find_message_cong: "conversations s' = conversations s \<Longrightarrow> find_message s' cid mid = find_message s cid mid"
  by (simp add: find_message_def)

lemma update_message_fields:
  "streamingMsg (update_message cid mid f s) = streamingMsg s"
  "streamBuffer (update_message cid mid f s) = streamBuffer s"
  "streamFlushRaf (update_message cid mid f s) = streamFlushRaf s"
  "effects (update_message cid mid f s) = effects s"
  "view (update_message cid mid f s) = view s"
  "watchdogFallback (update_message cid mid f s) = watchdogFallback s"
  "emptyStreamDone (update_message cid mid f s) = emptyStreamDone s"
  "watchdogTimer (update_message cid mid f s) = watchdogTimer s"
  by (simp_all add: update_message_def split: option.splits)

text \<open>The text on its way to the message: what it holds plus what the buffer holds.\<close>

lemma streamAppend_live:
  assumes "streamingMsg s = Some sm"
  shows "\<exists>sm'. streamingMsg (streamAppend t s) = Some sm' \<and> convId sm' = convId sm \<and> msgId sm' = msgId sm \<and> hasFirstChunk sm'"
    and "streamBuffer (streamAppend t s) = streamBuffer s @ t"
    and "conversations (streamAppend t s) = conversations s"
proof -
  obtain sm1 where 1: "streamingMsg (ensureStreamingBind s) = Some sm1" "convId sm1 = convId sm" "msgId sm1 = msgId sm"
    using ensure_live[OF assms] by blast
  show "\<exists>sm'. streamingMsg (streamAppend t s) = Some sm' \<and> convId sm' = convId sm \<and> msgId sm' = msgId sm \<and> hasFirstChunk sm'"
    using 1 by (simp add: streamAppend_def Let_def)
  show "streamBuffer (streamAppend t s) = streamBuffer s @ t"
    using 1 by (simp add: streamAppend_def Let_def ensure_keeps)
  show "conversations (streamAppend t s) = conversations s"
    using 1 by (simp add: streamAppend_def Let_def ensure_keeps)
qed

lemma rafCallback_live:
  assumes "streamingMsg s = Some sm" and "find_message s (convId sm) (msgId sm) = Some m"
  shows "streamingMsg (rafCallback s) = Some sm"
    and "\<exists>m'. find_message (rafCallback s) (convId sm) (msgId sm) = Some m' \<and>
          content m' @ streamBuffer (rafCallback s) = content m @ streamBuffer s \<and>
          interrupted m' = interrupted m"
  using assms
  by (auto simp: rafCallback_def Let_def update_message_fields find_message_update)

lemma flush_live:
  assumes "streamingMsg s = Some sm" and "find_message s (convId sm) (msgId sm) = Some m"
  shows "\<exists>sm'. streamingMsg (flushStreamNow s) = Some sm' \<and> convId sm' = convId sm \<and> msgId sm' = msgId sm"
    and "\<exists>m'. find_message (flushStreamNow s) (convId sm) (msgId sm) = Some m' \<and>
          content m' = content m @ streamBuffer s \<and> interrupted m' = interrupted m"
    and "streamBuffer (flushStreamNow s) = []"
    and "effects (flushStreamNow s) = effects s"
proof -
  obtain sm1 where 1: "streamingMsg (ensureStreamingBind s) = Some sm1" "convId sm1 = convId sm" "msgId sm1 = msgId sm"
    using ensure_live[OF assms(1)] by blast
  have fm: "find_message ((ensureStreamingBind s)\<lparr>streamFlushRaf := False\<rparr>) (convId sm) (msgId sm) = Some m"
    using assms(2) by (simp add: find_message_def ensure_keeps)
  show "\<exists>sm'. streamingMsg (flushStreamNow s) = Some sm' \<and> convId sm' = convId sm \<and> msgId sm' = msgId sm"
    using 1 by (simp add: flushStreamNow_def Let_def update_message_fields)
  show "\<exists>m'. find_message (flushStreamNow s) (convId sm) (msgId sm) = Some m' \<and>
          content m' = content m @ streamBuffer s \<and> interrupted m' = interrupted m"
    using 1 fm assms(2)
    by (auto simp: flushStreamNow_def Let_def ensure_keeps find_message_update)
  show "streamBuffer (flushStreamNow s) = []"
    using 1 by (simp add: flushStreamNow_def Let_def ensure_keeps)
  show "effects (flushStreamNow s) = effects s"
    using 1 by (simp add: flushStreamNow_def Let_def ensure_keeps update_message_fields)
qed


lemma run_ops_live:
  assumes "streamingMsg s = Some sm" and "convId sm = cid" and "msgId sm = mid"
    and "find_message s cid mid = Some m"
  shows "\<exists>sm' m'. streamingMsg (run_ops ops s) = Some sm' \<and> convId sm' = cid \<and> msgId sm' = mid \<and>
           find_message (run_ops ops s) cid mid = Some m' \<and>
           content m' @ streamBuffer (run_ops ops s) = content m @ streamBuffer s @ appended ops \<and>
           interrupted m' = interrupted m \<and>
           (hasFirstChunk sm \<longrightarrow> hasFirstChunk sm')"
  using assms
proof (induction ops arbitrary: s sm m)
  case Nil
  then show ?case by simp
next
  case (Cons op ops)
  show ?case
  proof (cases op)
    case (Append t)
    obtain sm1 where 1: "streamingMsg (streamAppend t s) = Some sm1" "convId sm1 = cid" "msgId sm1 = mid" "hasFirstChunk sm1"
      using streamAppend_live(1)[OF Cons.prems(1), of t] Cons.prems(2,3) by auto
    have 2: "find_message (streamAppend t s) cid mid = Some m"
      using Cons.prems(4) streamAppend_live(3)[OF Cons.prems(1), of t] by (simp add: find_message_def)
    have 3: "streamBuffer (streamAppend t s) = streamBuffer s @ t"
      using streamAppend_live(2)[OF Cons.prems(1)] .
    from Cons.IH[OF 1(1,2,3) 2] show ?thesis using Append 3 1(4) by auto
  next
    case Frame
    have 1: "streamingMsg (rafCallback s) = Some sm"
      using rafCallback_live(1)[OF Cons.prems(1)] Cons.prems by simp
    obtain m1 where 2: "find_message (rafCallback s) cid mid = Some m1"
      "content m1 @ streamBuffer (rafCallback s) = content m @ streamBuffer s"
      "interrupted m1 = interrupted m"
      using rafCallback_live(2)[OF Cons.prems(1)] Cons.prems by auto
    from Cons.IH[OF 1 Cons.prems(2,3) 2(1)] show ?thesis using Frame 2(2,3)
      by (metis append.assoc run_ops.simps(3) appended.simps(3))
  qed
qed


lemma content_of_Some: "find_message s cid mid = Some m \<Longrightarrow> content_of s cid mid = content m"
  by (simp add: content_of_def)

lemma finalize_live:
  assumes "streamingMsg s = Some sm" and "find_message s (convId sm) (msgId sm) = Some m"
  shows "streamingMsg (finalizeStreaming h ok e a s) = None"
    and "streamBuffer (finalizeStreaming h ok e a s) = []"
    and "effects (finalizeStreaming h ok e a s) =
           effects s @ [Persist] @ (if ok then [AutoTitle (convId sm)] else [])"
    and "\<exists>m'. find_message (finalizeStreaming h ok e a s) (convId sm) (msgId sm) = Some m' \<and>
           content m' =
             (if ok then content m @ streamBuffer s
              else (case or_else h e (Some (JStr (js ''Falha ao gerar resposta.''))) of
                      Some v \<Rightarrow> String_of h v | None \<Rightarrow> [])) \<and>
           interrupted m' = interrupted m"
proof -
  obtain sm1 where 1: "streamingMsg (flushStreamNow s) = Some sm1" "convId sm1 = convId sm" "msgId sm1 = msgId sm"
    using flush_live(1)[OF assms] by blast
  obtain m1 where 2: "find_message (flushStreamNow s) (convId sm) (msgId sm) = Some m1"
    "content m1 = content m @ streamBuffer s" "interrupted m1 = interrupted m"
    using flush_live(2)[OF assms] by blast
  note 3 = flush_live(3,4)[OF assms]
  show "streamingMsg (finalizeStreaming h ok e a s) = None"
    using assms(1) 1 2 by (simp add: finalizeStreaming_def Let_def)
  show "streamBuffer (finalizeStreaming h ok e a s) = []"
    using assms(1) 1 2 3 by (simp add: finalizeStreaming_def Let_def update_message_fields)
  show "effects (finalizeStreaming h ok e a s) =
           effects s @ [Persist] @ (if ok then [AutoTitle (convId sm)] else [])"
    using assms(1) 1 2 3 by (simp add: finalizeStreaming_def Let_def update_message_fields)
  show "\<exists>m'. find_message (finalizeStreaming h ok e a s) (convId sm) (msgId sm) = Some m' \<and>
           content m' =
             (if ok then content m @ streamBuffer s
              else (case or_else h e (Some (JStr (js ''Falha ao gerar resposta.''))) of
                      Some v \<Rightarrow> String_of h v | None \<Rightarrow> [])) \<and>
           interrupted m' = interrupted m"
    using assms(1) 1 2 by (simp add: finalizeStreaming_def Let_def find_message_update)
qed

lemma interrupted_live:
  assumes "streamingMsg s = Some sm" and "find_message s (convId sm) (msgId sm) = Some m"
  shows "streamingMsg (finalizeStreamingInterrupted s) = None"
    and "streamBuffer (finalizeStreamingInterrupted s) = []"
    and "effects (finalizeStreamingInterrupted s) = effects s @ [Persist]"
    and "\<exists>m'. find_message (finalizeStreamingInterrupted s) (convId sm) (msgId sm) = Some m' \<and>
           content m' =
             (if trim (content m @ streamBuffer s) = [] then interrupted_placeholder
              else content m @ streamBuffer s) \<and>
           interrupted m'"
proof -
  obtain sm1 where 1: "streamingMsg (flushStreamNow s) = Some sm1" "convId sm1 = convId sm" "msgId sm1 = msgId sm"
    using flush_live(1)[OF assms] by blast
  obtain m1 where 2: "find_message (flushStreamNow s) (convId sm) (msgId sm) = Some m1"
    "content m1 = content m @ streamBuffer s" "interrupted m1 = interrupted m"
    using flush_live(2)[OF assms] by blast
  note 3 = flush_live(3,4)[OF assms]
  show "streamingMsg (finalizeStreamingInterrupted s) = None"
    using assms(1) 1 2 by (simp add: finalizeStreamingInterrupted_def Let_def)
  show "streamBuffer (finalizeStreamingInterrupted s) = []"
    using assms(1) 1 2 3 by (simp add: finalizeStreamingInterrupted_def Let_def update_message_fields)
  show "effects (finalizeStreamingInterrupted s) = effects s @ [Persist]"
    using assms(1) 1 2 3 by (simp add: finalizeStreamingInterrupted_def Let_def update_message_fields)
  show "\<exists>m'. find_message (finalizeStreamingInterrupted s) (convId sm) (msgId sm) = Some m' \<and>
           content m' =
             (if trim (content m @ streamBuffer s) = [] then interrupted_placeholder
              else content m @ streamBuffer s) \<and>
           interrupted m'"
    using assms(1) 1 2 by (simp add: finalizeStreamingInterrupted_def Let_def find_message_update)
qed

text \<open>
  Claim C2. On a live session whose message exists, after any sequence of appended
  deltas (with or without animation frames in between) one \<open>flushStreamNow\<close> leaves the
  message with its earlier content, the text that was pending, and all appended texts in
  order, and leaves the buffer empty. Every finalization flushes first: after
  \<open>finalizeStreaming\<close> with \<open>ok\<close> the content is that same text, after
  \<open>finalizeStreamingInterrupted\<close> it is that text or the placeholder when the text is
  blank, and after any of them (also the error outcome, which then replaces the content by
  the error text) nothing is left in the buffer.
\<close>

theorem no_loss_flush:
  assumes "streamingMsg s = Some sm" and "find_message s (convId sm) (msgId sm) = Some m"
  shows "content_of (flushStreamNow (run_ops ops s)) (convId sm) (msgId sm)
           = content m @ streamBuffer s @ appended ops
       \<and> streamBuffer (flushStreamNow (run_ops ops s)) = []
       \<and> content_of (finalizeStreaming h True e a (run_ops ops s)) (convId sm) (msgId sm)
           = content m @ streamBuffer s @ appended ops
       \<and> content_of (finalizeStreamingInterrupted (run_ops ops s)) (convId sm) (msgId sm)
           = (if trim (content m @ streamBuffer s @ appended ops) = [] then interrupted_placeholder
              else content m @ streamBuffer s @ appended ops)
       \<and> streamBuffer (finalizeStreaming h ok e a (run_ops ops s)) = []
       \<and> streamBuffer (finalizeStreamingInterrupted (run_ops ops s)) = []"
proof -
  obtain sm1 m1 where 1: "streamingMsg (run_ops ops s) = Some sm1" "convId sm1 = convId sm"
    "msgId sm1 = msgId sm" "find_message (run_ops ops s) (convId sm) (msgId sm) = Some m1"
    "content m1 @ streamBuffer (run_ops ops s) = content m @ streamBuffer s @ appended ops"
    using run_ops_live[OF assms(1) refl refl assms(2), of ops] by blast
  have f: "find_message (run_ops ops s) (convId sm1) (msgId sm1) = Some m1" using 1 by simp
  show ?thesis
    using flush_live(2,3)[OF 1(1) f] finalize_live(2,4)[OF 1(1) f, of h True e a]
      finalize_live(2)[OF 1(1) f, of h ok e a]
      interrupted_live(2,4)[OF 1(1) f] 1(2,3,5)
    by (auto simp: content_of_def)
qed


lemma armed_streaming:
  "streamingMsg armed =
     Some \<lparr>convId = js ''c1'', msgId = js ''a1'', hasFirstChunk = False, thinkingEl = True,
           thinkingText = js ''Analisando'' @ [0x2026], sm_sources = None, sm_artifacts = None,
           sm_sourcesRequested = False\<rparr>"
  by (simp add: armed_def begin_send_def idle_def startStreamingIntoMessage_def
      ensureThinkingVisible_def ensureStreamingBind_def Let_def)

lemma armed_message:
  "find_message armed (js ''c1'') (js ''a1'') =
     Some \<lparr>msg_id = js ''a1'', role = Assistant, content = [], interrupted = False,
           sources = [], artifacts = [], sourcesRequested = False\<rparr>"
  by (simp add: armed_def begin_send_def idle_def startStreamingIntoMessage_def
      ensureThinkingVisible_def ensureStreamingBind_def Let_def find_message_def js_def)

lemma armed_fields:
  "streamBuffer armed = []" "effects armed = [Persist, Persist]" "watchdogFallback armed = False"
  "emptyStreamDone armed = False" "watchdogTimer armed = False" "view armed = Bound"
  by (simp_all add: armed_def begin_send_def idle_def startStreamingIntoMessage_def
      ensureThinkingVisible_def ensureStreamingBind_def Let_def)

theorem no_loss_flush_witness:
  "content_of (flushStreamNow (run_ops [Append (js ''Hel''), Frame, Append (js ''lo'')] armed))
     (js ''c1'') (js ''a1'') = js ''Hello''
   \<and> content_of (finalizeStreaming example_host True None None
        (run_ops [Append (js ''Hel''), Append (js ''lo'')] armed)) (js ''c1'') (js ''a1'') = js ''Hello''"
proof -
  let ?sm = "\<lparr>convId = js ''c1'', msgId = js ''a1'', hasFirstChunk = False, thinkingEl = True,
           thinkingText = js ''Analisando'' @ [0x2026], sm_sources = None, sm_artifacts = None,
           sm_sourcesRequested = False\<rparr>"
  let ?m = "\<lparr>msg_id = js ''a1'', role = Assistant, content = [], interrupted = False,
           sources = [], artifacts = [], sourcesRequested = False\<rparr>"
  have live: "streamingMsg armed = Some ?sm" by (rule armed_streaming)
  have found: "find_message armed (convId ?sm) (msgId ?sm) = Some ?m" by (simp add: armed_message)
  show ?thesis
    using no_loss_flush[OF live found, of "[Append (js ''Hel''), Frame, Append (js ''lo'')]"]
      no_loss_flush[OF live found, of "[Append (js ''Hel''), Append (js ''lo'')]" example_host None None]
    by (simp add: armed_fields js_def)
qed


lemma flush_keeps_live:
  "streamingMsg s = Some sm \<Longrightarrow> \<exists>sm'. streamingMsg (flushStreamNow s) = Some sm'"
proof -
  assume a: "streamingMsg s = Some sm"
  then obtain sm1 where "streamingMsg (ensureStreamingBind s) = Some sm1"
    using ensure_live by blast
  then show ?thesis by (simp add: flushStreamNow_def Let_def update_message_fields)
qed

lemma finalize_ends: "streamingMsg (finalizeStreaming h ok e a s) = None"
proof (cases "streamingMsg s")
  case None
  then show ?thesis by (simp add: finalizeStreaming_def)
next
  case (Some sm)
  then obtain sm1 where "streamingMsg (flushStreamNow s) = Some sm1"
    using flush_keeps_live by blast
  with Some show ?thesis
    by (simp add: finalizeStreaming_def Let_def split: option.splits)
qed

lemma interrupted_ends: "streamingMsg (finalizeStreamingInterrupted s) = None"
proof (cases "streamingMsg s")
  case None
  then show ?thesis by (simp add: finalizeStreamingInterrupted_def)
next
  case (Some sm)
  then obtain sm1 where "streamingMsg (flushStreamNow s) = Some sm1"
    using flush_keeps_live by blast
  with Some show ?thesis
    by (simp add: finalizeStreamingInterrupted_def Let_def split: option.splits)
qed

lemma finalized_noop:
  assumes "streamingMsg s = None"
  shows "finalizeStreaming h ok e a s = s" "finalizeStreamingInterrupted s = s"
    "flushStreamNow s = s" "streamAppend t s = s" "setThinkingStatus x s = s"
    "ensureThinkingVisible s = s" "setStreamingSources i s = s" "pushStreamingArtifact j s = s"
  using assms
  by (simp_all add: finalizeStreaming_def finalizeStreamingInterrupted_def flushStreamNow_def
      streamAppend_def setThinkingStatus_def ensureThinkingVisible_def setStreamingSources_def
      pushStreamingArtifact_def)

lemma handle_finalized:
  assumes "streamingMsg s = None"
  shows "handle h c s = s \<or> handle h c s = s\<lparr>emptyStreamDone := True\<rparr>"
  using assms
  by (cases c)
     (simp_all add: onDelta_def onStatus_def onSources_def onArtifact_def onError_def onDone_def
       finalized_noop Let_def)

lemma handle_all_finalized:
  assumes "streamingMsg s = None"
  shows "conversations (handle_all h calls s) = conversations s
       \<and> streamingMsg (handle_all h calls s) = None
       \<and> streamBuffer (handle_all h calls s) = streamBuffer s
       \<and> effects (handle_all h calls s) = effects s"
  using assms
proof (induction calls arbitrary: s)
  case Nil
  then show ?case by simp
next
  case (Cons c cs)
  from handle_finalized[OF Cons.prems, of h c]
  show ?case
  proof
    assume "handle h c s = s"
    then show ?thesis using Cons.IH[OF Cons.prems] by simp
  next
    assume e: "handle h c s = s\<lparr>emptyStreamDone := True\<rparr>"
    have "streamingMsg (s\<lparr>emptyStreamDone := True\<rparr>) = None" using Cons.prems by simp
    from Cons.IH[OF this] show ?thesis using e by simp
  qed
qed

text \<open>
  What the guards on \<open>streamingMsg\<close> give, the part of claim C5 that the code keeps. Once
  \<open>streamingMsg\<close> is \<open>null\<close> (the session is finalized), no handler call of the parser,
  of any kind and in any number, changes a conversation, revives the session, touches the
  buffer or persists anything, and both finalizers return the state as it is. Each
  finalizer ends in such a state, so a second finalization of any kind after a first one
  changes nothing. (The one local that a late \<open>status\<close> frame with phase \<open>done\<close> still
  sets is \<open>emptyStreamDone\<close>; the fallback it would ask for is stopped by its own guard.)
\<close>

lemma finalized_session_is_inert:
  assumes "streamingMsg s = None"
  shows "conversations (handle_all h calls s) = conversations s
       \<and> streamingMsg (handle_all h calls s) = None
       \<and> streamBuffer (handle_all h calls s) = streamBuffer s
       \<and> effects (handle_all h calls s) = effects s
       \<and> finalizeStreaming h ok e a s = s
       \<and> finalizeStreamingInterrupted s = s
       \<and> streamingMsg (finalizeStreaming h ok e a s0) = None
       \<and> streamingMsg (finalizeStreamingInterrupted s0) = None
       \<and> finalizeStreaming h ok' e' a' (finalizeStreaming h ok e a s0) = finalizeStreaming h ok e a s0
       \<and> finalizeStreamingInterrupted (finalizeStreaming h ok e a s0) = finalizeStreaming h ok e a s0
       \<and> finalizeStreaming h ok e a (finalizeStreamingInterrupted s0) = finalizeStreamingInterrupted s0
       \<and> finalizeStreamingInterrupted (finalizeStreamingInterrupted s0) = finalizeStreamingInterrupted s0"
  using handle_all_finalized[OF assms, of h calls] finalized_noop(1,2)[OF assms]
    finalized_noop(1,2)[OF finalize_ends] finalized_noop(1,2)[OF interrupted_ends]
    finalize_ends interrupted_ends
  by simp

lemma stop_live:
  assumes "streamingMsg s = Some sm" and "find_message s (convId sm) (msgId sm) = Some m"
  shows "streamingMsg (stopGenerating s) = None"
    and "effects (stopGenerating s) = effects s @ [Abort, Persist]"
    and "\<exists>m'. find_message (stopGenerating s) (convId sm) (msgId sm) = Some m' \<and>
           content m' =
             (if trim (content m @ streamBuffer s) = [] then interrupted_placeholder
              else content m @ streamBuffer s) \<and>
           interrupted m'"
proof -
  let ?s = "s\<lparr>effects := effects s @ [Abort]\<rparr>"
  have 1: "streamingMsg ?s = Some sm" using assms(1) by simp
  have 2: "find_message ?s (convId sm) (msgId sm) = Some m" using assms(2) by simp
  show "streamingMsg (stopGenerating s) = None"
    by (simp add: stopGenerating_def interrupted_ends)
  show "effects (stopGenerating s) = effects s @ [Abort, Persist]"
    using interrupted_live(3)[OF 1 2] by (simp add: stopGenerating_def)
  show "\<exists>m'. find_message (stopGenerating s) (convId sm) (msgId sm) = Some m' \<and>
           content m' =
             (if trim (content m @ streamBuffer s) = [] then interrupted_placeholder
              else content m @ streamBuffer s) \<and>
           interrupted m'"
    using interrupted_live(4)[OF 1 2] by (auto simp: stopGenerating_def)
qed

lemma finalized_session_is_inert_example:
  "streamingMsg (stopGenerating armed) = None
   \<and> conversations (handle_all example_host
        [OnDelta (js ''late''), OnStatus (JObj [(js ''phase'', JStr (js ''done''))]), OnDone None]
        (stopGenerating armed)) = conversations (stopGenerating armed)
   \<and> finalizeStreaming example_host True None None (stopGenerating armed) = stopGenerating armed"
proof -
  have fin: "streamingMsg (stopGenerating armed) = None"
    by (simp add: stopGenerating_def interrupted_ends)
  from finalized_session_is_inert[OF fin, of example_host
      "[OnDelta (js ''late''), OnStatus (JObj [(js ''phase'', JStr (js ''done''))]), OnDone None]"
      True None None]
  show ?thesis using fin by simp
qed


lemma find_append:
  "find P (xs @ ys) = (case find P xs of None \<Rightarrow> find P ys | Some x \<Rightarrow> Some x)"
  by (induction xs) auto

lemma begin_send_armed:
  assumes "begin_send cid uid mid txt True req s0 = (True, s)"
    and "find_message s0 cid mid = None" and "uid \<noteq> mid"
  shows "\<exists>sm. streamingMsg s = Some sm \<and> convId sm = cid \<and> msgId sm = mid \<and> \<not> hasFirstChunk sm"
    and "\<exists>m. find_message s cid mid = Some m \<and> content m = [] \<and> \<not> interrupted m"
    and "streamBuffer s = []"
    and "watchdogFallback s = False" and "emptyStreamDone s = False"
proof -
  have s: "s = snd (begin_send cid uid mid txt True req s0)" using assms(1) by simp
  show "\<exists>sm. streamingMsg s = Some sm \<and> convId sm = cid \<and> msgId sm = mid \<and> \<not> hasFirstChunk sm"
    unfolding s
    by (simp add: begin_send_def startStreamingIntoMessage_def ensureThinkingVisible_def
        ensureStreamingBind_def Let_def)
  show "\<exists>m. find_message s cid mid = Some m \<and> content m = [] \<and> \<not> interrupted m"
    unfolding s using assms(2,3)
    by (auto simp: begin_send_def startStreamingIntoMessage_def ensureThinkingVisible_def
        ensureStreamingBind_def Let_def find_message_def find_append split: option.splits)
  show "streamBuffer s = []" "watchdogFallback s = False" "emptyStreamDone s = False"
    unfolding s
    by (simp_all add: begin_send_def startStreamingIntoMessage_def ensureThinkingVisible_def
        ensureStreamingBind_def Let_def)
qed

lemma cancel_general:
  assumes "streamingMsg s = Some sm" and "convId sm = cid" and "msgId sm = mid"
    and "find_message s cid mid = Some m" and "content m = []" and "streamBuffer s = []"
  shows "streamingMsg (stopGenerating (run_ops ops s)) = None
       \<and> map_option interrupted (find_message (stopGenerating (run_ops ops s)) cid mid) = Some True
       \<and> content_of (stopGenerating (run_ops ops s)) cid mid
           = (if trim (appended ops) = [] then interrupted_placeholder else appended ops)"
proof -
  obtain sm1 m1 where 1: "streamingMsg (run_ops ops s) = Some sm1" "convId sm1 = cid"
    "msgId sm1 = mid" "find_message (run_ops ops s) cid mid = Some m1"
    "content m1 @ streamBuffer (run_ops ops s) = content m @ streamBuffer s @ appended ops"
    using run_ops_live[OF assms(1,2,3,4), of ops] by blast
  have f: "find_message (run_ops ops s) (convId sm1) (msgId sm1) = Some m1" using 1 by simp
  from stop_live(1,3)[OF 1(1) f] 1(2,3,5) assms(5,6) show ?thesis
    by (auto simp: content_of_def)
qed

text \<open>
  Claim C6, amended. On a session just armed by a send, after any deltas were appended
  (flushed by an animation frame or not), \<open>stopGenerating\<close> ends the session, flags the
  message \<open>interrupted\<close>, and leaves as content all the appended text when it has a
  character that is not white space, and the placeholder when the text received is empty
  or blank.
\<close>

theorem cancel_keeps_partial_text:
  assumes "begin_send cid uid mid txt True req s0 = (True, s)"
    and "find_message s0 cid mid = None" and "uid \<noteq> mid"
  shows "streamingMsg (stopGenerating (run_ops ops s)) = None
       \<and> map_option interrupted (find_message (stopGenerating (run_ops ops s)) cid mid) = Some True
       \<and> content_of (stopGenerating (run_ops ops s)) cid mid
           = (if trim (appended ops) = [] then interrupted_placeholder else appended ops)"
proof -
  from begin_send_armed(1,2,3)[OF assms]
  obtain sm m where "streamingMsg s = Some sm" "convId sm = cid" "msgId sm = mid"
    "find_message s cid mid = Some m" "content m = []" "streamBuffer s = []"
    by blast
  then show ?thesis by (rule cancel_general)
qed

lemma armed_begin:
  "begin_send (js ''c1'') (js ''u1'') (js ''a1'') (js ''hi'') True False idle = (True, armed)"
  by (simp add: armed_def begin_send_def startStreamingIntoMessage_def Let_def)

lemma idle_fresh: "find_message idle cid mid = None"
  by (simp add: find_message_def idle_def)

theorem cancel_keeps_partial_text_witness:
  "content_of (stopGenerating (run_ops [Append (js ''Hello'')] armed)) (js ''c1'') (js ''a1'') = js ''Hello''
   \<and> map_option interrupted
        (find_message (stopGenerating (run_ops [Append (js ''Hello'')] armed)) (js ''c1'') (js ''a1''))
       = Some True
   \<and> content_of (stopGenerating (run_ops [] armed)) (js ''c1'') (js ''a1'') = interrupted_placeholder"
proof -
  have ne: "js ''u1'' \<noteq> js ''a1''" by (simp add: js_def)
  have t: "trim (js ''Hello'') \<noteq> []"
    by (simp add: trim_def trimStart_def trimEnd_def js_def is_ws_def)
  have t0: "trim [] = []" by (simp add: trim_def trimStart_def trimEnd_def)
  from cancel_keeps_partial_text[OF armed_begin idle_fresh ne, of "[Append (js ''Hello'')]"]
    cancel_keeps_partial_text[OF armed_begin idle_fresh ne, of "[]"] t t0
  show ?thesis by simp
qed

text \<open>
  Claim C6 as stated fails for a delta of white space: a single blank is appended, the
  user stops, and the content is the placeholder, not the appended text.
\<close>

theorem cancel_blank_text_counterexample:
  "content_of (stopGenerating (run_ops [Append (js '' '')] armed)) (js ''c1'') (js ''a1'') \<noteq> js '' ''
   \<and> content_of (stopGenerating (run_ops [Append (js '' '')] armed)) (js ''c1'') (js ''a1'')
       = interrupted_placeholder"
proof -
  let ?sm = "\<lparr>convId = js ''c1'', msgId = js ''a1'', hasFirstChunk = False, thinkingEl = True,
           thinkingText = js ''Analisando'' @ [0x2026], sm_sources = None, sm_artifacts = None,
           sm_sourcesRequested = False\<rparr>"
  let ?m = "\<lparr>msg_id = js ''a1'', role = Assistant, content = [], interrupted = False,
           sources = [], artifacts = [], sourcesRequested = False\<rparr>"
  have t: "trim (js '' '') = []"
    by (simp add: trim_def trimStart_def trimEnd_def js_def is_ws_def)
  have "content_of (stopGenerating (run_ops [Append (js '' '')] armed)) (js ''c1'') (js ''a1'')
       = interrupted_placeholder"
    using cancel_general[of armed ?sm "js ''c1''" "js ''a1''" ?m "[Append (js '' '')]"]
      armed_streaming armed_message armed_fields(1) t
    by simp
  moreover have "interrupted_placeholder \<noteq> js '' ''"
    by (simp add: interrupted_placeholder_def js_def)
  ultimately show ?thesis by simp
qed

section \<open>Properties of a whole send\<close>

lemma thinking_status_keeps:
  "conversations (setThinkingStatus t s) = conversations s"
  "streamBuffer (setThinkingStatus t s) = streamBuffer s"
  "effects (setThinkingStatus t s) = effects s"
  "watchdogFallback (setThinkingStatus t s) = watchdogFallback s"
  "emptyStreamDone (setThinkingStatus t s) = emptyStreamDone s"
  "watchdogTimer (setThinkingStatus t s) = watchdogTimer s"
  by (simp_all add: setThinkingStatus_def Let_def ensure_keeps split: option.splits)

lemma thinking_visible_keeps:
  "conversations (ensureThinkingVisible s) = conversations s"
  "streamBuffer (ensureThinkingVisible s) = streamBuffer s"
  "effects (ensureThinkingVisible s) = effects s"
  "watchdogFallback (ensureThinkingVisible s) = watchdogFallback s"
  "emptyStreamDone (ensureThinkingVisible s) = emptyStreamDone s"
  "watchdogTimer (ensureThinkingVisible s) = watchdogTimer s"
  by (simp_all add: ensureThinkingVisible_def Let_def ensure_keeps split: option.splits)

lemma thinking_status_live:
  assumes "streamingMsg s = Some sm"
  shows "\<exists>sm'. streamingMsg (setThinkingStatus t s) = Some sm' \<and> convId sm' = convId sm \<and> msgId sm' = msgId sm"
proof -
  obtain sm1 where "streamingMsg (ensureStreamingBind s) = Some sm1" "convId sm1 = convId sm" "msgId sm1 = msgId sm"
    using ensure_live[OF assms] by blast
  then show ?thesis by (simp add: setThinkingStatus_def Let_def)
qed

lemma thinking_visible_live:
  assumes "streamingMsg s = Some sm"
  shows "\<exists>sm'. streamingMsg (ensureThinkingVisible s) = Some sm' \<and> convId sm' = convId sm \<and> msgId sm' = msgId sm"
proof -
  obtain sm1 where "streamingMsg (ensureStreamingBind s) = Some sm1" "convId sm1 = convId sm" "msgId sm1 = msgId sm"
    using ensure_live[OF assms] by blast
  then show ?thesis by (simp add: ensureThinkingVisible_def Let_def)
qed

lemma ensure_fresh:
  assumes "streamingMsg s = Some sm" and "\<not> hasFirstChunk sm"
    and "trim (content_of s (convId sm) (msgId sm)) = []"
  shows "\<exists>sm'. streamingMsg (ensureStreamingBind s) = Some sm' \<and> convId sm' = convId sm \<and>
           msgId sm' = msgId sm \<and> \<not> hasFirstChunk sm'"
  using assms by (simp add: ensureStreamingBind_def Let_def)

lemma content_of_keeps: "conversations s' = conversations s \<Longrightarrow> content_of s' cid mid = content_of s cid mid"
  by (simp add: content_of_def find_message_def)

lemma connecting_keeps:
  "conversations (connecting s) = conversations s"
  "streamBuffer (connecting s) = streamBuffer s"
  "effects (connecting s) = effects s"
  "watchdogFallback (connecting s) = watchdogFallback s"
  "emptyStreamDone (connecting s) = emptyStreamDone s"
  "watchdogTimer (connecting s) = watchdogTimer s"
  by (simp_all add: connecting_def thinking_status_keeps thinking_visible_keeps)

lemma connecting_found [simp]: "find_message (connecting s) cid mid = find_message s cid mid"
  by (simp add: find_message_def connecting_keeps)

lemma thinking_status_bound:
  assumes "streamingMsg (ensureStreamingBind s) = Some sm1"
  shows "\<exists>sm'. streamingMsg (setThinkingStatus t s) = Some sm' \<and> convId sm' = convId sm1 \<and>
           msgId sm' = msgId sm1 \<and> hasFirstChunk sm' = hasFirstChunk sm1"
  using assms by (simp add: setThinkingStatus_def Let_def)

lemma thinking_visible_bound:
  assumes "streamingMsg (ensureStreamingBind s) = Some sm1"
  shows "\<exists>sm'. streamingMsg (ensureThinkingVisible s) = Some sm' \<and> convId sm' = convId sm1 \<and>
           msgId sm' = msgId sm1 \<and> hasFirstChunk sm' = hasFirstChunk sm1"
  using assms by (simp add: ensureThinkingVisible_def Let_def)

lemma connecting_live:
  assumes "streamingMsg s = Some sm"
  shows "\<exists>sm'. streamingMsg (connecting s) = Some sm' \<and> convId sm' = convId sm \<and> msgId sm' = msgId sm
           \<and> (hasFirstChunk sm \<longrightarrow> hasFirstChunk sm')"
proof -
  let ?t = "js ''Conectando'' @ ellipsis"
  obtain sm1 where 1: "streamingMsg (ensureStreamingBind s) = Some sm1" "convId sm1 = convId sm"
    "msgId sm1 = msgId sm" "hasFirstChunk sm \<longrightarrow> hasFirstChunk sm1"
    using ensure_live[OF assms] by blast
  obtain sm2 where 2: "streamingMsg (setThinkingStatus ?t s) = Some sm2" "convId sm2 = convId sm1"
    "msgId sm2 = msgId sm1" "hasFirstChunk sm2 = hasFirstChunk sm1"
    using thinking_status_bound[OF 1(1)] by blast
  obtain sm3 where 3: "streamingMsg (ensureStreamingBind (setThinkingStatus ?t s)) = Some sm3"
    "convId sm3 = convId sm2" "msgId sm3 = msgId sm2" "hasFirstChunk sm2 \<longrightarrow> hasFirstChunk sm3"
    using ensure_live[OF 2(1)] by blast
  obtain sm4 where 4: "streamingMsg (ensureThinkingVisible (setThinkingStatus ?t s)) = Some sm4"
    "convId sm4 = convId sm3" "msgId sm4 = msgId sm3" "hasFirstChunk sm4 = hasFirstChunk sm3"
    using thinking_visible_bound[OF 3(1)] by blast
  show ?thesis using 1 2 3 4 by (simp add: connecting_def)
qed

lemma connecting_fresh:
  assumes "streamingMsg s = Some sm" and "\<not> hasFirstChunk sm"
    and "trim (content_of s (convId sm) (msgId sm)) = []"
  shows "\<exists>sm'. streamingMsg (connecting s) = Some sm' \<and> convId sm' = convId sm \<and> msgId sm' = msgId sm
           \<and> \<not> hasFirstChunk sm'"
proof -
  let ?t = "js ''Conectando'' @ ellipsis"
  obtain sm1 where 1: "streamingMsg (ensureStreamingBind s) = Some sm1" "convId sm1 = convId sm"
    "msgId sm1 = msgId sm" "\<not> hasFirstChunk sm1"
    using ensure_fresh[OF assms] by blast
  obtain sm2 where 2: "streamingMsg (setThinkingStatus ?t s) = Some sm2" "convId sm2 = convId sm1"
    "msgId sm2 = msgId sm1" "hasFirstChunk sm2 = hasFirstChunk sm1"
    using thinking_status_bound[OF 1(1)] by blast
  have "content_of (setThinkingStatus ?t s) (convId sm2) (msgId sm2) = content_of s (convId sm) (msgId sm)"
    using 1 2 content_of_keeps[OF thinking_status_keeps(1), of ?t s] by simp
  then have c: "trim (content_of (setThinkingStatus ?t s) (convId sm2) (msgId sm2)) = []"
    using assms(3) by simp
  have nf: "\<not> hasFirstChunk sm2" using 1 2 by simp
  obtain sm3 where 3: "streamingMsg (ensureStreamingBind (setThinkingStatus ?t s)) = Some sm3"
    "convId sm3 = convId sm2" "msgId sm3 = msgId sm2" "\<not> hasFirstChunk sm3"
    using ensure_fresh[OF 2(1) nf c] by blast
  obtain sm4 where 4: "streamingMsg (ensureThinkingVisible (setThinkingStatus ?t s)) = Some sm4"
    "convId sm4 = convId sm3" "msgId sm4 = msgId sm3" "hasFirstChunk sm4 = hasFirstChunk sm3"
    using thinking_visible_bound[OF 3(1)] by blast
  show ?thesis using 1 2 3 4 by (simp add: connecting_def)
qed

lemma enter_blocked:
  "streamingMsg s = None \<Longrightarrow> runChatFallback_enter reason s = (False, s)"
  "streamingMsg s = Some sm \<Longrightarrow> hasFirstChunk sm \<Longrightarrow> runChatFallback_enter reason s = (False, s)"
  by (simp_all add: runChatFallback_enter_def)

lemma enter_live:
  assumes "streamingMsg s = Some sm" and "\<not> hasFirstChunk sm"
  shows "fst (runChatFallback_enter reason s)"
    and "\<exists>sm'. streamingMsg (snd (runChatFallback_enter reason s)) = Some sm' \<and>
           convId sm' = convId sm \<and> msgId sm' = msgId sm"
    and "conversations (snd (runChatFallback_enter reason s)) = conversations s"
    and "streamBuffer (snd (runChatFallback_enter reason s)) = streamBuffer s"
    and "effects (snd (runChatFallback_enter reason s)) = effects s @ [Abort]"
    and "watchdogFallback (snd (runChatFallback_enter reason s))"
proof -
  let ?r = "if reason = [] then js ''Reconectando'' @ ellipsis else reason"
  let ?s1 = "s\<lparr>watchdogFallback := True\<rparr>"
  let ?s2 = "ensureThinkingVisible (setThinkingStatus ?r ?s1)"
  have e: "runChatFallback_enter reason s = (True, ?s2\<lparr>effects := effects ?s2 @ [Abort]\<rparr>)"
    using assms by (simp add: runChatFallback_enter_def Let_def)
  have l1: "streamingMsg ?s1 = Some sm" using assms(1) by simp
  obtain sm2 where l2: "streamingMsg (setThinkingStatus ?r ?s1) = Some sm2" "convId sm2 = convId sm" "msgId sm2 = msgId sm"
    using thinking_status_live[OF l1] by blast
  obtain sm3 where l3: "streamingMsg ?s2 = Some sm3" "convId sm3 = convId sm2" "msgId sm3 = msgId sm2"
    using thinking_visible_live[OF l2(1)] by blast
  show "fst (runChatFallback_enter reason s)" using e by simp
  show "\<exists>sm'. streamingMsg (snd (runChatFallback_enter reason s)) = Some sm' \<and>
           convId sm' = convId sm \<and> msgId sm' = msgId sm"
    using e l3 l2 by simp
  show "conversations (snd (runChatFallback_enter reason s)) = conversations s"
    using e by (simp add: thinking_status_keeps thinking_visible_keeps)
  show "streamBuffer (snd (runChatFallback_enter reason s)) = streamBuffer s"
    using e by (simp add: thinking_status_keeps thinking_visible_keeps)
  show "effects (snd (runChatFallback_enter reason s)) = effects s @ [Abort]"
    using e by (simp add: thinking_status_keeps thinking_visible_keeps)
  show "watchdogFallback (snd (runChatFallback_enter reason s))"
    using e by (simp add: thinking_status_keeps thinking_visible_keeps)
qed

lemma flush_effects: "effects (flushStreamNow s) = effects s"
  by (simp add: flushStreamNow_def Let_def ensure_keeps update_message_fields split: option.splits)

lemma finalize_grows: "\<exists>xs. effects (finalizeStreaming h ok e a s) = effects s @ xs"
  by (simp add: finalizeStreaming_def Let_def flush_effects update_message_fields split: option.splits)

lemma interrupted_grows: "\<exists>xs. effects (finalizeStreamingInterrupted s) = effects s @ xs"
  by (simp add: finalizeStreamingInterrupted_def Let_def flush_effects update_message_fields
      split: option.splits)

lemma stop_grows: "\<exists>xs. effects (stopGenerating s) = effects s @ xs"
  using interrupted_grows[of "s\<lparr>effects := effects s @ [Abort]\<rparr>"]
  by (auto simp: stopGenerating_def)

lemma raf_effects: "effects (rafCallback s) = effects s"
  by (simp add: rafCallback_def Let_def update_message_fields split: option.splits)

lemma fallback_rest_grows:
  "\<exists>xs. effects (runChatFallback_rest h env cid mid s) = effects s @ FallbackPost # xs"
proof -
  have r: "\<And>ok st body data s. \<exists>xs. effects (fallback_response h cid mid ok st body data s) = effects s @ xs"
    using finalize_grows
    by (simp add: fallback_response_def Let_def update_message_fields)
       (metis update_message_fields(4))
  have f: "\<And>msg s. \<exists>xs. effects (fallback_failed h env msg s) = effects s @ xs"
    using finalize_grows by (simp add: fallback_failed_def Let_def)
  show ?thesis
  proof (cases "post1 env")
    case (PostResponse ok st body data)
    then show ?thesis
      using r[of ok st body data "s\<lparr>effects := effects s @ [FallbackPost]\<rparr>"]
      by (auto simp: runChatFallback_rest_def Let_def)
  next
    case (PostThrows e)
    show ?thesis
    proof (cases "health2 env")
      case False
      then show ?thesis
        using PostThrows f[of e "s\<lparr>effects := effects s @ [FallbackPost]\<rparr>"]
        by (auto simp: runChatFallback_rest_def Let_def)
    next
      case True
      show ?thesis
      proof (cases "post2 env")
        case (PostResponse ok st body data)
        then show ?thesis
          using True PostThrows
            r[of ok st body data "s\<lparr>effects := effects s @ [FallbackPost, FallbackPost]\<rparr>"]
          by (auto simp: runChatFallback_rest_def Let_def)
      next
        case (PostThrows e2)
        then show ?thesis
          using True \<open>post1 env = PostThrows e\<close>
            f[of e2 "s\<lparr>effects := effects s @ [FallbackPost, FallbackPost]\<rparr>"]
          by (auto simp: runChatFallback_rest_def Let_def)
      qed
    qed
  qed
qed


lemma fallback_success:
  assumes live: "streamingMsg s = Some sm" "convId sm = cid" "msgId sm = mid" "\<not> hasFirstChunk sm"
    and found: "find_message s cid mid = Some m" and buf: "streamBuffer s = []"
    and post: "post1 env = PostResponse True st body data"
    and reply: "trim (String_or_empty h (field data (js ''reply''))) \<noteq> []"
  shows "fst (runChatFallback h env cid mid reason s)"
    and "streamingMsg (snd (runChatFallback h env cid mid reason s)) = None"
    and "content_of (snd (runChatFallback h env cid mid reason s)) cid mid
           = trim (String_or_empty h (field data (js ''reply'')))"
    and "effects (snd (runChatFallback h env cid mid reason s))
           = effects s @ [Abort, FallbackPost, Persist, AutoTitle cid]"
proof -
  let ?reply = "trim (String_or_empty h (field data (js ''reply'')))"
  let ?arts = "case field data (js ''artifacts'') of Some (JArr xs) \<Rightarrow> xs | _ \<Rightarrow> []"
  obtain s1 where e: "runChatFallback_enter reason s = (True, s1)"
    using enter_live(1)[OF live(1,4), of reason] by (cases "runChatFallback_enter reason s") simp
  have s1: "s1 = snd (runChatFallback_enter reason s)" using e by simp
  obtain sm1 where l1: "streamingMsg s1 = Some sm1" "convId sm1 = cid" "msgId sm1 = mid"
    using enter_live(2)[OF live(1,4), of reason] live(2,3) s1 by auto
  have f1: "find_message s1 cid mid = Some m"
    using found enter_live(3)[OF live(1,4), of reason] s1 by (simp add: find_message_def)
  have b1: "streamBuffer s1 = []" using buf enter_live(4)[OF live(1,4), of reason] s1 by simp
  have e1: "effects s1 = effects s @ [Abort]" using enter_live(5)[OF live(1,4), of reason] s1 by simp
  let ?s2 = "update_message cid mid (\<lambda>m. m\<lparr>content := ?reply\<rparr>) (s1\<lparr>effects := effects s1 @ [FallbackPost]\<rparr>)"
  have l2: "streamingMsg ?s2 = Some sm1" using l1 by (simp add: update_message_fields)
  have f2: "find_message ?s2 (convId sm1) (msgId sm1) = Some (m\<lparr>content := ?reply\<rparr>)"
    using f1 l1 by (simp add: find_message_update)
  have b2: "streamBuffer ?s2 = []" using b1 by (simp add: update_message_fields)
  have e2: "effects ?s2 = effects s @ [Abort, FallbackPost]" using e1 by (simp add: update_message_fields)
  have r: "snd (runChatFallback h env cid mid reason s) = finalizeStreaming h True None (Some ?arts) ?s2"
    using e post reply
    by (simp add: runChatFallback_def runChatFallback_rest_def fallback_response_def Let_def)
  show "fst (runChatFallback h env cid mid reason s)"
    using e by (simp add: runChatFallback_def)
  show "streamingMsg (snd (runChatFallback h env cid mid reason s)) = None"
    unfolding r by (rule finalize_ends)
  show "content_of (snd (runChatFallback h env cid mid reason s)) cid mid = ?reply"
    unfolding r using finalize_live(4)[OF l2 f2, of h True None "Some ?arts"] l1 b2
    by (auto simp: content_of_def)
  show "effects (snd (runChatFallback h env cid mid reason s))
           = effects s @ [Abort, FallbackPost, Persist, AutoTitle cid]"
    unfolding r using finalize_live(3)[OF l2 f2, of h True None "Some ?arts"] l1 e2
    by simp
qed

lemma post_stream_finalized: "streamingMsg s = None \<Longrightarrow> post_stream h env cid mid s = s"
  by (simp add: post_stream_def runChatFallback_def enter_blocked)

lemma sentinel_chunk:
  "on_chunk h utf8_step \<lparr>dec = utf8_init, buf = [], frame = frame_init\<rparr>
     (bytes ''data: [DONE]'' @ [0x0A, 0x0A])
   = ([OnDone None], \<lparr>dec = utf8_init\<lparr>bom_seen := True\<rparr>, buf = [],
                      frame = frame_init\<lparr>sawTerminal := True\<rparr>\<rparr>)"
  by (simp add: run_simps)

lemma done_event_chunk:
  "on_chunk h utf8_step \<lparr>dec = utf8_init, buf = [], frame = frame_init\<rparr>
     (bytes ''event: done'' @ 0x0A # bytes ''data: {}'' @ [0x0A, 0x0A])
   = ([OnDone (Some (safeJsonParse h (js ''{}'')))],
      \<lparr>dec = utf8_init\<lparr>bom_seen := True\<rparr>, buf = [], frame = frame_init\<lparr>sawTerminal := True\<rparr>\<rparr>)"
  by (simp add: run_simps splitLeadingJson_def eventName_def)

lemma emit_idle: "dataLines st = [] \<Longrightarrow> emit h st = ([], st)"
  by (simp add: emit_def)


lemma connected_streaming:
  "streamingMsg (connecting armed) =
     Some \<lparr>convId = js ''c1'', msgId = js ''a1'', hasFirstChunk = False, thinkingEl = True,
           thinkingText = js ''Conectando'' @ [0x2026], sm_sources = None, sm_artifacts = None,
           sm_sourcesRequested = False\<rparr>"
proof -
  have t: "trim (js ''Conectando'' @ ellipsis) = js ''Conectando'' @ [0x2026]"
    by (simp add: ellipsis_def js_def trim_def trimStart_def trimEnd_def is_ws_def)
  have b: "ensureStreamingBind armed = armed"
    by (simp add: ensureStreamingBind_def armed_streaming armed_fields)
  have 1: "setThinkingStatus (js ''Conectando'' @ ellipsis) armed =
       armed\<lparr>streamingMsg := Some \<lparr>convId = js ''c1'', msgId = js ''a1'', hasFirstChunk = False,
           thinkingEl = True, thinkingText = js ''Conectando'' @ [0x2026], sm_sources = None,
           sm_artifacts = None, sm_sourcesRequested = False\<rparr>\<rparr>"
    unfolding setThinkingStatus_def b t by (simp add: armed_streaming Let_def)
  show ?thesis
    unfolding connecting_def 1
    by (simp add: ensureThinkingVisible_def ensureStreamingBind_def armed_fields Let_def)
qed

lemma connected_fields:
  "streamBuffer (connecting armed) = []" "effects (connecting armed) = [Persist, Persist]"
  "watchdogFallback (connecting armed) = False" "emptyStreamDone (connecting armed) = False"
  "watchdogTimer (connecting armed) = False"
  by (simp_all add: connecting_keeps armed_fields)

lemma armed_timer_live:
  "streamingMsg ((connecting armed)\<lparr>watchdogTimer := True\<rparr>) =
     Some \<lparr>convId = js ''c1'', msgId = js ''a1'', hasFirstChunk = False, thinkingEl = True,
           thinkingText = js ''Conectando'' @ [0x2026], sm_sources = None, sm_artifacts = None,
           sm_sourcesRequested = False\<rparr>"
  "find_message ((connecting armed)\<lparr>watchdogTimer := True\<rparr>) (js ''c1'') (js ''a1'') =
     Some \<lparr>msg_id = js ''a1'', role = Assistant, content = [], interrupted = False,
           sources = [], artifacts = [], sourcesRequested = False\<rparr>"
  by (simp_all add: connected_streaming armed_message)

lemma finalize_ok_armed:
  "streamingMsg (finalizeStreaming h True None None ((connecting armed)\<lparr>watchdogTimer := True\<rparr>)) = None"
  "content_of (finalizeStreaming h True None None ((connecting armed)\<lparr>watchdogTimer := True\<rparr>)) (js ''c1'') (js ''a1'') = []"
  "effects (finalizeStreaming h True None None ((connecting armed)\<lparr>watchdogTimer := True\<rparr>))
     = [Persist, Persist, Persist, AutoTitle (js ''c1'')]"
proof -
  let ?sm = "\<lparr>convId = js ''c1'', msgId = js ''a1'', hasFirstChunk = False, thinkingEl = True,
           thinkingText = js ''Conectando'' @ [0x2026], sm_sources = None, sm_artifacts = None,
           sm_sourcesRequested = False\<rparr>"
  let ?m = "\<lparr>msg_id = js ''a1'', role = Assistant, content = [], interrupted = False,
           sources = [], artifacts = [], sourcesRequested = False\<rparr>"
  let ?s = "(connecting armed)\<lparr>watchdogTimer := True\<rparr>"
  have live: "streamingMsg ?s = Some ?sm" by (rule armed_timer_live)
  have found: "find_message ?s (convId ?sm) (msgId ?sm) = Some ?m" by (simp add: armed_message)
  show "streamingMsg (finalizeStreaming h True None None ?s) = None" by (rule finalize_ends)
  show "content_of (finalizeStreaming h True None None ?s) (js ''c1'') (js ''a1'') = []"
    using finalize_live(4)[OF live found, of h True None None]
    by (auto simp: content_of_def connected_fields)
  show "effects (finalizeStreaming h True None None ?s) = [Persist, Persist, Persist, AutoTitle (js ''c1'')]"
    using finalize_live(3)[OF live found, of h True None None] by (simp add: connected_fields)
qed

lemma frame_done_lines: "dataLines (frame_init\<lparr>sawTerminal := True\<rparr>) = []"
  by (simp add: frame_init_def)

lemma sentinel_run:
  "sendMessage_stream h utf8 env (js ''c1'') (js ''a1'')
     (sse_response [Chunk (bytes ''data: [DONE]'' @ [0x0A, 0x0A])]) armed
   = (finalizeStreaming h True None None ((connecting armed)\<lparr>watchdogTimer := True\<rparr>))\<lparr>watchdogTimer := False\<rparr>"
  by (simp add: sendMessage_stream_def sse_response_def utf8_def sentinel_chunk onDone_def
      emit_idle frame_done_lines post_stream_finalized finalize_ends)

lemma done_event_run:
  "sendMessage_stream h utf8 env (js ''c1'') (js ''a1'')
     (sse_response [Chunk (bytes ''event: done'' @ 0x0A # bytes ''data: {}'' @ [0x0A, 0x0A])]) armed
   = (finalizeStreaming h True None None ((connecting armed)\<lparr>watchdogTimer := True\<rparr>))\<lparr>watchdogTimer := False\<rparr>"
  by (simp add: sendMessage_stream_def sse_response_def utf8_def done_event_chunk onDone_def
      emit_idle frame_done_lines post_stream_finalized finalize_ends)


lemma status_done_chunk:
  \<open>on_chunk example_host utf8_step \<lparr>dec = utf8_init, buf = [], frame = frame_init\<rparr>
     (bytes ''event: status'' @ 0x0A # bytes ''data: {"phase":"done"}'' @ [0x0A, 0x0A])
   = ([OnStatus (JObj [(js ''phase'', JStr (js ''done''))])],
      \<lparr>dec = utf8_init\<lparr>bom_seen := True\<rparr>, buf = [], frame = frame_init\<lparr>sawTerminal := True\<rparr>\<rparr>)\<close>
  by (simp add: run_simps splitLeadingJson_def eventName_def safeJsonParse_def example_host_def
      phase_is_def is_object_def String_or_empty_def or_else_def)

lemma status_done_handler:
  "onStatus example_host (JObj [(js ''phase'', JStr (js ''done''))]) ((connecting armed)\<lparr>watchdogTimer := True\<rparr>)
   = (connecting armed)\<lparr>watchdogTimer := True, emptyStreamDone := True\<rparr>"
proof -
  have ph: "toLowerCase example_host
              (trim (String_or_empty example_host (field (JObj [(js ''phase'', JStr (js ''done''))]) (js ''phase''))))
            = js ''done''"
    by (simp add: example_host_def String_or_empty_def or_else_def js_def trim_def trimStart_def
        trimEnd_def is_ws_def)
  have ne: "js ''done'' \<noteq> js ''thinking''" "js ''done'' \<noteq> js ''tool''" "js ''done'' \<noteq> js ''answer''"
    by (simp_all add: js_def)
  have hf: "\<not> (case streamingMsg ((connecting armed)\<lparr>watchdogTimer := True\<rparr>) of Some sm \<Rightarrow> hasFirstChunk sm | None \<Rightarrow> False)"
    by (simp add: connected_streaming)
  show ?thesis
    unfolding onStatus_def Let_def ph using ne hf by simp
qed

lemma status_done_run:
  \<open>sendMessage_stream example_host utf8 example_env (js ''c1'') (js ''a1'')
     (sse_response [Chunk (bytes ''event: status'' @ 0x0A # bytes ''data: {"phase":"done"}'' @ [0x0A, 0x0A])])
     armed
   = (snd (runChatFallback example_host (fallback example_env) (js ''c1'') (js ''a1'')
             (js ''Stream finalizou sem tokens. Usando fallback'' @ ellipsis)
             ((connecting armed)\<lparr>watchdogTimer := True, emptyStreamDone := True\<rparr>)))\<lparr>watchdogTimer := False\<rparr>\<close>
  by (simp add: sendMessage_stream_def sse_response_def utf8_def status_done_chunk
      status_done_handler emit_idle frame_done_lines post_stream_def connected_fields)

lemma example_fallback_armed:
  "content_of (snd (runChatFallback example_host (fallback example_env) (js ''c1'') (js ''a1'') reason
                  ((connecting armed)\<lparr>watchdogTimer := True, emptyStreamDone := True\<rparr>))) (js ''c1'') (js ''a1'')
     = js ''Hi''"
  "effects (snd (runChatFallback example_host (fallback example_env) (js ''c1'') (js ''a1'') reason
                  ((connecting armed)\<lparr>watchdogTimer := True, emptyStreamDone := True\<rparr>)))
     = [Persist, Persist, Abort, FallbackPost, Persist, AutoTitle (js ''c1'')]"
proof -
  let ?sm = "\<lparr>convId = js ''c1'', msgId = js ''a1'', hasFirstChunk = False, thinkingEl = True,
           thinkingText = js ''Conectando'' @ [0x2026], sm_sources = None, sm_artifacts = None,
           sm_sourcesRequested = False\<rparr>"
  let ?m = "\<lparr>msg_id = js ''a1'', role = Assistant, content = [], interrupted = False,
           sources = [], artifacts = [], sourcesRequested = False\<rparr>"
  let ?s = "(connecting armed)\<lparr>watchdogTimer := True, emptyStreamDone := True\<rparr>"
  let ?data = "JObj [(js ''reply'', JStr (js ''Hi''))]"
  have live: "streamingMsg ?s = Some ?sm" by (simp add: connected_streaming)
  have ids: "convId ?sm = js ''c1''" "msgId ?sm = js ''a1''" "\<not> hasFirstChunk ?sm" by simp_all
  have found: "find_message ?s (js ''c1'') (js ''a1'') = Some ?m" by (simp add: armed_message)
  have buf: "streamBuffer ?s = []" by (simp add: connected_fields)
  have post: "post1 (fallback example_env) = PostResponse True 200 [] ?data"
    by (simp add: example_env_def)
  have rep: "trim (String_or_empty example_host (field ?data (js ''reply''))) = js ''Hi''"
    by (simp add: String_or_empty_def or_else_def js_def trim_def trimStart_def trimEnd_def is_ws_def)
  then have ne: "trim (String_or_empty example_host (field ?data (js ''reply''))) \<noteq> []"
    by (simp add: js_def)
  show "content_of (snd (runChatFallback example_host (fallback example_env) (js ''c1'') (js ''a1'') reason ?s))
          (js ''c1'') (js ''a1'') = js ''Hi''"
    using fallback_success(3)[OF live ids found buf post ne, of reason] rep by simp
  show "effects (snd (runChatFallback example_host (fallback example_env) (js ''c1'') (js ''a1'') reason ?s))
     = [Persist, Persist, Abort, FallbackPost, Persist, AutoTitle (js ''c1'')]"
    using fallback_success(4)[OF live ids found buf post ne, of reason] by (simp add: connected_fields)
qed

text \<open>
  Claim C1, run on the code. On a freshly armed session an accepted event stream that
  carries only the sentinel frame \<open>data: [DONE]\<close>, or only an \<open>event: done\<close> frame, ends
  finalized as ok: the session is gone, the message content is empty, the state is
  persisted and the title hook is scheduled, and no fallback request is ever issued
  (\<open>onDone\<close> lacks the \<open>hasFirstChunk\<close> test). The sibling path does what the claim says:
  a \<open>status\<close> frame with phase \<open>done\<close> and no delta before it leads to the abort and the
  fallback request, and the reply of the fallback becomes the content.
\<close>

theorem done_without_delta_finalizes_ok:
  \<open>streamingMsg (sendMessage_stream h utf8 env (js ''c1'') (js ''a1'')
       (sse_response [Chunk (bytes ''data: [DONE]'' @ [0x0A, 0x0A])]) armed) = None
   \<and> content_of (sendMessage_stream h utf8 env (js ''c1'') (js ''a1'')
       (sse_response [Chunk (bytes ''data: [DONE]'' @ [0x0A, 0x0A])]) armed) (js ''c1'') (js ''a1'') = []
   \<and> effects (sendMessage_stream h utf8 env (js ''c1'') (js ''a1'')
       (sse_response [Chunk (bytes ''data: [DONE]'' @ [0x0A, 0x0A])]) armed)
       = [Persist, Persist, Persist, AutoTitle (js ''c1'')]
   \<and> content_of (sendMessage_stream h utf8 env (js ''c1'') (js ''a1'')
       (sse_response [Chunk (bytes ''event: done'' @ 0x0A # bytes ''data: {}'' @ [0x0A, 0x0A])]) armed)
       (js ''c1'') (js ''a1'') = []
   \<and> effects (sendMessage_stream h utf8 env (js ''c1'') (js ''a1'')
       (sse_response [Chunk (bytes ''event: done'' @ 0x0A # bytes ''data: {}'' @ [0x0A, 0x0A])]) armed)
       = [Persist, Persist, Persist, AutoTitle (js ''c1'')]
   \<and> content_of (sendMessage_stream example_host utf8 example_env (js ''c1'') (js ''a1'')
       (sse_response [Chunk (bytes ''event: status'' @ 0x0A # bytes ''data: {"phase":"done"}'' @ [0x0A, 0x0A])])
       armed) (js ''c1'') (js ''a1'') = js ''Hi''
   \<and> effects (sendMessage_stream example_host utf8 example_env (js ''c1'') (js ''a1'')
       (sse_response [Chunk (bytes ''event: status'' @ 0x0A # bytes ''data: {"phase":"done"}'' @ [0x0A, 0x0A])])
       armed) = [Persist, Persist, Abort, FallbackPost, Persist, AutoTitle (js ''c1'')]\<close>
  unfolding sentinel_run done_event_run status_done_run
  by (simp add: finalize_ok_armed example_fallback_armed)


lemma trim_keeps_text: "\<not> is_ws c \<Longrightarrow> trim (c # cs) \<noteq> []"
  by (auto simp: trim_def trimStart_def trimEnd_def dropWhile_eq_Nil_conv)

lemma finalize_error_text:
  assumes "streamingMsg s = Some sm" and "find_message s (convId sm) (msgId sm) = Some m"
    and "txt \<noteq> []"
  shows "content_of (finalizeStreaming h False (Some (JStr txt)) None s) (convId sm) (msgId sm) = txt"
    and "effects (finalizeStreaming h False (Some (JStr txt)) None s) = effects s @ [Persist]"
    and "streamingMsg (finalizeStreaming h False (Some (JStr txt)) None s) = None"
  using finalize_live(1,3,4)[OF assms(1,2), of h False "Some (JStr txt)" None] assms(3)
  by (auto simp: content_of_def or_else_def)

lemma server_text: "trim (js ''Servidor retornou '' @ x) \<noteq> []"
  by (simp add: js_def trim_keeps_text is_ws_def)

lemma fallback_text: "trim (js ''Fallback /chat retornou '' @ x) \<noteq> []"
  by (simp add: js_def trim_keeps_text is_ws_def)

lemma connect_text: "trim (js ''Falha ao conectar ao backend ('' @ x) @ y \<noteq> []"
  by (simp add: js_def trim_keeps_text is_ws_def)

lemma fallback_entered:
  assumes "streamingMsg s = Some sm" and "\<not> hasFirstChunk sm"
  shows "fst (runChatFallback h env cid mid reason s)"
    and "\<exists>xs. effects (snd (runChatFallback h env cid mid reason s)) = effects s @ Abort # FallbackPost # xs"
proof -
  obtain s1 where e: "runChatFallback_enter reason s = (True, s1)"
    using enter_live(1)[OF assms, of reason] by (cases "runChatFallback_enter reason s") simp
  have e1: "effects s1 = effects s @ [Abort]" using enter_live(5)[OF assms, of reason] e by simp
  show "fst (runChatFallback h env cid mid reason s)" using e by (simp add: runChatFallback_def)
  show "\<exists>xs. effects (snd (runChatFallback h env cid mid reason s)) = effects s @ Abort # FallbackPost # xs"
    using fallback_rest_grows[of h env cid mid s1] e e1 by (auto simp: runChatFallback_def)
qed

lemma fallback_http_error:
  assumes live: "streamingMsg s = Some sm" "convId sm = cid" "msgId sm = mid" "\<not> hasFirstChunk sm"
    and found: "find_message s cid mid = Some m"
    and post: "post1 env = PostResponse False st body data"
  shows "content_of (snd (runChatFallback h env cid mid reason s)) cid mid
           = trim (js ''Fallback /chat retornou '' @ decimal st @ js ''. ''
                   @ (if body \<noteq> [] then take 240 body else []))"
proof -
  let ?txt = "trim (js ''Fallback /chat retornou '' @ decimal st @ js ''. ''
                   @ (if body \<noteq> [] then take 240 body else []))"
  obtain s1 where e: "runChatFallback_enter reason s = (True, s1)"
    using enter_live(1)[OF live(1,4), of reason] by (cases "runChatFallback_enter reason s") simp
  have s1: "s1 = snd (runChatFallback_enter reason s)" using e by simp
  obtain sm1 where l1: "streamingMsg s1 = Some sm1" "convId sm1 = cid" "msgId sm1 = mid"
    using enter_live(2)[OF live(1,4), of reason] live(2,3) s1 by auto
  have f1: "find_message s1 cid mid = Some m"
    using found enter_live(3)[OF live(1,4), of reason] s1 by (simp add: find_message_def)
  let ?s2 = "s1\<lparr>effects := effects s1 @ [FallbackPost]\<rparr>"
  have l2: "streamingMsg ?s2 = Some sm1" using l1 by simp
  have f2: "find_message ?s2 (convId sm1) (msgId sm1) = Some m" using f1 l1 by simp
  have r: "snd (runChatFallback h env cid mid reason s) = finalizeStreaming h False (Some (JStr ?txt)) None ?s2"
    using e post by (simp add: runChatFallback_def runChatFallback_rest_def fallback_response_def Let_def)
  show ?thesis
    unfolding r using finalize_error_text(1)[OF l2 f2 fallback_text, of h] l1 by simp
qed

lemma catch_error_entered:
  assumes "streamingMsg s = Some sm" and "\<not> hasFirstChunk sm"
  shows "catch_error h env cid mid msg s
         = (snd (runChatFallback h (fallback env) cid mid
                   (js ''Falha no streaming. Tentando fallback'' @ ellipsis) s))\<lparr>watchdogTimer := False\<rparr>"
proof -
  let ?r = "runChatFallback h (fallback env) cid mid
              (js ''Falha no streaming. Tentando fallback'' @ ellipsis) s"
  have "fst ?r" using fallback_entered(1)[OF assms] .
  then obtain s1 where "?r = (True, s1)" by (cases ?r) simp
  then show ?thesis by (simp add: catch_error_def)
qed

lemma catch_error_blocked:
  assumes "streamingMsg s = Some sm" and "hasFirstChunk sm"
  shows "catch_error h env cid mid msg s
         = (finalizeStreaming h False
              (Some (JStr (trim (js ''Falha ao conectar ao backend ('' @ backend_base env @ js ''). '' @ msg)
                 @ [0x0A] @
                 (if online env then
                    js ''O backend respondeu ao /health. Isso costuma ser rein'' @ [0xED]
                      @ js ''cio do servidor (reload) ou bloqueio do navegador (CORS).''
                  else js ''Backend parece offline. Inicie com backend/run_dev.ps1 (porta 8000).''))))
              None s)\<lparr>watchdogTimer := False\<rparr>"
  using assms by (simp add: catch_error_def runChatFallback_def enter_blocked Let_def)


text \<open>
  Claim C4 as stated fails for a status that is not ok: the stream endpoint answers 500
  on an armed session, on a network where the fallback would succeed; no fallback request
  is issued and the message shows the error at once.
\<close>

theorem non_2xx_skips_fallback_counterexample:
  "FallbackPost \<notin> set (effects (sendMessage_stream example_host utf8 example_env (js ''c1'') (js ''a1'')
       (Response \<lparr>resp_ok = False, resp_status = 500, resp_text = js ''boom'', resp_reader = True,
                  resp_event_stream = True, resp_items = [], resp_end = EndOfStream\<rparr>) armed))
   \<and> content_of (sendMessage_stream example_host utf8 example_env (js ''c1'') (js ''a1'')
       (Response \<lparr>resp_ok = False, resp_status = 500, resp_text = js ''boom'', resp_reader = True,
                  resp_event_stream = True, resp_items = [], resp_end = EndOfStream\<rparr>) armed)
       (js ''c1'') (js ''a1'') = js ''Servidor retornou 500. boom''"
proof -
  let ?sm = "\<lparr>convId = js ''c1'', msgId = js ''a1'', hasFirstChunk = False, thinkingEl = True,
           thinkingText = js ''Conectando'' @ [0x2026], sm_sources = None, sm_artifacts = None,
           sm_sourcesRequested = False\<rparr>"
  let ?m = "\<lparr>msg_id = js ''a1'', role = Assistant, content = [], interrupted = False,
           sources = [], artifacts = [], sourcesRequested = False\<rparr>"
  have live: "streamingMsg (connecting armed) = Some ?sm" by (rule connected_streaming)
  have found: "find_message (connecting armed) (convId ?sm) (msgId ?sm) = Some ?m"
    by (simp add: armed_message)
  have d: "decimal 500 = js ''500''" by (simp add: decimal.simps js_def)
  have t: "trim (js ''Servidor retornou '' @ js ''500'' @ js ''. '' @ take 240 (js ''boom''))
           = js ''Servidor retornou 500. boom''"
    by (simp add: js_def trim_def trimStart_def trimEnd_def is_ws_def)
  have b: "js ''boom'' \<noteq> []" by (simp add: js_def)
  from finalize_error_text(1,2)[OF live found server_text, of example_host
      "js ''500'' @ js ''. '' @ take 240 (js ''boom'')"]
  show ?thesis using d t b by (simp add: sendMessage_stream_def connected_fields)
qed


lemma timer_off: "\<not> watchdogTimer s \<Longrightarrow> s\<lparr>watchdogTimer := False\<rparr> = s"
  by (cases s) simp

lemma watchdog_blocked:
  assumes "streamingMsg s = Some sm" and "hasFirstChunk sm"
  shows "watchdog_fires s = (False, s\<lparr>watchdogTimer := False\<rparr>)"
    and "sse_loop h step fenv cid mid (WatchdogFires # xs) r s
         = sse_loop h step fenv cid mid xs r (s\<lparr>watchdogTimer := False\<rparr>)"
    and "plain_loop h step fenv cid mid (WatchdogFires # xs) d s
         = plain_loop h step fenv cid mid xs d (s\<lparr>watchdogTimer := False\<rparr>)"
proof -
  have l: "streamingMsg (s\<lparr>watchdogTimer := False\<rparr>) = Some sm" using assms(1) by simp
  show w: "watchdog_fires s = (False, s\<lparr>watchdogTimer := False\<rparr>)"
    using enter_blocked(2)[OF l assms(2)] by (simp add: watchdog_fires_def)
  show "sse_loop h step fenv cid mid (WatchdogFires # xs) r s
         = sse_loop h step fenv cid mid xs r (s\<lparr>watchdogTimer := False\<rparr>)"
    using w by (simp add: timer_off)
  show "plain_loop h step fenv cid mid (WatchdogFires # xs) d s
         = plain_loop h step fenv cid mid xs d (s\<lparr>watchdogTimer := False\<rparr>)"
    using w by (simp add: timer_off)
qed

lemma watchdog_entered:
  assumes "streamingMsg s = Some sm" and "\<not> hasFirstChunk sm"
  shows "fst (watchdog_fires s)"
    and "watchdogFallback (snd (watchdog_fires s))"
    and "effects (snd (watchdog_fires s)) = effects s @ [Abort]"
proof -
  have l: "streamingMsg (s\<lparr>watchdogTimer := False\<rparr>) = Some sm" using assms(1) by simp
  show "fst (watchdog_fires s)"
    using enter_live(1)[OF l assms(2)] by (simp add: watchdog_fires_def)
  show "watchdogFallback (snd (watchdog_fires s))"
    using enter_live(6)[OF l assms(2)] by (simp add: watchdog_fires_def)
  show "effects (snd (watchdog_fires s)) = effects s @ [Abort]"
    using enter_live(5)[OF l assms(2)] by (simp add: watchdog_fires_def)
qed

lemma watchdog_run:
  assumes "streamingMsg s = Some sm" and "\<not> hasFirstChunk sm"
    and "trim (content_of s (convId sm) (msgId sm)) = []"
  shows "\<exists>zs. effects (sendMessage_stream h D env cid mid (sse_response (WatchdogFires # xs)) s)
              = effects s @ Abort # FallbackPost # zs"
proof -
  let ?s1 = "(connecting s)\<lparr>watchdogTimer := True\<rparr>"
  obtain sm0 where l0: "streamingMsg (connecting s) = Some sm0" and nf: "\<not> hasFirstChunk sm0"
    using connecting_fresh[OF assms] by blast
  have l: "streamingMsg ?s1 = Some sm0" using l0 by simp
  obtain s2 where w: "watchdog_fires ?s1 = (True, s2)"
    using watchdog_entered(1)[OF l nf] by (cases "watchdog_fires ?s1") simp
  have e2: "effects s2 = effects s @ [Abort]"
    using watchdog_entered(3)[OF l nf] w by (simp add: connecting_keeps)
  have f2: "watchdogFallback s2" using watchdog_entered(2)[OF l nf] w by simp
  have c: "effects (catch_abort s2) = effects s @ [Abort]"
    using e2 f2 by (simp add: catch_abort_def)
  obtain zs where r: "effects (runChatFallback_rest h (fallback env) cid mid (catch_abort s2))
                      = (effects s @ [Abort]) @ FallbackPost # zs"
    using fallback_rest_grows[of h "fallback env" cid mid "catch_abort s2"] c by auto
  have "sendMessage_stream h D env cid mid (sse_response (WatchdogFires # xs)) s
        = runChatFallback_rest h (fallback env) cid mid (catch_abort s2)"
    using w by (simp add: sendMessage_stream_def sse_response_def)
  with r have "effects (sendMessage_stream h D env cid mid (sse_response (WatchdogFires # xs)) s)
        = effects s @ Abort # FallbackPost # zs" by simp
  then show ?thesis by blast
qed

text \<open>
  Claim C7, amended. The watchdog is a timer of 12000 ms. On a live session without a
  first chunk its callback aborts the stream and sets \<open>watchdogFallback\<close>, and a send on a
  blank message whose accepted event stream is hit by the timer before any chunk ends
  with the abort followed by the fallback request: the timer is running from the moment
  the response is accepted.
  On a session that has its first chunk the callback changes nothing but the timer itself,
  and the read loop of either kind of response goes on as if it had not fired.
\<close>

theorem watchdog_acts_only_before_first_delta:
  assumes "streamingMsg s = Some sm"
  shows "watchdog_ms = 12000
   \<and> (\<not> hasFirstChunk sm \<longrightarrow>
        fst (watchdog_fires s) \<and> watchdogFallback (snd (watchdog_fires s))
      \<and> effects (snd (watchdog_fires s)) = effects s @ [Abort]
      \<and> (trim (content_of s (convId sm) (msgId sm)) = [] \<longrightarrow>
          (\<exists>zs. effects (sendMessage_stream h D env cid mid (sse_response (WatchdogFires # xs)) s)
                 = effects s @ Abort # FallbackPost # zs)))
   \<and> (hasFirstChunk sm \<longrightarrow>
        watchdog_fires s = (False, s\<lparr>watchdogTimer := False\<rparr>)
      \<and> sse_loop h step fenv cid mid (WatchdogFires # xs) r s
          = sse_loop h step fenv cid mid xs r (s\<lparr>watchdogTimer := False\<rparr>)
      \<and> plain_loop h step fenv cid mid (WatchdogFires # xs) d s
          = plain_loop h step fenv cid mid xs d (s\<lparr>watchdogTimer := False\<rparr>))"
proof -
  have a: "watchdog_ms = 12000" by (simp add: watchdog_ms_def)
  have b: "\<not> hasFirstChunk sm \<longrightarrow>
        fst (watchdog_fires s) \<and> watchdogFallback (snd (watchdog_fires s))
      \<and> effects (snd (watchdog_fires s)) = effects s @ [Abort]
      \<and> (trim (content_of s (convId sm) (msgId sm)) = [] \<longrightarrow>
          (\<exists>zs. effects (sendMessage_stream h D env cid mid (sse_response (WatchdogFires # xs)) s)
                 = effects s @ Abort # FallbackPost # zs))"
    using watchdog_entered[OF assms] watchdog_run[OF assms] by blast
  have c: "hasFirstChunk sm \<longrightarrow>
        watchdog_fires s = (False, s\<lparr>watchdogTimer := False\<rparr>)
      \<and> sse_loop h step fenv cid mid (WatchdogFires # xs) r s
          = sse_loop h step fenv cid mid xs r (s\<lparr>watchdogTimer := False\<rparr>)
      \<and> plain_loop h step fenv cid mid (WatchdogFires # xs) d s
          = plain_loop h step fenv cid mid xs d (s\<lparr>watchdogTimer := False\<rparr>)"
    using watchdog_blocked(1)[OF assms] watchdog_blocked(2)[OF assms, of h step fenv cid mid xs r]
      watchdog_blocked(3)[OF assms, of h step fenv cid mid xs d]
    by (intro impI conjI)
  from a b c show ?thesis by (intro conjI)
qed

theorem watchdog_acts_only_before_first_delta_witness:
  "fst (watchdog_fires armed)
   \<and> effects (snd (watchdog_fires armed)) = [Persist, Persist, Abort]
   \<and> (\<exists>zs. effects (sendMessage_stream example_host utf8 example_env (js ''c1'') (js ''a1'')
                        (sse_response [WatchdogFires]) armed) = Persist # Persist # Abort # FallbackPost # zs)
   \<and> watchdog_fires (streamAppend (js ''x'') armed)
       = (False, (streamAppend (js ''x'') armed)\<lparr>watchdogTimer := False\<rparr>)"
proof -
  let ?sm = "\<lparr>convId = js ''c1'', msgId = js ''a1'', hasFirstChunk = False, thinkingEl = True,
           thinkingText = js ''Analisando'' @ [0x2026], sm_sources = None, sm_artifacts = None,
           sm_sourcesRequested = False\<rparr>"
  have live: "streamingMsg armed = Some ?sm" by (rule armed_streaming)
  have blank: "trim (content_of armed (js ''c1'') (js ''a1'')) = []"
    by (simp add: content_of_def armed_message trim_def trimStart_def trimEnd_def)
  obtain sm1 where l1: "streamingMsg (streamAppend (js ''x'') armed) = Some sm1" "hasFirstChunk sm1"
    using streamAppend_live(1)[OF live, of "js ''x''"] by blast
  let ?r = "\<lparr>dec = utf8_init, buf = [], frame = frame_init\<rparr>"
  from watchdog_acts_only_before_first_delta[OF live,
      where h = example_host and D = utf8 and env = example_env and cid = "js ''c1''"
        and mid = "js ''a1''" and xs = "[]" and step = utf8_step and fenv = "fallback example_env"
        and r = ?r and d = utf8_init]
    watchdog_acts_only_before_first_delta[OF l1(1),
      where h = example_host and D = utf8 and env = example_env and cid = "js ''c1''"
        and mid = "js ''a1''" and xs = "[]" and step = utf8_step and fenv = "fallback example_env"
        and r = ?r and d = utf8_init] l1(2)
  show ?thesis using blank by (simp add: armed_fields del: sse_loop.simps plain_loop.simps)
qed

text \<open>
  Claim C7 as stated fails in its first part: no timer is running in the state in which
  the send has armed the session. \<open>sendMessage\<close> starts it later, when the response of the
  stream endpoint has been accepted.
\<close>

theorem watchdog_not_started_on_arming_counterexample:
  "\<not> watchdogTimer armed
   \<and> \<not> watchdogTimer (snd (begin_send (js ''c1'') (js ''u1'') (js ''a1'') (js ''hi'') True False idle))"
  by (simp add: armed_fields armed_def[symmetric])

section \<open>A stop during the fallback\<close>

lemma fallback_rest_finalized:
  assumes "streamingMsg s = None" and "post1 env = PostResponse True st body data"
    and "trim (String_or_empty h (field data (js ''reply''))) \<noteq> []"
  shows "runChatFallback_rest h env cid mid s
         = update_message cid mid (\<lambda>m. m\<lparr>content := trim (String_or_empty h (field data (js ''reply'')))\<rparr>)
             (s\<lparr>effects := effects s @ [FallbackPost]\<rparr>)"
  using assms
  by (simp add: runChatFallback_rest_def fallback_response_def Let_def finalized_noop
      update_message_fields)

text \<open>
  Claim C5, run on the code. The request to the stream endpoint throws on a freshly
  armed session, the \<open>catch\<close> of \<open>sendMessage\<close> enters \<open>runChatFallback\<close>, and the user
  presses stop while the fallback awaits its reply. The stop finalizes the session as
  interrupted: the handle is gone, the content is the placeholder and the state is
  persisted. The reply "Hi" that arrives afterwards is still written into the message:
  the content of the finalized message changes, the message stays flagged interrupted,
  and nothing is persisted after the change, because \<open>finalizeStreaming\<close> returns at its
  guard. \<open>runChatFallback\<close> tests \<open>streamingMsg\<close> on entry only, not after its awaits.
\<close>

theorem late_fallback_reply_overwrites_interrupted_message:
  "streamingMsg (stopGenerating (snd (runChatFallback_enter
       (js ''Falha no streaming. Tentando fallback'' @ ellipsis) (connecting armed)))) = None
   \<and> content_of (stopGenerating (snd (runChatFallback_enter
       (js ''Falha no streaming. Tentando fallback'' @ ellipsis) (connecting armed))))
       (js ''c1'') (js ''a1'') = interrupted_placeholder
   \<and> effects (stopGenerating (snd (runChatFallback_enter
       (js ''Falha no streaming. Tentando fallback'' @ ellipsis) (connecting armed))))
       = [Persist, Persist, Abort, Abort, Persist]
   \<and> streamingMsg (catch_error_stopped example_host example_env (js ''c1'') (js ''a1'')
       (js ''Failed to fetch'') (connecting armed)) = None
   \<and> content_of (catch_error_stopped example_host example_env (js ''c1'') (js ''a1'')
       (js ''Failed to fetch'') (connecting armed)) (js ''c1'') (js ''a1'') = js ''Hi''
   \<and> map_option interrupted (find_message (catch_error_stopped example_host example_env (js ''c1'')
       (js ''a1'') (js ''Failed to fetch'') (connecting armed)) (js ''c1'') (js ''a1'')) = Some True
   \<and> effects (catch_error_stopped example_host example_env (js ''c1'') (js ''a1'')
       (js ''Failed to fetch'') (connecting armed))
       = [Persist, Persist, Abort, Abort, Persist, FallbackPost]"
proof -
  let ?reason = "js ''Falha no streaming. Tentando fallback'' @ ellipsis"
  let ?c = "connecting armed"
  let ?sm = "\<lparr>convId = js ''c1'', msgId = js ''a1'', hasFirstChunk = False, thinkingEl = True,
           thinkingText = js ''Conectando'' @ [0x2026], sm_sources = None, sm_artifacts = None,
           sm_sourcesRequested = False\<rparr>"
  let ?m = "\<lparr>msg_id = js ''a1'', role = Assistant, content = [], interrupted = False,
           sources = [], artifacts = [], sourcesRequested = False\<rparr>"
  let ?data = "JObj [(js ''reply'', JStr (js ''Hi''))]"
  have live: "streamingMsg ?c = Some ?sm" by (rule connected_streaming)
  have nf: "\<not> hasFirstChunk ?sm" by simp
  obtain s1 where e: "runChatFallback_enter ?reason ?c = (True, s1)"
    using enter_live(1)[OF live nf, of ?reason] by (cases "runChatFallback_enter ?reason ?c") simp
  have s1: "s1 = snd (runChatFallback_enter ?reason ?c)" using e by simp
  obtain sm1 where l1: "streamingMsg s1 = Some sm1" "convId sm1 = js ''c1''" "msgId sm1 = js ''a1''"
    using enter_live(2)[OF live nf, of ?reason] s1 by auto
  have f1: "find_message s1 (convId sm1) (msgId sm1) = Some ?m"
    using enter_live(3)[OF live nf, of ?reason] s1 l1 armed_message
      find_message_cong[of s1 ?c "js ''c1''" "js ''a1''"] by simp
  have b1: "streamBuffer s1 = []"
    using enter_live(4)[OF live nf, of ?reason] s1 by (simp add: connected_fields)
  have e1: "effects s1 = [Persist, Persist, Abort]"
    using enter_live(5)[OF live nf, of ?reason] s1 by (simp add: connected_fields)
  let ?st = "stopGenerating s1"
  have t0: "trim ([] :: jstring) = []" by (simp add: trim_def trimStart_def trimEnd_def)
  have st1: "streamingMsg ?st = None" by (rule stop_live(1)[OF l1(1) f1])
  have st2: "effects ?st = [Persist, Persist, Abort, Abort, Persist]"
    using stop_live(2)[OF l1(1) f1] e1 by simp
  obtain m' where st3: "find_message ?st (js ''c1'') (js ''a1'') = Some m'"
    "content m' = interrupted_placeholder" "interrupted m'"
    using stop_live(3)[OF l1(1) f1] l1(2,3) b1 t0 by auto
  have post: "post1 (fallback example_env) = PostResponse True 200 [] ?data"
    by (simp add: example_env_def)
  have rep: "trim (String_or_empty example_host (field ?data (js ''reply''))) = js ''Hi''"
    by (simp add: String_or_empty_def or_else_def js_def trim_def trimStart_def trimEnd_def is_ws_def)
  then have ne: "trim (String_or_empty example_host (field ?data (js ''reply''))) \<noteq> []"
    by (simp add: js_def)
  let ?f = "catch_error_stopped example_host example_env (js ''c1'') (js ''a1'')
              (js ''Failed to fetch'') ?c"
  have f: "?f = (update_message (js ''c1'') (js ''a1'') (\<lambda>m. m\<lparr>content := js ''Hi''\<rparr>)
                   (?st\<lparr>effects := effects ?st @ [FallbackPost]\<rparr>))\<lparr>watchdogTimer := False\<rparr>"
    using fallback_rest_finalized[OF st1 post ne, of "js ''c1''" "js ''a1''"] rep e
    by (simp add: catch_error_stopped_def)
  have fm: "find_message ?f (js ''c1'') (js ''a1'') = Some (m'\<lparr>content := js ''Hi''\<rparr>)"
    unfolding f using st3(1) by (simp add: find_message_update)
  have 1: "streamingMsg ?st = None" by (rule st1)
  have 2: "content_of ?st (js ''c1'') (js ''a1'') = interrupted_placeholder"
    using st3 by (simp add: content_of_def)
  have 4: "streamingMsg ?f = None" unfolding f using st1 by (simp add: update_message_fields)
  have 5: "content_of ?f (js ''c1'') (js ''a1'') = js ''Hi''" using fm by (simp add: content_of_def)
  have 6: "map_option interrupted (find_message ?f (js ''c1'') (js ''a1'')) = Some True"
    using fm st3(3) by simp
  have 7: "effects ?f = [Persist, Persist, Abort, Abort, Persist, FallbackPost]"
    unfolding f using st2 by (simp add: update_message_fields)
  show ?thesis unfolding s1[symmetric] using 1 2 st2 4 5 6 7 by (intro conjI)
qed

section \<open>Failures of the transport\<close>

lemma fresh_ensure: "fresh cid mid s \<Longrightarrow> fresh cid mid (ensureStreamingBind s)"
  by (auto simp: fresh_def ensureStreamingBind_def Let_def content_of_def split: option.splits)

lemma started_ensure: "started cid mid s \<Longrightarrow> started cid mid (ensureStreamingBind s)"
  by (auto simp: started_def ensureStreamingBind_def Let_def split: option.splits)

lemma ensure_effects: "effects (ensureStreamingBind s) = effects s"
  by (simp add: ensure_keeps)

lemma fresh_thinking_status: "fresh cid mid s \<Longrightarrow> fresh cid mid (setThinkingStatus t s)"
  using fresh_ensure[of cid mid s]
  by (auto simp: fresh_def setThinkingStatus_def Let_def split: option.splits)

lemma started_thinking_status: "started cid mid s \<Longrightarrow> started cid mid (setThinkingStatus t s)"
  using started_ensure[of cid mid s]
  by (auto simp: started_def setThinkingStatus_def Let_def split: option.splits)

lemma fresh_thinking_visible: "fresh cid mid s \<Longrightarrow> fresh cid mid (ensureThinkingVisible s)"
  using fresh_ensure[of cid mid s]
  by (auto simp: fresh_def ensureThinkingVisible_def Let_def split: option.splits)

lemma started_thinking_visible: "started cid mid s \<Longrightarrow> started cid mid (ensureThinkingVisible s)"
  using started_ensure[of cid mid s]
  by (auto simp: started_def ensureThinkingVisible_def Let_def split: option.splits)

lemma fresh_sources: "fresh cid mid s \<Longrightarrow> fresh cid mid (setStreamingSources i s)"
  by (auto simp: fresh_def setStreamingSources_def split: option.splits)

lemma started_sources: "started cid mid s \<Longrightarrow> started cid mid (setStreamingSources i s)"
  by (auto simp: started_def setStreamingSources_def split: option.splits)

lemma fresh_artifact: "fresh cid mid s \<Longrightarrow> fresh cid mid (pushStreamingArtifact a s)"
  by (auto simp: fresh_def pushStreamingArtifact_def split: option.splits)

lemma started_artifact: "started cid mid s \<Longrightarrow> started cid mid (pushStreamingArtifact a s)"
  by (auto simp: started_def pushStreamingArtifact_def split: option.splits)

lemma sources_effects: "effects (setStreamingSources i s) = effects s"
  by (simp add: setStreamingSources_def split: option.splits)

lemma artifact_effects: "effects (pushStreamingArtifact a s) = effects s"
  by (simp add: pushStreamingArtifact_def split: option.splits)

lemma append_effects: "effects (streamAppend t s) = effects s"
  by (simp add: streamAppend_def Let_def ensure_keeps split: option.splits)

lemma fresh_append: "fresh cid mid s \<Longrightarrow> started cid mid (streamAppend t s)"
  using fresh_ensure[of cid mid s]
  by (auto simp: fresh_def started_def streamAppend_def Let_def split: option.splits)

lemma started_append: "started cid mid s \<Longrightarrow> started cid mid (streamAppend t s)"
  using started_ensure[of cid mid s]
  by (auto simp: started_def streamAppend_def Let_def split: option.splits)

lemma fresh_raf: "fresh cid mid s \<Longrightarrow> fresh cid mid (rafCallback s)"
  by (auto simp: fresh_def rafCallback_def Let_def split: option.splits)

lemma started_raf: "started cid mid s \<Longrightarrow> started cid mid (rafCallback s)"
  by (auto simp: started_def rafCallback_def Let_def update_message_fields find_message_update
      split: option.splits)

lemma status_calm:
  assumes "\<not> ending h (OnStatus st)"
  shows "fresh cid mid s \<Longrightarrow> fresh cid mid (onStatus h st s)"
    and "started cid mid s \<Longrightarrow> started cid mid (onStatus h st s)"
    and "effects (onStatus h st s) = effects s"
  using assms
  by (auto simp: onStatus_def Let_def fresh_thinking_status fresh_thinking_visible
      started_thinking_status started_thinking_visible thinking_status_keeps thinking_visible_keeps)

lemma handle_calm:
  assumes "\<not> ending h c"
  shows "fresh cid mid s \<Longrightarrow> \<not> is_delta c \<Longrightarrow> fresh cid mid (handle h c s)"
    and "fresh cid mid s \<Longrightarrow> is_delta c \<Longrightarrow> started cid mid (handle h c s)"
    and "started cid mid s \<Longrightarrow> started cid mid (handle h c s)"
    and "effects (handle h c s) = effects s"
proof -
  show "fresh cid mid s \<Longrightarrow> \<not> is_delta c \<Longrightarrow> fresh cid mid (handle h c s)"
    using assms status_calm(1)[of h _ cid mid s]
    by (cases c) (simp_all add: onSources_def onArtifact_def fresh_sources fresh_artifact)
  show "fresh cid mid s \<Longrightarrow> is_delta c \<Longrightarrow> started cid mid (handle h c s)"
    by (cases c) (simp_all add: onDelta_def fresh_append)
  show "started cid mid s \<Longrightarrow> started cid mid (handle h c s)"
    using assms status_calm(2)[of h _ cid mid s]
    by (cases c) (simp_all add: onDelta_def onSources_def onArtifact_def started_append
        started_sources started_artifact)
  show "effects (handle h c s) = effects s"
    using assms status_calm(3)[of h _ s]
    by (cases c) (simp_all add: onDelta_def onSources_def onArtifact_def append_effects
        sources_effects artifact_effects)
qed

lemma handle_all_started:
  "started cid mid s \<Longrightarrow> \<forall>c\<in>set cs. \<not> ending h c \<Longrightarrow>
   started cid mid (handle_all h cs s) \<and> effects (handle_all h cs s) = effects s"
proof (induction cs arbitrary: s)
  case Nil
  then show ?case by simp
next
  case (Cons c cs)
  have c: "\<not> ending h c" using Cons.prems(2) by simp
  have "started cid mid (handle h c s)" using handle_calm(3)[OF c Cons.prems(1)] .
  from Cons.IH[OF this] Cons.prems(2) handle_calm(4)[OF c, of s] show ?case by simp
qed

lemma handle_all_fresh:
  "fresh cid mid s \<Longrightarrow> \<forall>c\<in>set cs. \<not> ending h c \<Longrightarrow>
   (if \<exists>c\<in>set cs. is_delta c then started cid mid (handle_all h cs s)
    else fresh cid mid (handle_all h cs s))
   \<and> effects (handle_all h cs s) = effects s"
proof (induction cs arbitrary: s)
  case Nil
  then show ?case by simp
next
  case (Cons c cs)
  have c: "\<not> ending h c" and cs: "\<forall>c\<in>set cs. \<not> ending h c" using Cons.prems(2) by simp_all
  show ?case
  proof (cases "is_delta c")
    case True
    have "started cid mid (handle h c s)" using handle_calm(2)[OF c Cons.prems(1) True] .
    from handle_all_started[OF this cs] handle_calm(4)[OF c, of s] True show ?thesis by simp
  next
    case False
    have "fresh cid mid (handle h c s)" using handle_calm(1)[OF c Cons.prems(1) False] .
    from Cons.IH[OF this cs] handle_calm(4)[OF c, of s] False show ?thesis by simp
  qed
qed

lemma sse_loop_started:
  "started cid mid s \<Longrightarrow> undisturbed items \<Longrightarrow>
   \<forall>c\<in>set (fst (read_loop h step r (chunks_of items))). \<not> ending h c \<Longrightarrow>
   \<exists>r' s'. sse_loop h step env cid mid items r s = Inr (r', s') \<and> started cid mid s' \<and>
           effects s' = effects s"
proof (induction items arbitrary: r s)
  case Nil
  then show ?case by simp
next
  case (Cons i items)
  show ?case
  proof (cases i)
    case (Chunk c)
    obtain calls1 r1 where oc: "on_chunk h step r c = (calls1, r1)" by fastforce
    have q: "\<forall>c\<in>set calls1. \<not> ending h c"
      "\<forall>c\<in>set (fst (read_loop h step r1 (chunks_of items))). \<not> ending h c"
      using Cons.prems(3) Chunk oc by (auto split: prod.splits)
    have u: "undisturbed items" using Cons.prems(2) Chunk by simp
    have 1: "started cid mid (handle_all h calls1 s)" "effects (handle_all h calls1 s) = effects s"
      using handle_all_started[OF Cons.prems(1) q(1)] by simp_all
    from Cons.IH[OF 1(1) u q(2)] 1(2) show ?thesis using Chunk oc by simp
  next
    case RafFires
    have u: "undisturbed items" using Cons.prems(2) RafFires by simp
    have q: "\<forall>c\<in>set (fst (read_loop h step r (chunks_of items))). \<not> ending h c"
      using Cons.prems(3) RafFires by simp
    from Cons.IH[OF started_raf[OF Cons.prems(1)] u q] show ?thesis
      using RafFires by (simp add: raf_effects)
  next
    case WatchdogFires
    then show ?thesis using Cons.prems(2) by simp
  next
    case UserStops
    then show ?thesis using Cons.prems(2) by simp
  qed
qed

lemma sse_loop_fresh:
  "fresh cid mid s \<Longrightarrow> undisturbed items \<Longrightarrow>
   \<forall>c\<in>set (fst (read_loop h step r (chunks_of items))). \<not> ending h c \<Longrightarrow>
   \<exists>r' s'. sse_loop h step env cid mid items r s = Inr (r', s') \<and>
           (if \<exists>c\<in>set (fst (read_loop h step r (chunks_of items))). is_delta c
            then started cid mid s' else fresh cid mid s') \<and>
           effects s' = effects s"
proof (induction items arbitrary: r s)
  case Nil
  then show ?case by simp
next
  case (Cons i items)
  show ?case
  proof (cases i)
    case (Chunk c)
    obtain calls1 r1 where oc: "on_chunk h step r c = (calls1, r1)" by fastforce
    obtain calls2 r2 where rl: "read_loop h step r1 (chunks_of items) = (calls2, r2)" by fastforce
    have all: "fst (read_loop h step r (chunks_of (i # items))) = calls1 @ calls2"
      using Chunk oc rl by simp
    have q: "\<forall>c\<in>set calls1. \<not> ending h c" "\<forall>c\<in>set calls2. \<not> ending h c"
      using Cons.prems(3) unfolding all by auto
    have q2: "\<forall>c\<in>set (fst (read_loop h step r1 (chunks_of items))). \<not> ending h c"
      using q(2) rl by simp
    have u: "undisturbed items" using Cons.prems(2) Chunk by simp
    have e1: "effects (handle_all h calls1 s) = effects s"
      using handle_all_fresh[OF Cons.prems(1) q(1)] by simp
    have step: "sse_loop h step env cid mid (i # items) r s
                = sse_loop h step env cid mid items r1 (handle_all h calls1 s)"
      using Chunk oc by simp
    show ?thesis
    proof (cases "\<exists>c\<in>set calls1. is_delta c")
      case True
      have "started cid mid (handle_all h calls1 s)"
        using handle_all_fresh[OF Cons.prems(1) q(1)] True by simp
      from sse_loop_started[OF this u q2, of env] e1 True show ?thesis
        unfolding step all by auto
    next
      case False
      have "fresh cid mid (handle_all h calls1 s)"
        using handle_all_fresh[OF Cons.prems(1) q(1)] False by simp
      from Cons.IH[OF this u q2] obtain r' s' where
        l: "sse_loop h step env cid mid items r1 (handle_all h calls1 s) = Inr (r', s')"
        and p: "if \<exists>c\<in>set calls2. is_delta c then started cid mid s' else fresh cid mid s'"
        and e: "effects s' = effects (handle_all h calls1 s)"
        using rl by auto
      have "(\<exists>c\<in>set (calls1 @ calls2). is_delta c) = (\<exists>c\<in>set calls2. is_delta c)"
        using False by auto
      then show ?thesis unfolding step all using l p e e1 by simp
    qed
  next
    case RafFires
    have u: "undisturbed items" using Cons.prems(2) RafFires by simp
    have q: "\<forall>c\<in>set (fst (read_loop h step r (chunks_of items))). \<not> ending h c"
      using Cons.prems(3) RafFires by simp
    from Cons.IH[OF fresh_raf[OF Cons.prems(1)] u q] show ?thesis
      using RafFires by (simp add: raf_effects)
  next
    case WatchdogFires
    then show ?thesis using Cons.prems(2) by simp
  next
    case UserStops
    then show ?thesis using Cons.prems(2) by simp
  qed
qed

lemma plain_loop_started:
  "started cid mid s \<Longrightarrow> undisturbed items \<Longrightarrow>
   \<exists>d' s'. plain_loop h step env cid mid items d s = Inr (d', s') \<and> started cid mid s' \<and>
           effects s' = effects s"
proof (induction items arbitrary: d s)
  case Nil
  then show ?case by simp
next
  case (Cons i items)
  show ?case
  proof (cases i)
    case (Chunk c)
    obtain d1 t where dc: "decode step d c = (d1, t)" by fastforce
    let ?s1 = "if t \<noteq> [] then streamAppend t s else s"
    have u: "undisturbed items" using Cons.prems(2) Chunk by simp
    have 1: "started cid mid ?s1" "effects ?s1 = effects s"
      using Cons.prems(1) by (simp_all add: started_append append_effects)
    from Cons.IH[OF 1(1) u, of d1] 1(2) show ?thesis using Chunk dc by simp
  next
    case RafFires
    have u: "undisturbed items" using Cons.prems(2) RafFires by simp
    from Cons.IH[OF started_raf[OF Cons.prems(1)] u, of d] show ?thesis
      using RafFires by (simp add: raf_effects)
  next
    case WatchdogFires
    then show ?thesis using Cons.prems(2) by simp
  next
    case UserStops
    then show ?thesis using Cons.prems(2) by simp
  qed
qed

lemma plain_loop_fresh:
  "fresh cid mid s \<Longrightarrow> undisturbed items \<Longrightarrow>
   \<exists>d' s'. plain_loop h step env cid mid items d s = Inr (d', s') \<and>
           (if plain_text step d items \<noteq> [] then started cid mid s' else fresh cid mid s') \<and>
           effects s' = effects s"
proof (induction items arbitrary: d s)
  case Nil
  then show ?case by simp
next
  case (Cons i items)
  show ?case
  proof (cases i)
    case (Chunk c)
    obtain d1 t where dc: "decode step d c = (d1, t)" by fastforce
    have u: "undisturbed items" using Cons.prems(2) Chunk by simp
    have pt: "plain_text step d (i # items) = t @ plain_text step d1 items"
      using Chunk dc by simp
    show ?thesis
    proof (cases "t = []")
      case True
      have step: "plain_loop h step env cid mid (i # items) d s
                  = plain_loop h step env cid mid items d1 s"
        using Chunk dc True by simp
      from Cons.IH[OF Cons.prems(1) u, of d1] show ?thesis
        unfolding step pt using True by simp
    next
      case False
      have step: "plain_loop h step env cid mid (i # items) d s
                  = plain_loop h step env cid mid items d1 (streamAppend t s)"
        using Chunk dc False by simp
      have "started cid mid (streamAppend t s)" using Cons.prems(1) by (rule fresh_append)
      from plain_loop_started[OF this u, of h step env d1] show ?thesis
        unfolding step pt using False by (simp add: append_effects)
    qed
  next
    case RafFires
    have u: "undisturbed items" using Cons.prems(2) RafFires by simp
    from Cons.IH[OF fresh_raf[OF Cons.prems(1)] u, of d] show ?thesis
      using RafFires by (simp add: raf_effects)
  next
    case WatchdogFires
    then show ?thesis using Cons.prems(2) by simp
  next
    case UserStops
    then show ?thesis using Cons.prems(2) by simp
  qed
qed

lemma fresh_D:
  assumes "fresh cid mid s"
  obtains sm m where "streamingMsg s = Some sm" "convId sm = cid" "msgId sm = mid"
    "\<not> hasFirstChunk sm" "streamBuffer s = []" "find_message s cid mid = Some m"
    "trim (content m) = []"
  using assms by (auto simp: fresh_def split: option.splits)

lemma started_D:
  assumes "started cid mid s"
  obtains sm m where "streamingMsg s = Some sm" "convId sm = cid" "msgId sm = mid"
    "hasFirstChunk sm" "find_message s cid mid = Some m"
  using assms by (auto simp: started_def split: option.splits)

lemma fresh_connecting: "fresh cid mid s \<Longrightarrow> fresh cid mid (connecting s)"
  by (simp add: connecting_def fresh_thinking_status fresh_thinking_visible)

lemma fresh_timer: "fresh cid mid s \<Longrightarrow> fresh cid mid (s\<lparr>watchdogTimer := b\<rparr>)"
  by (auto simp: fresh_def split: option.splits)

lemma fallback_throws:
  assumes live: "streamingMsg s = Some sm" "convId sm = cid" "msgId sm = mid" "\<not> hasFirstChunk sm"
    and found: "find_message s cid mid = Some m"
    and post: "post1 env = PostThrows e" "\<not> health2 env"
  shows "content_of (snd (runChatFallback h env cid mid reason s)) cid mid
           = trim (js ''Falha no fallback /chat ('' @ base env @ js ''). '' @ e) @ [0x0A] @
             (if ping env then
                js ''O backend respondeu ao /health. Isso costuma ser bloqueio do navegador (CORS/mixed-content) ou um erro de rede moment''
                  @ [0xE2] @ js ''neo.''
              else js ''Backend parece offline. Inicie com backend/run_dev.ps1 (porta 8000) e confirme /health.'')"
proof -
  let ?hints = "if ping env then
                js ''O backend respondeu ao /health. Isso costuma ser bloqueio do navegador (CORS/mixed-content) ou um erro de rede moment''
                  @ [0xE2] @ js ''neo.''
              else js ''Backend parece offline. Inicie com backend/run_dev.ps1 (porta 8000) e confirme /health.''"
  let ?txt = "trim (js ''Falha no fallback /chat ('' @ base env @ js ''). '' @ e) @ [0x0A] @ ?hints"
  obtain s1 where en: "runChatFallback_enter reason s = (True, s1)"
    using enter_live(1)[OF live(1,4), of reason] by (cases "runChatFallback_enter reason s") simp
  have s1: "s1 = snd (runChatFallback_enter reason s)" using en by simp
  obtain sm1 where l1: "streamingMsg s1 = Some sm1" "convId sm1 = cid" "msgId sm1 = mid"
    using enter_live(2)[OF live(1,4), of reason] live(2,3) s1 by auto
  have f1: "find_message s1 cid mid = Some m"
    using found enter_live(3)[OF live(1,4), of reason] s1 by (simp add: find_message_def)
  let ?s2 = "s1\<lparr>effects := effects s1 @ [FallbackPost]\<rparr>"
  have l2: "streamingMsg ?s2 = Some sm1" using l1 by simp
  have f2: "find_message ?s2 (convId sm1) (msgId sm1) = Some m" using f1 l1 by simp
  have ne: "?txt \<noteq> []" by simp
  have r: "snd (runChatFallback h env cid mid reason s) = finalizeStreaming h False (Some (JStr ?txt)) None ?s2"
    using en post
    by (simp add: runChatFallback_def runChatFallback_rest_def fallback_failed_def Let_def)
  show ?thesis
    unfolding r using finalize_error_text(1)[OF l2 f2 ne, of h] l1 by simp
qed

lemma catch_fresh:
  assumes "fresh cid mid s"
  shows "\<exists>xs. effects (catch_error h env cid mid msg s) = effects s @ Abort # FallbackPost # xs"
    and "post1 (fallback env) = PostResponse True st body data \<Longrightarrow>
         trim (String_or_empty h (field data (js ''reply''))) \<noteq> [] \<Longrightarrow>
         content_of (catch_error h env cid mid msg s) cid mid
           = trim (String_or_empty h (field data (js ''reply'')))"
    and "post1 (fallback env) = PostResponse False st body data \<Longrightarrow>
         content_of (catch_error h env cid mid msg s) cid mid
           = trim (js ''Fallback /chat retornou '' @ decimal st @ js ''. ''
                   @ (if body \<noteq> [] then take 240 body else []))"
    and "post1 (fallback env) = PostThrows e \<Longrightarrow> \<not> health2 (fallback env) \<Longrightarrow>
         content_of (catch_error h env cid mid msg s) cid mid
           = trim (js ''Falha no fallback /chat ('' @ base (fallback env) @ js ''). '' @ e) @ [0x0A] @
             (if ping (fallback env) then
                js ''O backend respondeu ao /health. Isso costuma ser bloqueio do navegador (CORS/mixed-content) ou um erro de rede moment''
                  @ [0xE2] @ js ''neo.''
              else js ''Backend parece offline. Inicie com backend/run_dev.ps1 (porta 8000) e confirme /health.'')"
proof -
  let ?reason = "js ''Falha no streaming. Tentando fallback'' @ ellipsis"
  obtain sm m where l: "streamingMsg s = Some sm" and i: "convId sm = cid" "msgId sm = mid"
    and nf: "\<not> hasFirstChunk sm" and b: "streamBuffer s = []" and f: "find_message s cid mid = Some m"
    using assms by (rule fresh_D)
  note ce = catch_error_entered[OF l nf, of h env cid mid msg]
  show "\<exists>xs. effects (catch_error h env cid mid msg s) = effects s @ Abort # FallbackPost # xs"
    using fallback_entered(2)[OF l nf, of h "fallback env" cid mid ?reason] by (simp add: ce)
  show "content_of (catch_error h env cid mid msg s) cid mid
           = trim (String_or_empty h (field data (js ''reply'')))"
    if "post1 (fallback env) = PostResponse True st body data"
      "trim (String_or_empty h (field data (js ''reply''))) \<noteq> []"
    using fallback_success(3)[OF l i nf f b that, of ?reason] by (simp add: ce)
  show "content_of (catch_error h env cid mid msg s) cid mid
           = trim (js ''Fallback /chat retornou '' @ decimal st @ js ''. ''
                   @ (if body \<noteq> [] then take 240 body else []))"
    if "post1 (fallback env) = PostResponse False st body data"
    using fallback_http_error[OF l i nf f that, of h ?reason] by (simp add: ce)
  show "content_of (catch_error h env cid mid msg s) cid mid
           = trim (js ''Falha no fallback /chat ('' @ base (fallback env) @ js ''). '' @ e) @ [0x0A] @
             (if ping (fallback env) then
                js ''O backend respondeu ao /health. Isso costuma ser bloqueio do navegador (CORS/mixed-content) ou um erro de rede moment''
                  @ [0xE2] @ js ''neo.''
              else js ''Backend parece offline. Inicie com backend/run_dev.ps1 (porta 8000) e confirme /health.'')"
    if "post1 (fallback env) = PostThrows e" "\<not> health2 (fallback env)"
    using fallback_throws[OF l i nf f that, of h ?reason] by (simp add: ce)
qed

lemma catch_started:
  assumes "started cid mid s"
  shows "effects (catch_error h env cid mid msg s) = effects s @ [Persist]"
    and "content_of (catch_error h env cid mid msg s) cid mid
          = trim (js ''Falha ao conectar ao backend ('' @ backend_base env @ js ''). '' @ msg)
            @ [0x0A] @
            (if online env then
               js ''O backend respondeu ao /health. Isso costuma ser rein'' @ [0xED]
                 @ js ''cio do servidor (reload) ou bloqueio do navegador (CORS).''
             else js ''Backend parece offline. Inicie com backend/run_dev.ps1 (porta 8000).'')"
proof -
  obtain sm m where l: "streamingMsg s = Some sm" and i: "convId sm = cid" "msgId sm = mid"
    and hf: "hasFirstChunk sm" and f: "find_message s cid mid = Some m"
    using assms by (rule started_D)
  have found: "find_message s (convId sm) (msgId sm) = Some m" using f i by simp
  note t = finalize_error_text(1,2)[OF l found connect_text, of h "backend_base env @ js ''). '' @ msg"]
  show "effects (catch_error h env cid mid msg s) = effects s @ [Persist]"
    using t i by (simp add: catch_error_blocked[OF l hf])
  show "content_of (catch_error h env cid mid msg s) cid mid
          = trim (js ''Falha ao conectar ao backend ('' @ backend_base env @ js ''). '' @ msg)
            @ [0x0A] @
            (if online env then
               js ''O backend respondeu ao /health. Isso costuma ser rein'' @ [0xED]
                 @ js ''cio do servidor (reload) ou bloqueio do navegador (CORS).''
             else js ''Backend parece offline. Inicie com backend/run_dev.ps1 (porta 8000).'')"
    using t i by (simp add: catch_error_blocked[OF l hf])
qed

lemma send_fetch_fails:
  "sendMessage_stream h D env cid mid (FetchFails msg) s = catch_error h env cid mid msg (connecting s)"
  by (simp add: sendMessage_stream_def)

lemma send_reader_fails:
  assumes "sse_loop h (dec_step D) (fallback env) cid mid items
             \<lparr>dec = dec_init D, buf = [], frame = frame_init\<rparr> ((connecting s)\<lparr>watchdogTimer := True\<rparr>)
           = Inr (r', s')"
  shows "sendMessage_stream h D env cid mid (failing_response items msg) s
         = catch_error h env cid mid msg s'"
  using assms by (simp add: sendMessage_stream_def failing_response_def)

lemma reader_fails_run:
  assumes "fresh cid mid s" and "undisturbed items"
    and "\<forall>c\<in>set (calls_of h D items). \<not> ending h c"
  shows "\<exists>s'. sendMessage_stream h D env cid mid (failing_response items msg) s
               = catch_error h env cid mid msg s'
              \<and> (if \<exists>c\<in>set (calls_of h D items). is_delta c then started cid mid s'
                  else fresh cid mid s')
              \<and> effects s' = effects s"
proof -
  let ?s1 = "(connecting s)\<lparr>watchdogTimer := True\<rparr>"
  have f1: "fresh cid mid ?s1" using assms(1) by (simp add: fresh_connecting fresh_timer)
  have e1: "effects ?s1 = effects s" by (simp add: connecting_keeps)
  obtain r' s' where l: "sse_loop h (dec_step D) (fallback env) cid mid items
             \<lparr>dec = dec_init D, buf = [], frame = frame_init\<rparr> ?s1 = Inr (r', s')"
    and p: "if \<exists>c\<in>set (calls_of h D items). is_delta c then started cid mid s' else fresh cid mid s'"
    and e: "effects s' = effects ?s1"
    using sse_loop_fresh[OF f1 assms(2), of h "dec_step D" "\<lparr>dec = dec_init D, buf = [], frame = frame_init\<rparr>"
        "fallback env"] assms(3)
    unfolding calls_of_def by blast
  show ?thesis using send_reader_fails[OF l, of msg] p e e1 by (intro exI[of _ s']) simp
qed

lemma plain_reader_fails_run:
  assumes "fresh cid mid s" and "undisturbed items"
  shows "\<exists>s'. sendMessage_stream h D env cid mid (failing_plain_response items msg) s
               = catch_error h env cid mid msg s'
              \<and> (if plain_text (dec_step D) (dec_init D) items \<noteq> [] then started cid mid s'
                  else fresh cid mid s')
              \<and> effects s' = effects s"
proof -
  let ?s1 = "(connecting s)\<lparr>watchdogTimer := True\<rparr>"
  have f1: "fresh cid mid ?s1" using assms(1) by (simp add: fresh_connecting fresh_timer)
  have e1: "effects ?s1 = effects s" by (simp add: connecting_keeps)
  obtain d' s' where l: "plain_loop h (dec_step D) (fallback env) cid mid items (dec_init D) ?s1
                         = Inr (d', s')"
    and p: "if plain_text (dec_step D) (dec_init D) items \<noteq> [] then started cid mid s'
            else fresh cid mid s'"
    and e: "effects s' = effects ?s1"
    using plain_loop_fresh[OF f1 assms(2), of h "dec_step D" "fallback env" "dec_init D"] by blast
  have "sendMessage_stream h D env cid mid (failing_plain_response items msg) s
        = catch_error h env cid mid msg s'"
    using l by (simp add: sendMessage_stream_def failing_plain_response_def)
  then show ?thesis using p e e1 by (intro exI[of _ s']) simp
qed

text \<open>
  Claim C4, amended. On a session as a send arms it (live, before its first chunk, the
  message blank): when the request to the stream endpoint throws an error that is not an
  abort, the stream is aborted and the fallback request is issued; the content is then
  the reply of the fallback when it answers with a reply that is not blank, and an error
  text when the fallback answers with a status that is not ok, or throws while the
  backend cannot be reached. When the reader of an accepted response throws such an error
  before any delta (an event stream whose frames brought no delta and did not end the
  session, or a plain response whose chunks decoded to no text), the same happens. When
  it throws after a delta or a decoded text has arrived, the \<open>catch\<close> finalizes as error at
  once: the state is persisted once, neither an abort nor a fallback request is issued,
  and the content is the connection error text. A streaming response whose status is not
  ok is finalized as error at once, with the status in the text and without fallback.
\<close>

theorem transport_error_recovery:
  assumes "fresh cid mid s"
  shows
    "(\<exists>xs. effects (sendMessage_stream h D env cid mid (FetchFails msg) s)
            = effects s @ Abort # FallbackPost # xs)
   \<and> (post1 (fallback env) = PostResponse True st body data \<longrightarrow>
        trim (String_or_empty h (field data (js ''reply''))) \<noteq> [] \<longrightarrow>
        content_of (sendMessage_stream h D env cid mid (FetchFails msg) s) cid mid
          = trim (String_or_empty h (field data (js ''reply''))))
   \<and> (post1 (fallback env) = PostResponse False st body data \<longrightarrow>
        content_of (sendMessage_stream h D env cid mid (FetchFails msg) s) cid mid
          = trim (js ''Fallback /chat retornou '' @ decimal st @ js ''. ''
                  @ (if body \<noteq> [] then take 240 body else [])))
   \<and> (post1 (fallback env) = PostThrows e \<longrightarrow> \<not> health2 (fallback env) \<longrightarrow>
        content_of (sendMessage_stream h D env cid mid (FetchFails msg) s) cid mid
          = trim (js ''Falha no fallback /chat ('' @ base (fallback env) @ js ''). '' @ e) @ [0x0A] @
            (if ping (fallback env) then
               js ''O backend respondeu ao /health. Isso costuma ser bloqueio do navegador (CORS/mixed-content) ou um erro de rede moment''
                 @ [0xE2] @ js ''neo.''
             else js ''Backend parece offline. Inicie com backend/run_dev.ps1 (porta 8000) e confirme /health.''))
   \<and> (undisturbed items \<longrightarrow> (\<forall>c\<in>set (calls_of h D items). \<not> ending h c \<and> \<not> is_delta c) \<longrightarrow>
        (\<exists>xs. effects (sendMessage_stream h D env cid mid (failing_response items msg) s)
               = effects s @ Abort # FallbackPost # xs)
      \<and> (post1 (fallback env) = PostResponse True st body data \<longrightarrow>
           trim (String_or_empty h (field data (js ''reply''))) \<noteq> [] \<longrightarrow>
           content_of (sendMessage_stream h D env cid mid (failing_response items msg) s) cid mid
             = trim (String_or_empty h (field data (js ''reply'')))))
   \<and> (undisturbed items \<longrightarrow> (\<forall>c\<in>set (calls_of h D items). \<not> ending h c) \<longrightarrow>
      (\<exists>c\<in>set (calls_of h D items). is_delta c) \<longrightarrow>
        effects (sendMessage_stream h D env cid mid (failing_response items msg) s)
          = effects s @ [Persist]
      \<and> content_of (sendMessage_stream h D env cid mid (failing_response items msg) s) cid mid
          = trim (js ''Falha ao conectar ao backend ('' @ backend_base env @ js ''). '' @ msg)
            @ [0x0A] @
            (if online env then
               js ''O backend respondeu ao /health. Isso costuma ser rein'' @ [0xED]
                 @ js ''cio do servidor (reload) ou bloqueio do navegador (CORS).''
             else js ''Backend parece offline. Inicie com backend/run_dev.ps1 (porta 8000).''))
   \<and> (undisturbed items \<longrightarrow> plain_text (dec_step D) (dec_init D) items = [] \<longrightarrow>
        (\<exists>xs. effects (sendMessage_stream h D env cid mid (failing_plain_response items msg) s)
               = effects s @ Abort # FallbackPost # xs))
   \<and> (undisturbed items \<longrightarrow> plain_text (dec_step D) (dec_init D) items \<noteq> [] \<longrightarrow>
        effects (sendMessage_stream h D env cid mid (failing_plain_response items msg) s)
          = effects s @ [Persist]
      \<and> content_of (sendMessage_stream h D env cid mid (failing_plain_response items msg) s) cid mid
          = trim (js ''Falha ao conectar ao backend ('' @ backend_base env @ js ''). '' @ msg)
            @ [0x0A] @
            (if online env then
               js ''O backend respondeu ao /health. Isso costuma ser rein'' @ [0xED]
                 @ js ''cio do servidor (reload) ou bloqueio do navegador (CORS).''
             else js ''Backend parece offline. Inicie com backend/run_dev.ps1 (porta 8000).''))
   \<and> (\<not> resp_ok r \<longrightarrow>
        effects (sendMessage_stream h D env cid mid (Response r) s) = effects s @ [Persist]
      \<and> content_of (sendMessage_stream h D env cid mid (Response r) s) cid mid
          = trim (js ''Servidor retornou '' @ decimal (resp_status r) @ js ''. ''
                  @ (if resp_text r \<noteq> [] then take 240 (resp_text r) else [])))"
proof -
  let ?c = "connecting s"
  have fc: "fresh cid mid ?c" using assms by (rule fresh_connecting)
  have ec: "effects ?c = effects s" by (simp add: connecting_keeps)
  note cf = catch_fresh[OF fc, where h = h and env = env and msg = msg]
  have A: "\<exists>xs. effects (sendMessage_stream h D env cid mid (FetchFails msg) s)
            = effects s @ Abort # FallbackPost # xs"
    using cf(1) by (simp add: send_fetch_fails ec)
  have B: "content_of (sendMessage_stream h D env cid mid (FetchFails msg) s) cid mid
          = trim (String_or_empty h (field data (js ''reply'')))"
    if "post1 (fallback env) = PostResponse True st body data"
      "trim (String_or_empty h (field data (js ''reply''))) \<noteq> []"
    using cf(2)[OF that] by (simp add: send_fetch_fails)
  have C: "content_of (sendMessage_stream h D env cid mid (FetchFails msg) s) cid mid
          = trim (js ''Fallback /chat retornou '' @ decimal st @ js ''. ''
                  @ (if body \<noteq> [] then take 240 body else []))"
    if "post1 (fallback env) = PostResponse False st body data"
    using cf(3)[OF that] by (simp add: send_fetch_fails)
  have D: "content_of (sendMessage_stream h D env cid mid (FetchFails msg) s) cid mid
          = trim (js ''Falha no fallback /chat ('' @ base (fallback env) @ js ''). '' @ e) @ [0x0A] @
            (if ping (fallback env) then
               js ''O backend respondeu ao /health. Isso costuma ser bloqueio do navegador (CORS/mixed-content) ou um erro de rede moment''
                 @ [0xE2] @ js ''neo.''
             else js ''Backend parece offline. Inicie com backend/run_dev.ps1 (porta 8000) e confirme /health.'')"
    if "post1 (fallback env) = PostThrows e" "\<not> health2 (fallback env)"
    using cf(4)[OF that] by (simp add: send_fetch_fails)
  have E: "(\<exists>xs. effects (sendMessage_stream h D env cid mid (failing_response items msg) s)
               = effects s @ Abort # FallbackPost # xs)
      \<and> (post1 (fallback env) = PostResponse True st body data \<longrightarrow>
           trim (String_or_empty h (field data (js ''reply''))) \<noteq> [] \<longrightarrow>
           content_of (sendMessage_stream h D env cid mid (failing_response items msg) s) cid mid
             = trim (String_or_empty h (field data (js ''reply''))))"
    if u: "undisturbed items" and q: "\<forall>c\<in>set (calls_of h D items). \<not> ending h c \<and> \<not> is_delta c"
  proof -
    have q1: "\<forall>c\<in>set (calls_of h D items). \<not> ending h c" using q by simp
    have nd: "\<not> (\<exists>c\<in>set (calls_of h D items). is_delta c)" using q by simp
    obtain s' where r: "sendMessage_stream h D env cid mid (failing_response items msg) s
               = catch_error h env cid mid msg s'"
      and p: "fresh cid mid s'" and e': "effects s' = effects s"
      using reader_fails_run[OF assms u q1, where env = env and msg = msg] nd by auto
    show ?thesis
      unfolding r using catch_fresh(1)[OF p, where h = h and env = env and msg = msg]
        catch_fresh(2)[OF p, where h = h and env = env and msg = msg and st = st and body = body and data = data] e'
      by simp
  qed
  have F: "effects (sendMessage_stream h D env cid mid (failing_response items msg) s)
          = effects s @ [Persist]
      \<and> content_of (sendMessage_stream h D env cid mid (failing_response items msg) s) cid mid
          = trim (js ''Falha ao conectar ao backend ('' @ backend_base env @ js ''). '' @ msg)
            @ [0x0A] @
            (if online env then
               js ''O backend respondeu ao /health. Isso costuma ser rein'' @ [0xED]
                 @ js ''cio do servidor (reload) ou bloqueio do navegador (CORS).''
             else js ''Backend parece offline. Inicie com backend/run_dev.ps1 (porta 8000).'')"
    if u: "undisturbed items" and q: "\<forall>c\<in>set (calls_of h D items). \<not> ending h c"
      and d: "\<exists>c\<in>set (calls_of h D items). is_delta c"
  proof -
    obtain s' where r: "sendMessage_stream h D env cid mid (failing_response items msg) s
               = catch_error h env cid mid msg s'"
      and p: "started cid mid s'" and e': "effects s' = effects s"
      using reader_fails_run[OF assms u q, where env = env and msg = msg] d by auto
    show ?thesis
      unfolding r using catch_started[OF p, where h = h and env = env and msg = msg] e' by simp
  qed
  have P1: "\<exists>xs. effects (sendMessage_stream h D env cid mid (failing_plain_response items msg) s)
               = effects s @ Abort # FallbackPost # xs"
    if u: "undisturbed items" and q: "plain_text (dec_step D) (dec_init D) items = []"
  proof -
    obtain s' where r: "sendMessage_stream h D env cid mid (failing_plain_response items msg) s
               = catch_error h env cid mid msg s'"
      and p: "fresh cid mid s'" and e': "effects s' = effects s"
      using plain_reader_fails_run[OF assms u, where h = h and D = D and env = env and msg = msg] q
      by auto
    show ?thesis
      unfolding r using catch_fresh(1)[OF p, where h = h and env = env and msg = msg] e' by simp
  qed
  have P2: "effects (sendMessage_stream h D env cid mid (failing_plain_response items msg) s)
          = effects s @ [Persist]
      \<and> content_of (sendMessage_stream h D env cid mid (failing_plain_response items msg) s) cid mid
          = trim (js ''Falha ao conectar ao backend ('' @ backend_base env @ js ''). '' @ msg)
            @ [0x0A] @
            (if online env then
               js ''O backend respondeu ao /health. Isso costuma ser rein'' @ [0xED]
                 @ js ''cio do servidor (reload) ou bloqueio do navegador (CORS).''
             else js ''Backend parece offline. Inicie com backend/run_dev.ps1 (porta 8000).'')"
    if u: "undisturbed items" and q: "plain_text (dec_step D) (dec_init D) items \<noteq> []"
  proof -
    obtain s' where r: "sendMessage_stream h D env cid mid (failing_plain_response items msg) s
               = catch_error h env cid mid msg s'"
      and p: "started cid mid s'" and e': "effects s' = effects s"
      using plain_reader_fails_run[OF assms u, where h = h and D = D and env = env and msg = msg] q
      by auto
    show ?thesis
      unfolding r using catch_started[OF p, where h = h and env = env and msg = msg] e' by simp
  qed
  have G: "effects (sendMessage_stream h D env cid mid (Response r) s) = effects s @ [Persist]
      \<and> content_of (sendMessage_stream h D env cid mid (Response r) s) cid mid
          = trim (js ''Servidor retornou '' @ decimal (resp_status r) @ js ''. ''
                  @ (if resp_text r \<noteq> [] then take 240 (resp_text r) else []))"
    if "\<not> resp_ok r"
  proof -
    obtain sm m where l: "streamingMsg ?c = Some sm" and i: "convId sm = cid" "msgId sm = mid"
      and f: "find_message ?c cid mid = Some m"
      using fc by (rule fresh_D)
    have found: "find_message ?c (convId sm) (msgId sm) = Some m" using f i by simp
    show ?thesis
      using finalize_error_text(1,2)[OF l found server_text, of h] i that
      by (simp add: sendMessage_stream_def connecting_keeps)
  qed
  from A B C D E F P1 P2 G show ?thesis by blast
qed

lemma begin_send_fresh:
  assumes "begin_send cid uid mid txt True req s0 = (True, s)"
    and "find_message s0 cid mid = None" and "uid \<noteq> mid"
  shows "fresh cid mid s"
proof -
  obtain sm where 1: "streamingMsg s = Some sm" "convId sm = cid" "msgId sm = mid" "\<not> hasFirstChunk sm"
    using begin_send_armed(1)[OF assms] by blast
  obtain m where 2: "find_message s cid mid = Some m" "content m = []"
    using begin_send_armed(2)[OF assms] by blast
  have 3: "streamBuffer s = []" using begin_send_armed(3)[OF assms] .
  show ?thesis using 1 2 3 by (simp add: fresh_def trim_def trimStart_def trimEnd_def)
qed

lemma delta_chunk:
  \<open>fst (on_chunk example_host utf8_step \<lparr>dec = utf8_init, buf = [], frame = frame_init\<rparr>
          (bytes ''data: {"type":"delta"}Hello'' @ [0x0A, 0x0A])) = [OnDelta (js ''Hello'')]\<close>
  by (simp add: run_simps splitLeadingJson_def eventName_def safeJsonParse_def example_host_def
      is_object_def String_or_empty_def or_else_def deltaText_def)

lemma status_chunk:
  \<open>fst (on_chunk example_host utf8_step \<lparr>dec = utf8_init, buf = [], frame = frame_init\<rparr>
          (bytes ''event: status'' @ 0x0A # bytes ''data: {}'' @ [0x0A, 0x0A])) = [OnStatus JNull]\<close>
  by (simp add: run_simps splitLeadingJson_def eventName_def safeJsonParse_def example_host_def
      is_object_def is_array_def phase_is_def String_or_empty_def or_else_def deltaText_def)

lemma fresh_armed: "fresh (js ''c1'') (js ''a1'') armed"
  by (simp add: fresh_def armed_streaming armed_message armed_fields trim_def trimStart_def trimEnd_def)

theorem transport_error_recovery_witness:
  \<open>content_of (sendMessage_stream example_host utf8 example_env (js ''c1'') (js ''a1'')
                 (FetchFails (js ''Failed to fetch'')) armed) (js ''c1'') (js ''a1'') = js ''Hi''
   \<and> (\<exists>xs. effects (sendMessage_stream example_host utf8 example_env (js ''c1'') (js ''a1'')
                        (FetchFails (js ''Failed to fetch'')) armed)
             = [Persist, Persist] @ Abort # FallbackPost # xs)
   \<and> content_of (sendMessage_stream example_host utf8 example_env (js ''c1'') (js ''a1'')
        (failing_response
           [Chunk (bytes ''event: status'' @ 0x0A # bytes ''data: {}'' @ [0x0A, 0x0A]), RafFires]
           (js ''network error'')) armed) (js ''c1'') (js ''a1'') = js ''Hi''
   \<and> effects (sendMessage_stream example_host utf8 example_env (js ''c1'') (js ''a1'')
        (failing_response [Chunk (bytes ''data: {"type":"delta"}Hello'' @ [0x0A, 0x0A]), RafFires]
           (js ''network error'')) armed) = [Persist, Persist, Persist]
   \<and> content_of (sendMessage_stream example_host utf8 example_env (js ''c1'') (js ''a1'')
        (failing_response [Chunk (bytes ''data: {"type":"delta"}Hello'' @ [0x0A, 0x0A]), RafFires]
           (js ''network error'')) armed) (js ''c1'') (js ''a1'')
       = js ''Falha ao conectar ao backend (http://127.0.0.1:8000). network error'' @ [0x0A]
         @ js ''O backend respondeu ao /health. Isso costuma ser rein'' @ [0xED]
         @ js ''cio do servidor (reload) ou bloqueio do navegador (CORS).''
   \<and> effects (sendMessage_stream example_host utf8 example_env (js ''c1'') (js ''a1'')
        (failing_plain_response [Chunk (bytes ''Hello'')] (js ''network error'')) armed)
       = [Persist, Persist, Persist]\<close>
proof -
  let ?data = "JObj [(js ''reply'', JStr (js ''Hi''))]"
  let ?quiet = "[Chunk (bytes ''event: status'' @ 0x0A # bytes ''data: {}'' @ [0x0A, 0x0A]), RafFires]"
  let ?delta = \<open>[Chunk (bytes ''data: {"type":"delta"}Hello'' @ [0x0A, 0x0A]), RafFires]\<close>
  have post: "post1 (fallback example_env) = PostResponse True 200 [] ?data"
    by (simp add: example_env_def)
  have rep: "trim (String_or_empty example_host (field ?data (js ''reply''))) = js ''Hi''"
    by (simp add: String_or_empty_def or_else_def js_def trim_def trimStart_def trimEnd_def is_ws_def)
  have ne: "js ''Hi'' \<noteq> []" by (simp add: js_def)
  have cq: "calls_of example_host utf8 ?quiet = [OnStatus JNull]"
    using status_chunk by (simp add: calls_of_def utf8_def split: prod.splits)
  have cd: "calls_of example_host utf8 ?delta = [OnDelta (js ''Hello'')]"
    using delta_chunk by (simp add: calls_of_def utf8_def split: prod.splits)
  have calm: "\<not> ending example_host (OnStatus JNull)"
    by (simp add: String_or_empty_def or_else_def example_host_def trim_def trimStart_def
        trimEnd_def js_def)
  have t: "trim (js ''Falha ao conectar ao backend ('' @ backend_base example_env @ js ''). ''
                 @ js ''network error'')
           = js ''Falha ao conectar ao backend (http://127.0.0.1:8000). network error''"
    by (simp add: example_env_def js_def trim_def trimStart_def trimEnd_def is_ws_def)
  have on: "online example_env" by (simp add: example_env_def)
  from transport_error_recovery[OF fresh_armed, where h = example_host and D = utf8
      and env = example_env and msg = "js ''Failed to fetch''" and st = 200 and body = "[]"
      and data = ?data and items = "[]"]
  have 1: "content_of (sendMessage_stream example_host utf8 example_env (js ''c1'') (js ''a1'')
                 (FetchFails (js ''Failed to fetch'')) armed) (js ''c1'') (js ''a1'') = js ''Hi''"
    and 2: "\<exists>xs. effects (sendMessage_stream example_host utf8 example_env (js ''c1'') (js ''a1'')
                        (FetchFails (js ''Failed to fetch'')) armed)
             = [Persist, Persist] @ Abort # FallbackPost # xs"
    using post rep ne by (simp_all add: armed_fields)
  from transport_error_recovery[OF fresh_armed, where h = example_host and D = utf8
      and env = example_env and msg = "js ''network error''" and st = 200 and body = "[]"
      and data = ?data and items = ?quiet]
  have 3: "content_of (sendMessage_stream example_host utf8 example_env (js ''c1'') (js ''a1'')
        (failing_response ?quiet (js ''network error'')) armed) (js ''c1'') (js ''a1'') = js ''Hi''"
    using post rep ne calm unfolding cq by simp
  from transport_error_recovery[OF fresh_armed, where h = example_host and D = utf8
      and env = example_env and msg = "js ''network error''" and items = ?delta]
  have 4: "effects (sendMessage_stream example_host utf8 example_env (js ''c1'') (js ''a1'')
        (failing_response ?delta (js ''network error'')) armed) = [Persist, Persist, Persist]"
    and 5: "content_of (sendMessage_stream example_host utf8 example_env (js ''c1'') (js ''a1'')
        (failing_response ?delta (js ''network error'')) armed) (js ''c1'') (js ''a1'')
       = js ''Falha ao conectar ao backend (http://127.0.0.1:8000). network error'' @ [0x0A]
         @ js ''O backend respondeu ao /health. Isso costuma ser rein'' @ [0xED]
         @ js ''cio do servidor (reload) ou bloqueio do navegador (CORS).''"
    unfolding cd t using on by (simp_all add: armed_fields)
  have pt: "plain_text (dec_step utf8) (dec_init utf8) [Chunk (bytes ''Hello'')] \<noteq> []"
    by (simp add: utf8_def bytes_def utf8_step_def utf8_init_def utf8_lead_def utf8_out_def
        utf16_def utf8_reset_def Let_def)
  from transport_error_recovery[OF fresh_armed, where h = example_host and D = utf8
      and env = example_env and msg = "js ''network error''" and items = "[Chunk (bytes ''Hello'')]"]
  have 6: "effects (sendMessage_stream example_host utf8 example_env (js ''c1'') (js ''a1'')
        (failing_plain_response [Chunk (bytes ''Hello'')] (js ''network error'')) armed)
       = [Persist, Persist, Persist]"
    using pt by (simp add: armed_fields)
  from 1 2 3 4 5 6 show ?thesis by (intro conjI)
qed

end
